theory Spec2Isabelle
  imports
    Complex_Main
    "HOL-Library.AList"
    "HOL-Library.Char_ord"
    "HOL-Library.List_Lexorder"
begin

section \<open>Data model\<close>

text \<open>
  The dashboard reads four JSON resources. A JavaScript object with string keys is an
  association list in insertion order; \<open>map_of\<close> reads a property (\<open>None\<close> is
  \<open>undefined\<close>) and \<open>AList.update\<close> writes one (in place when the key exists, at the
  end otherwise). Numbers are rationals: the arithmetic of the source is modelled exactly,
  without the rounding of IEEE doubles. Properties inherited from \<open>Object.prototype\<close>
  are not modelled. A date is a count of days (an ISO string in the source).
\<close>

type_synonym 'v obj = "(string \<times> 'v) list"

text \<open>\<open>analyte_ranges.json\<close>: \<open>{min: number|null, max: number|null, unit: string|null}\<close>.\<close>

record analyte_range =
  range_min :: "rat option"
  range_max :: "rat option"
  range_unit :: "string option"

text \<open>
  \<open>measurements.json\<close>: \<open>{date, value}\<close>; a missing date is \<open>None\<close>. The demo generator
  also writes a source.
\<close>

record measurement =
  m_date :: "int option"
  m_value :: rat
  m_source :: "string option"

text \<open>\<open>stations.json\<close>; \<open>code\<close> is written by the demo generator only.\<close>

record station =
  st_code :: "string option"
  st_name :: "string option"
  st_longitude :: rat
  st_latitude :: rat
  st_analytes :: "string list"
  st_measurement_count :: nat

text \<open>\<open>latest_values.json\<close>: \<open>{value, date, status, unit}\<close>; the status is a string.\<close>

record latest_value =
  lv_value :: rat
  lv_date :: "int option"
  lv_status :: string
  lv_unit :: "string option"

text \<open>The aggregate that \<open>loadAllData\<close> returns.\<close>

record app_data =
  stations :: "station obj"
  measurements :: "measurement list obj obj"
  latestValues :: "latest_value obj obj"
  analyteRanges :: "analyte_range obj"

datatype error = TypeError | FetchError string

text \<open>
  A \<open>Set\<close> is the list of its members in insertion order; \<open>set_add\<close> is \<open>Set.add\<close>,
  \<open>new_Set\<close> is \<open>new Set(array)\<close>.
\<close>

definition set_add :: "'a \<Rightarrow> 'a list \<Rightarrow> 'a list" where
  "set_add a s = (if a \<in> set s then s else s @ [a])"

definition new_Set :: "'a list \<Rightarrow> 'a list" where
  "new_Set xs = fold set_add xs []"

text \<open>
  \<open>forEach\<close> with a callback that may throw: the first exception ends the loop.
\<close>

fun forEach_err :: "('a \<Rightarrow> 's \<Rightarrow> error + 's) \<Rightarrow> 'a list \<Rightarrow> 's \<Rightarrow> error + 's" where
  "forEach_err f [] s = Inr s"
| "forEach_err f (x # xs) s =
     (case f x s of Inl e \<Rightarrow> Inl e | Inr s' \<Rightarrow> forEach_err f xs s')"

section \<open>DataLoader: the analyte list and the demo data (js/data-loader.js)\<close>

text \<open>
  \<open>getAnalytes\<close>: the analytes of all stations collected in a \<open>Set\<close>, then
  \<open>Array.from(analytes).sort()\<close>. The default sort compares strings code unit by
  code unit; the order on \<open>string\<close> is that lexicographic order on character codes.
\<close>

definition getAnalytes :: "app_data \<Rightarrow> string list" where
  "getAnalytes data =
     sort (fold (\<lambda>station analytes. fold set_add (st_analytes station) analytes)
                (map snd (stations data)) [])"

subsection \<open>The demo-data generator (second copy of the loader)\<close>

text \<open>
  What \<open>generateTimeSeries\<close> reads from its environment in one iteration: the value of
  \<open>Math.sin\<close> and the three draws of \<open>Math.random()\<close> (the third is consumed only
  for an outlier).
\<close>

record sample =
  sine :: rat
  random1 :: rat
  random2 :: rat
  random3 :: rat

definition baseValues :: "rat obj" where
  "baseValues =
     [(''Dissolved Oxygen'', 15 / 2), (''pH'', 36 / 5), (''Specific Conductivity'', 300),
      (''Temperature'', 15), (''Turbidity'', 8), (''Nitrate'', 12)]"

text \<open>The value computed by one iteration; \<open>Math.round x\<close> is \<open>\<lfloor>x + 1/2\<rfloor>\<close>.\<close>

definition demo_value :: "rat \<Rightarrow> sample \<Rightarrow> rat" where
  "demo_value baseValue s =
     (let seasonalFactor = sine s * (2 / 10);
          randomFactor = (random1 s - 1 / 2) * (3 / 10);
          currentValue = baseValue * (1 + seasonalFactor + randomFactor);
          currentValue = (if random2 s < 5 / 100
                          then currentValue * (if random3 s > 1 / 2 then 3 / 2 else 7 / 10)
                          else currentValue);
          currentValue = max (1 / 10) currentValue
      in of_int \<lfloor>currentValue * 100 + 1 / 2\<rfloor> / 100)"

text \<open>\<open>for (let i = daysBack; i >= 0; i -= 7)\<close>, pushing one measurement per week.\<close>

function generateTimeSeries_loop ::
  "(int \<Rightarrow> sample) \<Rightarrow> int \<Rightarrow> rat \<Rightarrow> int \<Rightarrow> measurement list \<Rightarrow> measurement list" where
  "generateTimeSeries_loop env now baseValue i ms =
     (if i \<ge> 0
      then generateTimeSeries_loop env now baseValue (i - 7)
             (ms @ [\<lparr>m_date = Some (now - i), m_value = demo_value baseValue (env i),
                     m_source = Some ''demo''\<rparr>])
      else ms)"
  by pat_completeness auto
termination
  by (relation "measure (\<lambda>(env, now, baseValue, i, ms). nat (i + 1))") auto

definition date_key :: "measurement \<Rightarrow> int" where
  "date_key m = (case m_date m of Some d \<Rightarrow> d | None \<Rightarrow> 0)"

text \<open>
  \<open>generateTimeSeries(analyte, range)\<close>; \<open>baseValues[analyte] || 10\<close>; the result is
  sorted by date (a stable sort). The range is not read.
\<close>

definition generateTimeSeries ::
  "(int \<Rightarrow> sample) \<Rightarrow> int \<Rightarrow> string \<Rightarrow> analyte_range \<Rightarrow> measurement list" where
  "generateTimeSeries env now analyte rng =
     (let daysBack = 365;
          baseValue = (case map_of baseValues analyte of
                         None \<Rightarrow> 10
                       | Some b \<Rightarrow> if b = 0 then 10 else b)
      in sort_key date_key (generateTimeSeries_loop env now baseValue daysBack []))"

definition stationCoords :: "(rat \<times> rat) obj" where
  "stationCoords =
     [(''SRA190'', (- 1219883528 / 10000000, 377714199 / 10000000)),
      (''SRA161'', (- 121981522 / 1000000, 37811637 / 1000000)),
      (''SRA160'', (- 1219852663 / 10000000, 378122981 / 10000000)),
      (''SRA141'', (- 1219976948 / 10000000, 378238159 / 10000000)),
      (''SRA120'', (- 1220205907 / 10000000, 378407117 / 10000000)),
      (''SRA100'', (- 1220391426 / 10000000, 378647308 / 10000000))]"

text \<open>
  The status of the latest value, as the body of the inner loop computes it:
  \<open>'no_range'\<close> unless \<open>range.min !== null || range.max !== null\<close>.
\<close>

definition latest_status :: "analyte_range \<Rightarrow> rat \<Rightarrow> string" where
  "latest_status rng v =
     (if range_min rng \<noteq> None \<or> range_max rng \<noteq> None
      then (let withinRange =
                  (case range_min rng of None \<Rightarrow> True | Some lo \<Rightarrow> v \<ge> lo)
                  \<and> (case range_max rng of None \<Rightarrow> True | Some hi \<Rightarrow> v \<le> hi)
            in if withinRange then ''acceptable'' else ''outside_range'')
      else ''no_range'')"

text \<open>
  The body of \<open>analytes.forEach\<close> for one station: \<open>analyte\<close> runs over
  \<open>Object.keys(analyteRanges)\<close> and \<open>range\<close> is \<open>analyteRanges[analyte]\<close>, so the loop
  runs over the entries. Reading \<open>latest.value\<close> of an empty series throws.
\<close>

definition demo_analyte ::
  "(string \<Rightarrow> string \<Rightarrow> int \<Rightarrow> sample) \<Rightarrow> int \<Rightarrow> string \<Rightarrow> string \<times> analyte_range
     \<Rightarrow> measurement list obj \<times> latest_value obj
     \<Rightarrow> error + (measurement list obj \<times> latest_value obj)" where
  "demo_analyte env now stationCode entry acc =
     (case entry of (analyte, rng) \<Rightarrow>
      case acc of (ms, lvs) \<Rightarrow>
        let timeSeries = generateTimeSeries (env stationCode analyte) now analyte rng
        in case rev timeSeries of
             [] \<Rightarrow> Inl TypeError
           | latest # _ \<Rightarrow>
               Inr (AList.update analyte timeSeries ms,
                    AList.update analyte
                      \<lparr>lv_value = m_value latest, lv_date = m_date latest,
                       lv_status = latest_status rng (m_value latest),
                       lv_unit = range_unit rng\<rparr> lvs))"

text \<open>The body of \<open>Object.entries(stationCoords).forEach\<close>.\<close>

definition demo_station ::
  "(string \<Rightarrow> string \<Rightarrow> int \<Rightarrow> sample) \<Rightarrow> int \<Rightarrow> analyte_range obj \<Rightarrow> string \<times> rat \<times> rat
     \<Rightarrow> station obj \<times> measurement list obj obj \<times> latest_value obj obj
     \<Rightarrow> error + (station obj \<times> measurement list obj obj \<times> latest_value obj obj)" where
  "demo_station env now ranges entry acc =
     (case entry of (stationCode, lon, lat) \<Rightarrow>
      case acc of (sts, mss, lvss) \<Rightarrow>
        let analytes = map fst ranges;
            sts' = AList.update stationCode
                     \<lparr>st_code = Some stationCode, st_name = Some (''Station '' @ stationCode),
                      st_longitude = lon, st_latitude = lat, st_analytes = analytes,
                      st_measurement_count = 50\<rparr> sts
        in case forEach_err (demo_analyte env now stationCode) ranges ([], []) of
             Inl e \<Rightarrow> Inl e
           | Inr (ms, lvs) \<Rightarrow>
               Inr (sts', AList.update stationCode ms mss, AList.update stationCode lvs lvss))"

definition generateDemoData ::
  "(string \<Rightarrow> string \<Rightarrow> int \<Rightarrow> sample) \<Rightarrow> int \<Rightarrow> analyte_range obj
     \<Rightarrow> error + (station obj \<times> measurement list obj obj \<times> latest_value obj obj)" where
  "generateDemoData env now ranges =
     forEach_err (demo_station env now ranges) stationCoords ([], [], [])"

text \<open>The status as the specification words it.\<close>

definition spec_status :: "rat option \<Rightarrow> rat option \<Rightarrow> rat \<Rightarrow> string" where
  "spec_status lo hi v =
     (if lo = None \<and> hi = None then ''no_range''
      else if (case lo of None \<Rightarrow> True | Some l \<Rightarrow> l \<le> v)
              \<and> (case hi of None \<Rightarrow> True | Some h \<Rightarrow> v \<le> h) then ''acceptable''
      else ''outside_range'')"

text \<open>The latest-value record that the inner loop stores for a series.\<close>

definition demo_latest :: "analyte_range \<Rightarrow> measurement list \<Rightarrow> latest_value" where
  "demo_latest rng ts =
     \<lparr>lv_value = m_value (last ts), lv_date = m_date (last ts),
      lv_status = latest_status rng (m_value (last ts)), lv_unit = range_unit rng\<rparr>"

text \<open>
  An environment without seasonal or random variation and without outliers, and the
  range of pH.
\<close>

definition calm :: "string \<Rightarrow> string \<Rightarrow> int \<Rightarrow> sample" where
  "calm code analyte i = \<lparr>sine = 0, random1 = 1 / 2, random2 = 1, random3 = 0\<rparr>"

definition ph_range :: analyte_range where
  "ph_range = \<lparr>range_min = Some (13 / 2), range_max = Some (17 / 2), range_unit = None\<rparr>"

section \<open>ChartManager (src/js/charts.js)\<close>

record point =
  point_x :: int
  point_y :: rat

record dataset =
  ds_label :: string
  ds_data :: "point list"
  ds_color :: string
  ds_unit :: "string option"
  ds_acceptableRange :: "analyte_range option"

text \<open>
  The part of the data and options of a Chart.js chart that the manager writes;
  \<open>None\<close> is \<open>undefined\<close>.
\<close>

record chart =
  chart_datasets :: "dataset list"
  chart_title :: string
  chart_y_title :: string
  chart_y_min :: "rat option"
  chart_y_max :: "rat option"

text \<open>
  \<open>allValues\<close> of \<open>fitAxesToData\<close>: the \<open>y\<close> of every point of every dataset, in order.
\<close>

definition allValues :: "chart \<Rightarrow> rat list" where
  "allValues c = concat (map (\<lambda>d. map point_y (ds_data d)) (chart_datasets c))"

text \<open>
  \<open>Math.min(...xs)\<close> and \<open>Math.max(...xs)\<close> on at least one argument (the source calls
  them only after \<open>allValues.length === 0\<close> has been excluded).
\<close>

definition math_min :: "rat \<Rightarrow> rat list \<Rightarrow> rat" where
  "math_min v vs = fold min vs v"

definition math_max :: "rat \<Rightarrow> rat list \<Rightarrow> rat" where
  "math_max v vs = fold max vs v"

text \<open>\<open>range > 0 ? range * 0.1 : Math.abs(min * 0.1) || 1\<close>\<close>

definition axis_padding :: "rat \<Rightarrow> rat \<Rightarrow> rat" where
  "axis_padding mn mx =
     (let rng = mx - mn in
      if rng > 0 then rng * (1 / 10)
      else if \<bar>mn * (1 / 10)\<bar> = 0 then 1 else \<bar>mn * (1 / 10)\<bar>)"

definition fitAxesToData :: "chart \<Rightarrow> chart" where
  "fitAxesToData c =
     (if chart_datasets c = [] then c\<lparr>chart_y_min := None, chart_y_max := None\<rparr>
      else case allValues c of
        [] \<Rightarrow> c\<lparr>chart_y_min := None, chart_y_max := None\<rparr>
      | v # vs \<Rightarrow>
          let mn = math_min v vs;
              mx = math_max v vs;
              padding = axis_padding mn mx
          in c\<lparr>chart_y_min := Some (max 0 (mn - padding)),
                chart_y_max := Some (mx + padding)\<rparr>)"

text \<open>A chart holding one series for each of the given lists of values.\<close>

definition chart_of_series :: "rat list list \<Rightarrow> chart" where
  "chart_of_series vss =
     \<lparr>chart_datasets =
        map (\<lambda>vs. \<lparr>ds_label = ''pH'', ds_data = map (\<lambda>v. \<lparr>point_x = 0, point_y = v\<rparr>) vs,
                   ds_color = ''#28a745'', ds_unit = None, ds_acceptableRange = None\<rparr>) vss,
      chart_title = ''Water Quality Time Series'', chart_y_title = ''Value'',
      chart_y_min = None, chart_y_max = None\<rparr>"

text \<open>The padding as the specification words it, from the least and greatest value.\<close>

definition spec_padding :: "rat \<Rightarrow> rat \<Rightarrow> rat" where
  "spec_padding lo hi =
     (if hi - lo > 0 then (hi - lo) / 10 else if lo = 0 then 1 else \<bar>lo\<bar> / 10)"

subsection \<open>The manager\<close>

text \<open>
  The fields of \<open>ChartManager\<close>; \<open>None\<close> is \<open>null\<close>. \<open>analyteColors\<close> is an object,
  \<open>visibleAnalytes\<close> a \<open>Set\<close>. \<open>this.chart\<close> is \<open>null\<close> or the chart made by
  \<open>new Chart(ctx, this.config)\<close>, which keeps the configuration object it is given:
  the data and options that the manager reads and writes through \<open>this.chart\<close> are
  those of \<open>this.config\<close>. So \<open>cm_config\<close> holds them, and \<open>cm_chart\<close> tells whether
  \<open>this.chart\<close> is a chart.
\<close>

record chart_manager =
  cm_chart :: bool
  cm_config :: chart
  cm_data :: "app_data option"
  cm_currentStation :: "string option"
  cm_visibleAnalytes :: "string list"
  cm_analyteColors :: "string obj"

definition colorPalette :: "string list" where
  "colorPalette =
     [''#28a745'', ''#007bff'', ''#ffc107'', ''#dc3545'', ''#6f42c1'',
      ''#fd7e14'', ''#20c997'', ''#e83e8c'', ''#6c757d'', ''#17a2b8'']"

text \<open>\<open>this.config\<close> as the constructor builds it.\<close>

definition config :: chart where
  "config =
     \<lparr>chart_datasets = [], chart_title = ''Water Quality Time Series'',
      chart_y_title = ''Value'', chart_y_min = None, chart_y_max = None\<rparr>"

definition new_ChartManager :: chart_manager where
  "new_ChartManager =
     \<lparr>cm_chart = False, cm_config = config, cm_data = None, cm_currentStation = None,
      cm_visibleAnalytes = [], cm_analyteColors = []\<rparr>"

text \<open>The state in which a method returns, or in which it throws.\<close>

datatype 'a outcome = Returned 'a | Threw error 'a

fun state_of :: "'a outcome \<Rightarrow> 'a" where
  "state_of (Returned s) = s"
| "state_of (Threw e s) = s"

text \<open>
  \<open>initChart(data)\<close>; \<open>canvas\<close> tells whether \<open>document.getElementById\<close> finds it. The
  new chart shows \<open>this.config\<close> as it is by then.
\<close>

definition initChart :: "app_data \<Rightarrow> bool \<Rightarrow> chart_manager \<Rightarrow> chart_manager" where
  "initChart data canvas s =
     (let s = s\<lparr>cm_data := Some data\<rparr>
      in if \<not> canvas then s else s\<lparr>cm_chart := True\<rparr>)"

text \<open>
  \<open>createDataset(analyte, measurements, colorIndex)\<close>, called by \<open>updateChart\<close> with
  \<open>this.data\<close> not null: it returns the dataset and \<open>this.analyteColors\<close>. A colour is
  assigned when \<open>!this.analyteColors[analyte]\<close>, and \<open>color\<close> is the colour stored after
  that; points without a date are dropped.
\<close>

definition createDataset ::
  "app_data \<Rightarrow> string obj \<Rightarrow> string \<Rightarrow> measurement list \<Rightarrow> nat \<Rightarrow> dataset \<times> string obj" where
  "createDataset data analyteColors analyte ms colorIndex =
     (let assigned = colorPalette ! (colorIndex mod length colorPalette);
          (color, analyteColors) =
            (case map_of analyteColors analyte of
               None \<Rightarrow> (assigned, AList.update analyte assigned analyteColors)
             | Some c \<Rightarrow>
                 if c = [] then (assigned, AList.update analyte assigned analyteColors)
                 else (c, analyteColors));
          acceptableRange = map_of (analyteRanges data) analyte;
          unit = (case acceptableRange of None \<Rightarrow> Some [] | Some r \<Rightarrow> range_unit r);
          chartData = concat (map (\<lambda>m. case m_date m of
                                          None \<Rightarrow> []
                                        | Some d \<Rightarrow> [\<lparr>point_x = d, point_y = m_value m\<rparr>]) ms)
      in (\<lparr>ds_label = analyte, ds_data = chartData, ds_color = color, ds_unit = unit,
           ds_acceptableRange = acceptableRange\<rparr>, analyteColors))"

text \<open>\<open>this.data.analyteRanges?.[analyte]?.unit\<close>, and whether a unit is truthy.\<close>

definition unit_of :: "analyte_range obj \<Rightarrow> string \<Rightarrow> string option" where
  "unit_of ranges analyte =
     (case map_of ranges analyte of None \<Rightarrow> None | Some r \<Rightarrow> range_unit r)"

definition truthy_unit :: "string option \<Rightarrow> bool" where
  "truthy_unit u = (case u of None \<Rightarrow> False | Some v \<Rightarrow> v \<noteq> [])"

text \<open>
  \<open>updateYAxisTitle\<close>: the text it stores as the title of the y axis, from
  \<open>this.data.analyteRanges\<close> and \<open>this.visibleAnalytes\<close>.
\<close>

definition updateYAxisTitle :: "analyte_range obj \<Rightarrow> string list \<Rightarrow> string" where
  "updateYAxisTitle ranges visibleAnalytes =
     (if length visibleAnalytes = 1 then
        (let analyte = hd visibleAnalytes;
             unit = unit_of ranges analyte
         in analyte @ (case unit of
                         None \<Rightarrow> []
                       | Some u \<Rightarrow> if u = [] then [] else '' ('' @ u @ '')''))
      else if length visibleAnalytes > 1 then
        (let units = filter truthy_unit (map (unit_of ranges) visibleAnalytes);
             uniqueUnits = new_Set units
         in case uniqueUnits of
              [Some u] \<Rightarrow> ''Value ('' @ u @ '')''
            | _ \<Rightarrow> ''Value'')
      else ''Value'')"

text \<open>
  The body of \<open>this.visibleAnalytes.forEach\<close> in \<open>updateChart\<close>, on the datasets pushed
  so far, \<open>colorIndex\<close> and \<open>this.analyteColors\<close>.
\<close>

definition draw_analyte ::
  "app_data \<Rightarrow> measurement list obj \<Rightarrow> string \<Rightarrow> dataset list \<times> nat \<times> string obj
     \<Rightarrow> dataset list \<times> nat \<times> string obj" where
  "draw_analyte data stationData analyte acc =
     (case acc of (datasets, colorIndex, colors) \<Rightarrow>
        (case map_of stationData analyte of
           None \<Rightarrow> acc
         | Some ms \<Rightarrow>
             if length ms > 0 then
               (case createDataset data colors analyte ms colorIndex of
                  (d, colors') \<Rightarrow> (datasets @ [d], colorIndex + 1, colors'))
             else acc))"

text \<open>
  \<open>updateChart\<close>. Reading \<open>this.data.measurements\<close> of a null \<open>data\<close> throws, and so does
  the first iteration of the loop when the station has no measurements object; the
  datasets of the chart have been emptied by then.
\<close>

definition updateChart :: "chart_manager \<Rightarrow> chart_manager outcome" where
  "updateChart s =
     (if \<not> cm_chart s then Returned s
      else
        (case cm_currentStation s of
           None \<Rightarrow> Returned s
         | Some currentStation \<Rightarrow>
             if currentStation = [] then Returned s
             else
               (case cm_data s of
                  None \<Rightarrow> Threw TypeError s
                | Some data \<Rightarrow>
                    let stationData = map_of (measurements data) currentStation;
                        stationInfo = map_of (stations data) currentStation;
                        ch = (cm_config s)\<lparr>chart_datasets := []\<rparr>
                    in if stationData = None \<and> cm_visibleAnalytes s \<noteq> []
                       then Threw TypeError (s\<lparr>cm_config := ch\<rparr>)
                       else
                         (case fold (draw_analyte data
                                       (case stationData of None \<Rightarrow> [] | Some sd \<Rightarrow> sd))
                                 (cm_visibleAnalytes s) ([], 0, cm_analyteColors s) of
                            (datasets, colorIndex, colors) \<Rightarrow>
                              let stationName =
                                    (case stationInfo of
                                       None \<Rightarrow> currentStation
                                     | Some info \<Rightarrow>
                                         (case st_name info of
                                            None \<Rightarrow> ''undefined''
                                          | Some n \<Rightarrow> n));
                                  ch = ch\<lparr>chart_datasets := datasets,
                                          chart_title :=
                                            ''Water Quality Time Series - '' @ stationName,
                                          chart_y_title :=
                                            updateYAxisTitle (analyteRanges data)
                                              (cm_visibleAnalytes s)\<rparr>
                              in Returned
                                   (s\<lparr>cm_config := fitAxesToData ch,
                                      cm_analyteColors := colors\<rparr>)))))"

definition clearChart :: "chart_manager \<Rightarrow> chart_manager" where
  "clearChart s =
     (let s = (if cm_chart s
               then s\<lparr>cm_config := (cm_config s)\<lparr>chart_datasets := [],
                                       chart_title := ''Water Quality Time Series'',
                                       chart_y_title := ''Value''\<rparr>\<rparr>
               else s)
      in s\<lparr>cm_currentStation := None, cm_visibleAnalytes := []\<rparr>)"

definition showStation :: "string \<Rightarrow> string list \<Rightarrow> chart_manager \<Rightarrow> chart_manager outcome" where
  "showStation stationCode visibleAnalytes s =
     (let s = s\<lparr>cm_currentStation := Some stationCode,
                cm_visibleAnalytes := new_Set visibleAnalytes\<rparr>
      in if \<not> cm_chart s then Returned s
         else if (case cm_data s of
                    None \<Rightarrow> True
                  | Some data \<Rightarrow> map_of (measurements data) stationCode = None)
         then Returned (clearChart s)
         else updateChart s)"

definition toggleAnalyte :: "string \<Rightarrow> bool \<Rightarrow> chart_manager \<Rightarrow> chart_manager outcome" where
  "toggleAnalyte analyte visible s =
     updateChart
       (s\<lparr>cm_visibleAnalytes :=
            (if visible then set_add analyte (cm_visibleAnalytes s)
             else removeAll analyte (cm_visibleAnalytes s))\<rparr>)"

definition setVisibleAnalytes :: "string list \<Rightarrow> chart_manager \<Rightarrow> chart_manager outcome" where
  "setVisibleAnalytes analytes s = updateChart (s\<lparr>cm_visibleAnalytes := new_Set analytes\<rparr>)"

definition destroy :: "chart_manager \<Rightarrow> chart_manager" where
  "destroy s = s\<lparr>cm_chart := False, cm_currentStation := None, cm_visibleAnalytes := []\<rparr>"

text \<open>A session of the chart manager: the calls made on it, in order.\<close>

datatype chart_call =
    InitChart app_data bool
  | ShowStation string "string list"
  | ToggleAnalyte string bool
  | SetVisibleAnalytes "string list"
  | ClearChart
  | Destroy

fun do_call :: "chart_call \<Rightarrow> chart_manager \<Rightarrow> chart_manager" where
  "do_call (InitChart data canvas) s = initChart data canvas s"
| "do_call (ShowStation stationCode visibleAnalytes) s =
     state_of (showStation stationCode visibleAnalytes s)"
| "do_call (ToggleAnalyte analyte visible) s = state_of (toggleAnalyte analyte visible s)"
| "do_call (SetVisibleAnalytes analytes) s = state_of (setVisibleAnalytes analytes s)"
| "do_call ClearChart s = clearChart s"
| "do_call Destroy s = destroy s"

definition chart_session :: "chart_call list \<Rightarrow> chart_manager \<Rightarrow> chart_manager" where
  "chart_session calls s = fold do_call calls s"

text \<open>
  What holds of \<open>this.analyteColors\<close> in every state of a session: every stored colour
  is one of the palette.
\<close>

definition colors_ok :: "string obj \<Rightarrow> bool" where
  "colors_ok colors = (\<forall>a c. map_of colors a = Some c \<longrightarrow> c \<in> set colorPalette)"

text \<open>
  And of the manager: the visible analytes are a set, the colours are of the palette,
  and every dataset of the configuration has the colour stored for its analyte.
\<close>

definition cm_inv :: "chart_manager \<Rightarrow> bool" where
  "cm_inv s =
     (distinct (cm_visibleAnalytes s) \<and> colors_ok (cm_analyteColors s)
      \<and> (\<forall>d. d \<in> set (chart_datasets (cm_config s)) \<longrightarrow>
            map_of (cm_analyteColors s) (ds_label d) = Some (ds_color d)))"

text \<open>
  The colours in first-seen order, as the specification words the assignment: the
  \<open>i\<close>-th analyte that received a colour has the \<open>i\<close>-th colour of the palette
  (\<open>analyteColors\<close> lists the analytes in the order of their first assignment).
\<close>

definition first_seen_order :: "string obj \<Rightarrow> bool" where
  "first_seen_order colors =
     (map snd colors = map (\<lambda>i. colorPalette ! (i mod length colorPalette)) [0..<length colors])"

text \<open>Loaded data with one station that has measurements of two analytes.\<close>

definition one_station :: app_data where
  "one_station =
     \<lparr>stations =
        [(''SRA100'', \<lparr>st_code = None, st_name = Some ''Upper Creek'',
                       st_longitude = - 122, st_latitude = 38,
                       st_analytes = [''pH'', ''Temperature''], st_measurement_count = 3\<rparr>)],
      measurements =
        [(''SRA100'',
          [(''pH'', [\<lparr>m_date = Some 1, m_value = 7, m_source = None\<rparr>,
                    \<lparr>m_date = Some 8, m_value = 9, m_source = None\<rparr>]),
           (''Temperature'', [\<lparr>m_date = Some 1, m_value = 15, m_source = None\<rparr>])])],
      latestValues =
        [(''SRA100'',
          [(''pH'', \<lparr>lv_value = 9, lv_date = Some 8, lv_status = ''outside_range'',
                     lv_unit = None\<rparr>),
           (''Temperature'', \<lparr>lv_value = 15, lv_date = Some 1, lv_status = ''acceptable'',
                              lv_unit = Some ''C''\<rparr>)])],
      analyteRanges =
        [(''pH'', ph_range),
         (''Temperature'', \<lparr>range_min = None, range_max = Some 24, range_unit = Some ''C''\<rparr>)]\<rparr>"

section \<open>DataLoader: cache and in-flight requests (js/data-loader.js)\<close>

text \<open>A parsed JSON body, and the truthiness JavaScript gives it.\<close>

datatype json =
  JNull | JBool bool | JNum rat | JStr string | JArr "json list" | JObj "(string \<times> json) list"

fun truthy :: "json \<Rightarrow> bool" where
  "truthy JNull = False"
| "truthy (JBool b) = b"
| "truthy (JNum n) = (n \<noteq> 0)"
| "truthy (JStr s) = (s \<noteq> [])"
| "truthy (JArr xs) = True"
| "truthy (JObj kvs) = True"

text \<open>
  A network request issued by \<open>fetch(url)\<close>, with the cache key its callbacks close
  over. The promise that \<open>loadJSON\<close> stores in \<open>this.loading\<close> is named by the position
  of its request in \<open>fetches\<close>; \<open>settled\<close> lists the requests whose callbacks have run.
\<close>

record request =
  req_url :: string
  req_key :: string

record loader =
  cache :: "json obj"
  loading :: "nat obj"
  fetches :: "request list"
  settled :: "nat list"

definition new_DataLoader :: loader where
  "new_DataLoader =
     \<lparr>cache = [(''stations'', JNull), (''measurements'', JNull),
               (''latestValues'', JNull), (''analyteRanges'', JNull)],
      loading = [], fetches = [], settled = []\<rparr>"

text \<open>
  What the caller of the \<open>async\<close> function gets: a promise resolved with the cached
  value, or one that follows the stored promise of a request.
\<close>

datatype returned = Value json | Promise nat

definition loadJSON :: "string \<Rightarrow> string \<Rightarrow> loader \<Rightarrow> returned \<times> loader" where
  "loadJSON url cacheKey s =
     (case (case map_of (cache s) cacheKey of
              None \<Rightarrow> None
            | Some v \<Rightarrow> if truthy v then Some v else None) of
        Some v \<Rightarrow> (Value v, s)
      | None \<Rightarrow>
          (case map_of (loading s) cacheKey of
             Some p \<Rightarrow> (Promise p, s)
           | None \<Rightarrow>
               let p = length (fetches s)
               in (Promise p,
                   s\<lparr>loading := AList.update cacheKey p (loading s),
                     fetches := fetches s @ [\<lparr>req_url = url, req_key = cacheKey\<rparr>]\<rparr>)))"

definition pending :: "loader \<Rightarrow> nat \<Rightarrow> bool" where
  "pending s p = (p < length (fetches s) \<and> p \<notin> set (settled s))"

text \<open>
  The callbacks of the promise chain of request \<open>p\<close>: the second \<open>then\<close> when the
  response is ok and its body parses to \<open>data\<close>, the \<open>catch\<close> otherwise.
\<close>

definition fetch_fulfilled :: "nat \<Rightarrow> json \<Rightarrow> loader \<Rightarrow> loader" where
  "fetch_fulfilled p data s =
     (let cacheKey = req_key (fetches s ! p)
      in s\<lparr>cache := AList.update cacheKey data (cache s),
           loading := AList.delete cacheKey (loading s),
           settled := p # settled s\<rparr>)"

definition fetch_rejected :: "nat \<Rightarrow> loader \<Rightarrow> loader" where
  "fetch_rejected p s =
     (let cacheKey = req_key (fetches s ! p)
      in s\<lparr>loading := AList.delete cacheKey (loading s), settled := p # settled s\<rparr>)"

definition clearCache :: "loader \<Rightarrow> loader" where
  "clearCache s =
     s\<lparr>cache := [(''stations'', JNull), (''measurements'', JNull),
                  (''latestValues'', JNull), (''analyteRanges'', JNull)]\<rparr>"

text \<open>
  A session of the loader: calls of \<open>loadJSON\<close> and completions of requests that are
  pending (the application never calls \<open>clearCache\<close>). An event that cannot happen
  gives \<open>None\<close>.
\<close>

datatype event = Call string string | Fulfil nat json | Reject nat

fun step :: "loader \<Rightarrow> event \<Rightarrow> loader option" where
  "step s (Call url cacheKey) = Some (snd (loadJSON url cacheKey s))"
| "step s (Fulfil p data) = (if pending s p then Some (fetch_fulfilled p data s) else None)"
| "step s (Reject p) = (if pending s p then Some (fetch_rejected p s) else None)"

fun run :: "loader \<Rightarrow> event list \<Rightarrow> loader option" where
  "run s [] = Some s"
| "run s (e # es) = (case step s e of None \<Rightarrow> None | Some s' \<Rightarrow> run s' es)"

text \<open>The cached value of a key counts as a hit.\<close>

definition cache_hit :: "loader \<Rightarrow> string \<Rightarrow> bool" where
  "cache_hit s k = (case map_of (cache s) k of None \<Rightarrow> False | Some v \<Rightarrow> truthy v)"

text \<open>
  What holds in every state of a session: a stored promise belongs to a pending request
  of that key whose cache entry is no hit, every pending request is stored, and only
  issued requests are settled.
\<close>

definition loader_inv :: "loader \<Rightarrow> bool" where
  "loader_inv s =
     ((\<forall>k p. map_of (loading s) k = Some p \<longrightarrow>
          pending s p \<and> req_key (fetches s ! p) = k \<and> \<not> cache_hit s k)
      \<and> (\<forall>p. pending s p \<longrightarrow> map_of (loading s) (req_key (fetches s ! p)) = Some p)
      \<and> (\<forall>p. p \<in> set (settled s) \<longrightarrow> p < length (fetches s)))"

text \<open>
  \<open>n\<close> loads of one resource, one after the other: each call is followed by the
  fulfilment of request \<open>m\<close>, \<open>m + 1\<close>, \<dots> with the body \<open>d\<close>.
\<close>

fun reloads :: "string \<Rightarrow> string \<Rightarrow> json \<Rightarrow> nat \<Rightarrow> nat \<Rightarrow> event list" where
  "reloads url k d m 0 = []"
| "reloads url k d m (Suc n) = Call url k # Fulfil m d # reloads url k d (Suc m) n"

text \<open>The loader after \<open>loadStations()\<close> has been called once, and after its request was
  fulfilled with an empty object.\<close>

definition stations_request :: request where
  "stations_request = \<lparr>req_url = ''data/stations.json'', req_key = ''stations''\<rparr>"

definition loader_waiting :: loader where
  "loader_waiting =
     \<lparr>cache = [(''stations'', JNull), (''measurements'', JNull),
               (''latestValues'', JNull), (''analyteRanges'', JNull)],
      loading = [(''stations'', 0)], fetches = [stations_request], settled = []\<rparr>"

definition loader_loaded :: "json \<Rightarrow> loader" where
  "loader_loaded d =
     \<lparr>cache = [(''stations'', d), (''measurements'', JNull),
               (''latestValues'', JNull), (''analyteRanges'', JNull)],
      loading = [], fetches = [stations_request], settled = [0]\<rparr>"

section \<open>DataLoader: loadAllData\<close>

text \<open>
  A settled promise: rejected at some time with a reason, or fulfilled with a value.
  \<open>promise_all\<close> is \<open>Promise.all\<close> of two promises: it rejects with the reason of the
  promise that rejects first and is fulfilled with both values otherwise; \<open>Promise.all\<close>
  of an array is the nesting of it.
\<close>

type_synonym 'a promise = "(nat \<times> error) + 'a"

definition promise_all :: "'a promise \<Rightarrow> 'b promise \<Rightarrow> ('a \<times> 'b) promise" where
  "promise_all a b =
     (case a of
        Inl (t, e) \<Rightarrow>
          (case b of
             Inl (t', e') \<Rightarrow> if t' < t then Inl (t', e') else Inl (t, e)
           | Inr y \<Rightarrow> Inl (t, e))
      | Inr x \<Rightarrow>
          (case b of
             Inl (t', e') \<Rightarrow> Inl (t', e')
           | Inr y \<Rightarrow> Inr (x, y)))"

text \<open>The reason of a rejected promise.\<close>

definition reason :: "'a promise \<Rightarrow> error option" where
  "reason a = (case a of Inl (t, e) \<Rightarrow> Some e | Inr x \<Rightarrow> None)"

text \<open>
  \<open>loadAllData\<close> of \<open>src/js/data-loader.js\<close>, given the promises that \<open>loadStations()\<close>,
  \<open>loadMeasurements()\<close>, \<open>loadLatestValues()\<close> and \<open>loadAnalyteRanges()\<close> return: it awaits
  \<open>Promise.all\<close> of the four and rethrows what it catches.
\<close>

definition loadAllData ::
  "station obj promise \<Rightarrow> measurement list obj obj promise \<Rightarrow> latest_value obj obj promise
     \<Rightarrow> analyte_range obj promise \<Rightarrow> error + app_data" where
  "loadAllData p_stations p_measurements p_latestValues p_analyteRanges =
     (case promise_all p_stations
             (promise_all p_measurements (promise_all p_latestValues p_analyteRanges)) of
        Inl (t, e) \<Rightarrow> Inl e
      | Inr (sts, mss, lvss, ranges) \<Rightarrow>
          Inr \<lparr>stations = sts, measurements = mss, latestValues = lvss,
               analyteRanges = ranges\<rparr>)"

text \<open>
  \<open>loadAllData\<close> of the second copy of the loader: it awaits the analyte ranges first,
  then \<open>Promise.all\<close> of the other three inside a \<open>try\<close> of its own, whose \<open>catch\<close>
  calls \<open>generateDemoData(analyteRanges)\<close>; the outer \<open>catch\<close> rethrows.
\<close>

definition loadAllData_fallback ::
  "(string \<Rightarrow> string \<Rightarrow> int \<Rightarrow> sample) \<Rightarrow> int
     \<Rightarrow> station obj promise \<Rightarrow> measurement list obj obj promise \<Rightarrow> latest_value obj obj promise
     \<Rightarrow> analyte_range obj promise \<Rightarrow> error + app_data" where
  "loadAllData_fallback env now p_stations p_measurements p_latestValues p_analyteRanges =
     (case p_analyteRanges of
        Inl (t, e) \<Rightarrow> Inl e
      | Inr ranges \<Rightarrow>
          (case (case promise_all p_stations (promise_all p_measurements p_latestValues) of
                   Inl (t, e) \<Rightarrow> generateDemoData env now ranges
                 | Inr loaded \<Rightarrow> Inr loaded) of
             Inl e \<Rightarrow> Inl e
           | Inr (sts, mss, lvss) \<Rightarrow>
               Inr \<lparr>stations = sts, measurements = mss, latestValues = lvss,
                    analyteRanges = ranges\<rparr>))"

text \<open>A response with a status that is not ok, as the first \<open>then\<close> of \<open>loadJSON\<close> throws it.\<close>

definition not_found :: error where
  "not_found = FetchError ''HTTP error! status: 404''"

section \<open>MapManager (the map module)\<close>

text \<open>
  The popup that \<open>createPopupContent\<close> renders, as the data its template interpolates:
  the heading (\<open>station.name || stationCode\<close>), the code, the position, and the part
  that depends on the analyte.
\<close>

datatype popup_body =
    Measurement (pb_analyte: string) (pb_value: rat) (pb_unit: string)
      (pb_statusClass: string) (pb_statusText: string) (pb_date: "int option")
  | NoData string
  | Plain

record popup =
  pp_heading :: string
  pp_code :: string
  pp_lat :: rat
  pp_lng :: rat
  pp_body :: popup_body

text \<open>
  A Leaflet circle marker: its position, radius and fill colour, the popup bound to
  it, and the station its click handler shows.
\<close>

record marker =
  mk_lat :: rat
  mk_lng :: rat
  mk_radius :: rat
  mk_fillColor :: string
  mk_popup :: "popup option"
  mk_click :: "string option"

text \<open>
  The view of the map: the centre it was created with, or the bounds of the markers
  that \<open>fitBounds\<close> was given (south, west, north, east).
\<close>

datatype viewport = Center rat rat | FitBounds rat rat rat rat

text \<open>
  Markers are objects shared between the map and \<open>this.markers\<close>: they live in a store,
  a marker's identity is its position in the store. The map holds the identities of
  the layers added to it, its view and its zoom level.
\<close>

record leaflet_map =
  lm_layers :: "nat list"
  lm_view :: viewport
  lm_zoom :: nat

record map_manager =
  mm_map :: "leaflet_map option"
  mm_markers :: "nat obj"
  mm_currentAnalyte :: "string option"
  mm_data :: "app_data option"
  mm_store :: "marker list"

definition markerColors :: "string obj" where
  "markerColors =
     [(''acceptable'', ''#28a745''), (''outside_range'', ''#dc3545''),
      (''no_range'', ''#007bff''), (''no_data'', ''#6c757d'')]"

definition new_MapManager :: map_manager where
  "new_MapManager =
     \<lparr>mm_map = None, mm_markers = [], mm_currentAnalyte = None, mm_data = None,
      mm_store = []\<rparr>"

text \<open>
  \<open>initMap\<close>: the map is created with the centre and zoom of \<open>this.config\<close>.
  \<open>setupMapEvents\<close> registers two handlers on it: a click on the map closes the sidebar,
  and \<open>zoomend\<close> runs \<open>updateMarkerSizes\<close> (see \<open>fitToMarkers\<close>).
\<close>

definition initMap :: "map_manager \<Rightarrow> map_manager" where
  "initMap s =
     s\<lparr>mm_map := Some \<lparr>lm_layers = [], lm_view = Center (3782 / 100) (- 12199 / 100),
                       lm_zoom = 13\<rparr>\<rparr>"

definition setData :: "app_data \<Rightarrow> map_manager \<Rightarrow> map_manager" where
  "setData data s = s\<lparr>mm_data := Some data\<rparr>"

text \<open>\<open>this.markerColors[status] || this.markerColors.no_data\<close>\<close>

definition no_data_color :: string where
  "no_data_color = (case map_of markerColors ''no_data'' of None \<Rightarrow> [] | Some c \<Rightarrow> c)"

definition marker_color :: "string \<Rightarrow> string" where
  "marker_color status =
     (case map_of markerColors status of
        None \<Rightarrow> no_data_color
      | Some c \<Rightarrow> if c = [] then no_data_color else c)"

definition createStationMarker :: "rat \<Rightarrow> rat \<Rightarrow> string \<Rightarrow> marker" where
  "createStationMarker lat lng status =
     \<lparr>mk_lat = lat, mk_lng = lng, mk_radius = 8, mk_fillColor = marker_color status,
      mk_popup = None, mk_click = None\<rparr>"

text \<open>Whether an analyte argument is truthy: neither \<open>null\<close> nor the empty string.\<close>

definition selected :: "string option \<Rightarrow> string option" where
  "selected analyte = (case analyte of None \<Rightarrow> None | Some a \<Rightarrow> if a = [] then None else Some a)"

text \<open>
  \<open>this.data.latestValues[stationCode]\<close> and then \<open>[analyte]\<close>, when the analyte is
  truthy and both exist.
\<close>

definition latest_for :: "app_data \<Rightarrow> string \<Rightarrow> string option \<Rightarrow> latest_value option" where
  "latest_for data stationCode analyte =
     (case selected analyte of
        None \<Rightarrow> None
      | Some a \<Rightarrow>
          (case map_of (latestValues data) stationCode of
             None \<Rightarrow> None
           | Some lvs \<Rightarrow> map_of lvs a))"

definition createPopupContent ::
  "string \<Rightarrow> station \<Rightarrow> string option \<Rightarrow> latest_value option \<Rightarrow> popup" where
  "createPopupContent stationCode station analyte latestValue =
     \<lparr>pp_heading = (case st_name station of
                      None \<Rightarrow> stationCode
                    | Some n \<Rightarrow> if n = [] then stationCode else n),
      pp_code = stationCode, pp_lat = st_latitude station, pp_lng = st_longitude station,
      pp_body =
        (case selected analyte of
           None \<Rightarrow> Plain
         | Some a \<Rightarrow>
             (case latestValue of
                None \<Rightarrow> NoData a
              | Some lv \<Rightarrow>
                  let statusText =
                        (case map_of [(''acceptable'', ''Within Range''),
                                      (''outside_range'', ''Outside Range''),
                                      (''no_range'', ''No Range Defined'')] (lv_status lv) of
                           None \<Rightarrow> ''No Data''
                         | Some t \<Rightarrow> t);
                      statusClass = (if lv_status lv = [] then ''no_data'' else lv_status lv);
                      unit = (case lv_unit lv of
                                None \<Rightarrow> []
                              | Some u \<Rightarrow> if u = [] then [] else '' '' @ u)
                  in Measurement a (lv_value lv) unit statusClass statusText (lv_date lv)))\<rparr>"

text \<open>
  The lookup with which \<open>addStationMarker\<close> and \<open>updateMarkerColors\<close> start:
  \<open>analyte && this.data.latestValues[stationCode] && \<dots>[analyte]\<close>. It reads
  \<open>this.data\<close> only when the analyte is truthy, and throws when the data is null then.
\<close>

definition latest_lookup ::
  "app_data option \<Rightarrow> string \<Rightarrow> string option \<Rightarrow> error + latest_value option" where
  "latest_lookup data stationCode analyte =
     (case selected analyte of
        None \<Rightarrow> Inr None
      | Some a \<Rightarrow>
          (case data of
             None \<Rightarrow> Inl TypeError
           | Some d \<Rightarrow> Inr (latest_for d stationCode analyte)))"

text \<open>
  The marker that \<open>addStationMarker\<close> builds before it adds it to the map: created
  with the colour of the status, with its popup bound and its click handler set.
\<close>

definition station_marker ::
  "string \<Rightarrow> station \<Rightarrow> string option \<Rightarrow> latest_value option \<Rightarrow> marker" where
  "station_marker stationCode station analyte latestValue =
     (let status = (case latestValue of None \<Rightarrow> ''no_data'' | Some lv \<Rightarrow> lv_status lv);
          marker = createStationMarker (st_latitude station) (st_longitude station) status;
          popupContent = createPopupContent stationCode station analyte latestValue
      in marker\<lparr>mk_popup := Some popupContent, mk_click := Some stationCode\<rparr>)"

text \<open>
  \<open>addStationMarker\<close>: the marker is added to the map (which throws when there is no
  map) and stored under the code of the station.
\<close>

definition addStationMarker ::
  "string \<Rightarrow> station \<Rightarrow> string option \<Rightarrow> map_manager \<Rightarrow> map_manager outcome" where
  "addStationMarker stationCode station analyte s =
     (case latest_lookup (mm_data s) stationCode analyte of
        Inl e \<Rightarrow> Threw e s
      | Inr latestValue \<Rightarrow>
          (case mm_map s of
             None \<Rightarrow> Threw TypeError s
           | Some m \<Rightarrow>
               let marker = station_marker stationCode station analyte latestValue;
                   ident = length (mm_store s)
               in Returned
                    (s\<lparr>mm_store := mm_store s @ [marker],
                       mm_map := Some (m\<lparr>lm_layers := lm_layers m @ [ident]\<rparr>),
                       mm_markers := AList.update stationCode ident (mm_markers s)\<rparr>)))"

text \<open>A loop whose body may throw: the state at the exception is kept.\<close>

fun forEach_out :: "('a \<Rightarrow> 's \<Rightarrow> 's outcome) \<Rightarrow> 'a list \<Rightarrow> 's \<Rightarrow> 's outcome" where
  "forEach_out f [] s = Returned s"
| "forEach_out f (x # xs) s =
     (case f x s of Threw e s' \<Rightarrow> Threw e s' | Returned s' \<Rightarrow> forEach_out f xs s')"

text \<open>
  \<open>clearMarkers\<close>: every stored marker is removed from the map, then \<open>this.markers\<close> is
  a new empty object. Without a map the first removal throws.
\<close>

definition clearMarkers :: "map_manager \<Rightarrow> map_manager outcome" where
  "clearMarkers s =
     (case forEach_out
             (\<lambda>ident s. case mm_map s of
                            None \<Rightarrow> Threw TypeError s
                          | Some m \<Rightarrow>
                              Returned (s\<lparr>mm_map := Some (m\<lparr>lm_layers :=
                                                            removeAll ident (lm_layers m)\<rparr>)\<rparr>))
             (map snd (mm_markers s)) s of
        Threw e s' \<Rightarrow> Threw e s'
      | Returned s' \<Rightarrow> Returned (s'\<lparr>mm_markers := []\<rparr>))"

text \<open>
  \<open>updateMarkerSizes\<close>, the handler of \<open>zoomend\<close>: every stored marker gets the radius
  \<open>8 * Math.max(0.5, Math.min(1.5, zoom / 13))\<close>.
\<close>

definition updateMarkerSizes :: "map_manager \<Rightarrow> map_manager outcome" where
  "updateMarkerSizes s =
     (case mm_map s of
        None \<Rightarrow> Threw TypeError s
      | Some m \<Rightarrow>
          let zoom = lm_zoom m;
              baseRadius = 8;
              scaleFactor = max (1 / 2) (min (3 / 2) (of_nat zoom / 13));
              newRadius = baseRadius * scaleFactor
          in Returned
               (s\<lparr>mm_store :=
                    fold (\<lambda>ident store. store[ident := (store ! ident)\<lparr>mk_radius := newRadius\<rparr>])
                      (map snd (mm_markers s)) (mm_store s)\<rparr>))"

text \<open>
  \<open>fitToMarkers\<close>: with at least one marker, the map is fitted to the bounds of the
  marker positions, without animation. \<open>boundsZoom\<close> is the zoom level at which the map
  container shows these bounds with the padding (it depends on the size of the
  container on the page); \<open>fitBounds\<close> takes it, up to its option \<open>maxZoom: 15\<close>. When
  the zoom level changes by that, the map fires \<open>zoomend\<close> before \<open>fitBounds\<close> returns.
\<close>

definition fitToMarkers :: "nat \<Rightarrow> map_manager \<Rightarrow> map_manager outcome" where
  "fitToMarkers boundsZoom s =
     (case map (\<lambda>ident. (mk_lat (mm_store s ! ident), mk_lng (mm_store s ! ident)))
             (map snd (mm_markers s)) of
        [] \<Rightarrow> Returned s
      | p # ps \<Rightarrow>
          (case mm_map s of
             None \<Rightarrow> Threw TypeError s
           | Some m \<Rightarrow>
               let zoom = min boundsZoom 15;
                   s' = s\<lparr>mm_map := Some (m\<lparr>lm_view :=
                          FitBounds (math_min (fst p) (map fst ps)) (math_min (snd p) (map snd ps))
                                    (math_max (fst p) (map fst ps)) (math_max (snd p) (map snd ps)),
                          lm_zoom := zoom\<rparr>)\<rparr>
               in if zoom \<noteq> lm_zoom m then updateMarkerSizes s' else Returned s'))"

text \<open>\<open>addStationMarkers(analyte)\<close>, with the \<open>boundsZoom\<close> of \<open>fitToMarkers\<close>.\<close>

definition addStationMarkers ::
  "nat \<Rightarrow> string option \<Rightarrow> map_manager \<Rightarrow> map_manager outcome" where
  "addStationMarkers boundsZoom analyte s =
     (let s = s\<lparr>mm_currentAnalyte := analyte\<rparr>
      in case mm_data s of
           None \<Rightarrow> Returned s
         | Some data \<Rightarrow>
             (case clearMarkers s of
                Threw e s' \<Rightarrow> Threw e s'
              | Returned s' \<Rightarrow>
                  (case forEach_out (\<lambda>(stationCode, station). addStationMarker stationCode station analyte)
                          (stations data) s' of
                     Threw e s'' \<Rightarrow> Threw e s''
                   | Returned s'' \<Rightarrow> fitToMarkers boundsZoom s'')))"

text \<open>
  The body of the loop of \<open>updateMarkerColors\<close> for one entry of \<open>this.markers\<close>:
  \<open>setStyle\<close> writes the fill colour, \<open>setPopupContent\<close> the popup. Reading
  \<open>this.data\<close> when it is null throws (before the colour is written when the analyte is
  truthy, after it otherwise), and so does \<open>createPopupContent\<close> for a station that the
  data does not hold.
\<close>

definition recolor :: "string option \<Rightarrow> string \<times> nat \<Rightarrow> map_manager \<Rightarrow> map_manager outcome" where
  "recolor analyte entry s =
     (case entry of (stationCode, ident) \<Rightarrow>
        (case mm_data s of
           None \<Rightarrow>
             if selected analyte \<noteq> None then Threw TypeError s
             else Threw TypeError
                    (s\<lparr>mm_store := (mm_store s)
                          [ident := (mm_store s ! ident)\<lparr>mk_fillColor := marker_color ''no_data''\<rparr>]\<rparr>)
         | Some data \<Rightarrow>
             let latestValue = latest_for data stationCode analyte;
                 status = (case latestValue of None \<Rightarrow> ''no_data'' | Some lv \<Rightarrow> lv_status lv);
                 s = s\<lparr>mm_store := (mm_store s)
                        [ident := (mm_store s ! ident)\<lparr>mk_fillColor := marker_color status\<rparr>]\<rparr>
             in case map_of (stations data) stationCode of
                  None \<Rightarrow> Threw TypeError s
                | Some station \<Rightarrow>
                    Returned
                      (s\<lparr>mm_store := (mm_store s)
                           [ident := (mm_store s ! ident)
                              \<lparr>mk_popup := Some (createPopupContent stationCode station analyte
                                                   latestValue)\<rparr>]\<rparr>)))"

definition updateMarkerColors :: "string option \<Rightarrow> map_manager \<Rightarrow> map_manager outcome" where
  "updateMarkerColors analyte s =
     forEach_out (recolor analyte) (mm_markers s) (s\<lparr>mm_currentAnalyte := analyte\<rparr>)"

text \<open>The colour of a status as the specification lists it.\<close>

definition status_color :: "string \<Rightarrow> string" where
  "status_color status =
     (if status = ''acceptable'' then ''#28a745''
      else if status = ''outside_range'' then ''#dc3545''
      else if status = ''no_range'' then ''#007bff''
      else ''#6c757d'')"

text \<open>A marker with its fill colour and popup blanked: what a recolouring must keep.\<close>

definition blank :: "marker \<Rightarrow> marker" where
  "blank mk = mk\<lparr>mk_fillColor := [], mk_popup := None\<rparr>"

text \<open>
  The map manager after \<open>initMap()\<close> and \<open>setData\<close> with the one-station data, and after
  the first \<open>addStationMarkers()\<close> without an analyte, on a page that shows the one
  position at the greatest zoom level of the map, 18.
\<close>

definition map_ready :: map_manager where
  "map_ready = setData one_station (initMap new_MapManager)"

definition map_drawn :: map_manager where
  "map_drawn = state_of (addStationMarkers 18 None map_ready)"

text \<open>
  Loaded data with four stations: the latest pH is within its range at SRA100 (7.0) and
  outside at SRA120 (9.0), SRA141 has a latest value for Temperature only, SRA160 has
  no latest values at all, and the latest turbidity at SRA100 has no range to be
  compared with. And the map manager after \<open>initMap()\<close> and \<open>setData\<close> with them.
\<close>

definition four_stations :: app_data where
  "four_stations =
     \<lparr>stations =
        [(''SRA100'', \<lparr>st_code = None, st_name = Some ''Upper Creek'',
                       st_longitude = - 122, st_latitude = 38,
                       st_analytes = [''pH'', ''Turbidity''], st_measurement_count = 2\<rparr>),
         (''SRA120'', \<lparr>st_code = None, st_name = Some ''Mill Bridge'',
                       st_longitude = - 123, st_latitude = 37,
                       st_analytes = [''pH''], st_measurement_count = 1\<rparr>),
         (''SRA141'', \<lparr>st_code = None, st_name = None,
                       st_longitude = - 121, st_latitude = 39,
                       st_analytes = [''Temperature''], st_measurement_count = 1\<rparr>),
         (''SRA160'', \<lparr>st_code = None, st_name = None,
                       st_longitude = - 120, st_latitude = 36,
                       st_analytes = [], st_measurement_count = 0\<rparr>)],
      measurements = [],
      latestValues =
        [(''SRA100'',
          [(''pH'', \<lparr>lv_value = 7, lv_date = Some 8, lv_status = ''acceptable'',
                     lv_unit = None\<rparr>),
           (''Turbidity'', \<lparr>lv_value = 8, lv_date = Some 8, lv_status = ''no_range'',
                            lv_unit = Some ''NTU''\<rparr>)]),
         (''SRA120'',
          [(''pH'', \<lparr>lv_value = 9, lv_date = Some 8, lv_status = ''outside_range'',
                     lv_unit = None\<rparr>)]),
         (''SRA141'',
          [(''Temperature'', \<lparr>lv_value = 15, lv_date = Some 1, lv_status = ''acceptable'',
                              lv_unit = Some ''C''\<rparr>)])],
      analyteRanges =
        [(''pH'', ph_range),
         (''Temperature'', \<lparr>range_min = None, range_max = Some 24, range_unit = Some ''C''\<rparr>),
         (''Turbidity'', \<lparr>range_min = None, range_max = None, range_unit = Some ''NTU''\<rparr>)]\<rparr>"

definition four_ready :: map_manager where
  "four_ready = setData four_stations (initMap new_MapManager)"

section \<open>The application controller (src/js/app.js)\<close>

text \<open>
  What \<open>CreekMonitoringApp.init\<close> touches: its own fields, the options of the analyte
  selector, the message of the error modal when it is shown, and the two managers.
\<close>

record creek_app =
  ca_data :: "app_data option"
  ca_currentAnalyte :: "string option"
  ca_loading :: bool
  ca_error :: "string option"
  ca_analytes :: "string list"
  ca_map :: map_manager
  ca_chart :: chart_manager

definition new_CreekMonitoringApp :: creek_app where
  "new_CreekMonitoringApp =
     \<lparr>ca_data = None, ca_currentAnalyte = None, ca_loading = False, ca_error = None,
      ca_analytes = [], ca_map = new_MapManager, ca_chart = new_ChartManager\<rparr>"

text \<open>The \<open>catch\<close> of \<open>init\<close>: \<open>hideLoading\<close> and \<open>showError\<close>.\<close>

definition init_failed :: "creek_app \<Rightarrow> creek_app" where
  "init_failed a =
     a\<lparr>ca_loading := False,
       ca_error := Some (''Failed to load application data. ''
                         @ ''Please check your connection and try again.'')\<rparr>"

text \<open>
  \<open>init\<close>, given what \<open>await window.dataLoader.loadAllData()\<close> yields, whether the
  page has the analyte selector and the chart canvas (it has the map container and the
  sidebar shows no station yet), and the \<open>boundsZoom\<close> of \<open>fitToMarkers\<close>. After the data: \<open>initMap\<close>,
  \<open>setData\<close>, \<open>initChart\<close>, \<open>setupAnalyteSelector\<close>, and \<open>setupInitialMapView\<close>, which
  draws the markers and selects Temperature; an exception anywhere ends in the \<open>catch\<close>.
\<close>

definition init ::
  "nat \<Rightarrow> bool \<Rightarrow> bool \<Rightarrow> error + app_data \<Rightarrow> creek_app \<Rightarrow> creek_app" where
  "init boundsZoom select canvas loaded a =
     (let a = a\<lparr>ca_loading := True\<rparr>
      in case loaded of
           Inl e \<Rightarrow> init_failed a
         | Inr data \<Rightarrow>
             let a = a\<lparr>ca_data := Some data\<rparr>;
                 a = a\<lparr>ca_map := setData data (initMap (ca_map a))\<rparr>;
                 a = a\<lparr>ca_chart := initChart data canvas (ca_chart a)\<rparr>;
                 a = (if select then a\<lparr>ca_analytes := getAnalytes data\<rparr> else a)
             in case addStationMarkers boundsZoom None (ca_map a) of
                  Threw e m \<Rightarrow> init_failed (a\<lparr>ca_map := m\<rparr>)
                | Returned m \<Rightarrow>
                    let a = a\<lparr>ca_map := m\<rparr>
                    in if select then
                         (let a = a\<lparr>ca_currentAnalyte := Some ''Temperature''\<rparr>
                          in case updateMarkerColors (Some ''Temperature'') (ca_map a) of
                               Threw e m \<Rightarrow> init_failed (a\<lparr>ca_map := m\<rparr>)
                             | Returned m \<Rightarrow> a\<lparr>ca_map := m, ca_loading := False\<rparr>)
                       else a\<lparr>ca_loading := False\<rparr>)"

section \<open>Axis fitting\<close>

lemma fold_min_Min: "fold min vs (v::rat) = Min (set (v # vs))"
proof (induction vs arbitrary: v)
  case Nil
  show ?case by simp
next
  case (Cons a vs)
  have "fold min (a # vs) v = Min (set (min a v # vs))"
    using Cons.IH [of "min a v"] by simp
  also have "\<dots> = Min (set (v # a # vs))"
  proof (cases "vs = []")
    case True
    then show ?thesis by (simp add: min.commute)
  next
    case False
    then show ?thesis by (simp add: min.assoc min.left_commute min.commute)
  qed
  finally show ?case .
qed

lemma fold_max_Max: "fold max vs (v::rat) = Max (set (v # vs))"
proof (induction vs arbitrary: v)
  case Nil
  show ?case by simp
next
  case (Cons a vs)
  have "fold max (a # vs) v = Max (set (max a v # vs))"
    using Cons.IH [of "max a v"] by simp
  also have "\<dots> = Max (set (v # a # vs))"
  proof (cases "vs = []")
    case True
    then show ?thesis by (simp add: max.commute)
  next
    case False
    then show ?thesis by (simp add: max.assoc max.left_commute max.commute)
  qed
  finally show ?case .
qed

lemma axis_padding_spec: "axis_padding mn mx = spec_padding mn mx"
  by (simp add: axis_padding_def spec_padding_def Let_def)

lemma fitAxesToData_nonempty:
  assumes "allValues c = v # vs"
  shows "fitAxesToData c =
           c\<lparr>chart_y_min := Some (max 0 (math_min v vs - axis_padding (math_min v vs) (math_max v vs))),
             chart_y_max := Some (math_max v vs + axis_padding (math_min v vs) (math_max v vs))\<rparr>"
proof -
  have "chart_datasets c \<noteq> []"
    using assms by (auto simp: allValues_def)
  then show ?thesis
    using assms by (simp add: fitAxesToData_def Let_def)
qed

lemma set_allValues:
  "set (allValues c) = (\<Union>d \<in> set (chart_datasets c). point_y ` set (ds_data d))"
  by (auto simp: allValues_def)

lemma fitAxesToData_empty:
  assumes "allValues c = []"
  shows "chart_y_min (fitAxesToData c) = None"
  using assms by (simp add: fitAxesToData_def)

lemma allValues_series: "allValues (chart_of_series vss) = concat vss"
  by (simp add: allValues_def chart_of_series_def comp_def)

text \<open>
  C1. Let the visible values be the \<open>y\<close> of every point of every dataset of the chart.
  Whenever there is at least one, \<open>fitAxesToData\<close> sets y-min to \<open>max 0 (lo - p)\<close> and
  y-max to \<open>hi + p\<close>, where \<open>lo\<close> and \<open>hi\<close> are the least and the greatest visible value
  over all datasets and \<open>p\<close> is a tenth of the span when the span is positive, a tenth of
  the magnitude of the single value when the span is zero, and 1 when that value is
  zero. The y-min it sets is never negative. For the values 10 and 20 the bounds are 9
  and 21, whether they are two points of one series or one point each of two series.
\<close>

theorem fitAxesToData_bounds:
  "(let ys = (\<Union>d \<in> set (chart_datasets c). point_y ` set (ds_data d));
        lo = Min ys; hi = Max ys; p = spec_padding lo hi
    in ys \<noteq> {} \<longrightarrow>
         chart_y_min (fitAxesToData c) = Some (max 0 (lo - p))
       \<and> chart_y_max (fitAxesToData c) = Some (hi + p))
   \<and> (case chart_y_min (fitAxesToData c) of None \<Rightarrow> True | Some lo \<Rightarrow> 0 \<le> lo)
   \<and> chart_y_min (fitAxesToData (chart_of_series [[10, 20]])) = Some 9
   \<and> chart_y_max (fitAxesToData (chart_of_series [[10, 20]])) = Some 21
   \<and> chart_y_min (fitAxesToData (chart_of_series [[20], [10]])) = Some 9
   \<and> chart_y_max (fitAxesToData (chart_of_series [[20], [10]])) = Some 21"
proof (intro conjI)
  define ys where "ys = (\<Union>d \<in> set (chart_datasets c). point_y ` set (ds_data d))"
  have s: "set (allValues c) = ys"
    by (simp only: set_allValues ys_def)
  have "ys \<noteq> {} \<longrightarrow>
         chart_y_min (fitAxesToData c) = Some (max 0 (Min ys - spec_padding (Min ys) (Max ys)))
       \<and> chart_y_max (fitAxesToData c) = Some (Max ys + spec_padding (Min ys) (Max ys))"
  proof (intro impI)
    assume "ys \<noteq> {}"
    with s have "allValues c \<noteq> []" by auto
    then obtain v vs where vs: "allValues c = v # vs"
      by (cases "allValues c") auto
    have mn: "math_min v vs = Min ys"
      unfolding s [symmetric] by (simp only: math_min_def fold_min_Min vs)
    have mx: "math_max v vs = Max ys"
      unfolding s [symmetric] by (simp only: math_max_def fold_max_Max vs)
    show "chart_y_min (fitAxesToData c) = Some (max 0 (Min ys - spec_padding (Min ys) (Max ys)))
       \<and> chart_y_max (fitAxesToData c) = Some (Max ys + spec_padding (Min ys) (Max ys))"
      using fitAxesToData_nonempty [OF vs] mn mx by (simp add: axis_padding_spec)
  qed
  then show "let ys = (\<Union>d \<in> set (chart_datasets c). point_y ` set (ds_data d));
        lo = Min ys; hi = Max ys; p = spec_padding lo hi
    in ys \<noteq> {} \<longrightarrow>
         chart_y_min (fitAxesToData c) = Some (max 0 (lo - p))
       \<and> chart_y_max (fitAxesToData c) = Some (hi + p)"
    unfolding ys_def Let_def .
next
  show "case chart_y_min (fitAxesToData c) of None \<Rightarrow> True | Some lo \<Rightarrow> 0 \<le> lo"
  proof (cases "allValues c")
    case Nil
    then show ?thesis by (simp add: fitAxesToData_empty)
  next
    case (Cons v vs)
    from fitAxesToData_nonempty [OF Cons] show ?thesis by simp
  qed
next
  have av: "allValues (chart_of_series [[10, 20]]) = [10, 20]"
    by (simp add: allValues_series)
  show "chart_y_min (fitAxesToData (chart_of_series [[10, 20]])) = Some 9"
    using fitAxesToData_nonempty [OF av]
    by (simp add: math_min_def math_max_def axis_padding_def)
  show "chart_y_max (fitAxesToData (chart_of_series [[10, 20]])) = Some 21"
    using fitAxesToData_nonempty [OF av]
    by (simp add: math_min_def math_max_def axis_padding_def)
next
  have av: "allValues (chart_of_series [[20], [10]]) = [20, 10]"
    by (simp add: allValues_series)
  show "chart_y_min (fitAxesToData (chart_of_series [[20], [10]])) = Some 9"
    using fitAxesToData_nonempty [OF av]
    by (simp add: math_min_def math_max_def axis_padding_def)
  show "chart_y_max (fitAxesToData (chart_of_series [[20], [10]])) = Some 21"
    using fitAxesToData_nonempty [OF av]
    by (simp add: math_min_def math_max_def axis_padding_def)
qed

theorem fitAxesToData_bounds_witness:
  "(\<Union>d \<in> set (chart_datasets (chart_of_series [[5, 5], [], [5]])). point_y ` set (ds_data d)) = {5}
   \<and> chart_y_min (fitAxesToData (chart_of_series [[5, 5], [], [5]])) = Some (9 / 2)
   \<and> chart_y_max (fitAxesToData (chart_of_series [[5, 5], [], [5]])) = Some (11 / 2)
   \<and> (\<Union>d \<in> set (chart_datasets (chart_of_series [[12, 30], [4, 20]])). point_y ` set (ds_data d))
       = {4, 12, 20, 30}
   \<and> chart_y_min (fitAxesToData (chart_of_series [[12, 30], [4, 20]])) = Some (7 / 5)
   \<and> chart_y_max (fitAxesToData (chart_of_series [[12, 30], [4, 20]])) = Some (163 / 5)"
proof -
  have a: "(\<Union>d \<in> set (chart_datasets (chart_of_series [[5, 5], [], [5]])). point_y ` set (ds_data d)) = {5}"
    by (simp add: chart_of_series_def)
  have b: "(\<Union>d \<in> set (chart_datasets (chart_of_series [[12, 30], [4, 20]])). point_y ` set (ds_data d))
       = {4, 12, 20, 30}"
    by (auto simp: chart_of_series_def)
  from fitAxesToData_bounds [of "chart_of_series [[5, 5], [], [5]]"]
  have c: "chart_y_min (fitAxesToData (chart_of_series [[5, 5], [], [5]])) = Some (9 / 2)
     \<and> chart_y_max (fitAxesToData (chart_of_series [[5, 5], [], [5]])) = Some (11 / 2)"
    unfolding Let_def a by (simp add: spec_padding_def)
  from fitAxesToData_bounds [of "chart_of_series [[12, 30], [4, 20]]"]
  have d: "chart_y_min (fitAxesToData (chart_of_series [[12, 30], [4, 20]])) = Some (7 / 5)
     \<and> chart_y_max (fitAxesToData (chart_of_series [[12, 30], [4, 20]])) = Some (163 / 5)"
    unfolding Let_def b by (simp add: spec_padding_def)
  from a b c d show ?thesis by (intro conjI) simp_all
qed

section \<open>The analyte list\<close>

lemma set_set_add: "set (set_add a s) = insert a (set s)"
  by (auto simp: set_add_def)

lemma distinct_set_add: "distinct s \<Longrightarrow> distinct (set_add a s)"
  by (simp add: set_add_def)

lemma set_fold_set_add: "set (fold set_add xs s) = set xs \<union> set s"
  by (induction xs arbitrary: s) (auto simp: set_set_add)

lemma distinct_fold_set_add: "distinct s \<Longrightarrow> distinct (fold set_add xs s)"
  by (induction xs arbitrary: s) (auto simp: distinct_set_add)

lemma set_fold_analytes:
  "set (fold (\<lambda>station analytes. fold set_add (st_analytes station) analytes) sts s)
     = (\<Union>st \<in> set sts. set (st_analytes st)) \<union> set s"
  by (induction sts arbitrary: s) (auto simp: set_fold_set_add)

lemma distinct_fold_analytes:
  "distinct s \<Longrightarrow>
   distinct (fold (\<lambda>station analytes. fold set_add (st_analytes station) analytes) sts s)"
  by (induction sts arbitrary: s) (auto simp: distinct_fold_set_add)

text \<open>
  C10. \<open>getAnalytes\<close> returns an array without duplicates whose members are exactly
  the analyte names of all stations, in ascending lexicographic order.
\<close>

theorem getAnalytes_sorted_union:
  "distinct (getAnalytes data)
   \<and> set (getAnalytes data) = (\<Union>st \<in> set (map snd (stations data)). set (st_analytes st))
   \<and> sorted (getAnalytes data)
   \<and> sorted_wrt (<) (getAnalytes data)"
proof -
  have d: "distinct (getAnalytes data)"
    by (simp add: getAnalytes_def distinct_fold_analytes)
  have s: "sorted (getAnalytes data)"
    by (simp add: getAnalytes_def)
  have u: "set (getAnalytes data) = (\<Union>st \<in> set (map snd (stations data)). set (st_analytes st))"
    unfolding getAnalytes_def set_sort set_fold_analytes by simp
  from d s have "sorted_wrt (<) (getAnalytes data)"
    by (simp add: strict_sorted_iff)
  with d s u show ?thesis by blast
qed

section \<open>Status classification in the demo generator\<close>

lemma loop_nonempty:
  "ms \<noteq> [] \<or> i \<ge> 0 \<Longrightarrow> generateTimeSeries_loop env now b i ms \<noteq> []"
proof (induction env now b i ms rule: generateTimeSeries_loop.induct)
  case (1 env now baseValue i ms)
  show ?case
  proof (cases "i \<ge> 0")
    case True
    then show ?thesis
      using "1.IH" by (subst generateTimeSeries_loop.simps) simp
  next
    case False
    then show ?thesis
      using "1.prems" by (subst generateTimeSeries_loop.simps) simp
  qed
qed

lemma generateTimeSeries_nonempty: "generateTimeSeries env now analyte rng \<noteq> []"
proof -
  have "length (generateTimeSeries env now analyte rng) \<noteq> 0"
    unfolding generateTimeSeries_def Let_def length_sort
    using loop_nonempty [of "[]" 365] by simp
  then show ?thesis by simp
qed

lemma case_rev_last:
  "ts \<noteq> [] \<Longrightarrow> (case rev ts of [] \<Rightarrow> A | l # r \<Rightarrow> B l) = B (last ts)"
  by (induction ts rule: rev_induct) simp_all

lemma demo_analyte_Inr:
  "demo_analyte env now code (analyte, rng) (ms, lvs) =
     Inr (AList.update analyte (generateTimeSeries (env code analyte) now analyte rng) ms,
          AList.update analyte
            (demo_latest rng (generateTimeSeries (env code analyte) now analyte rng)) lvs)"
  by (simp add: demo_analyte_def demo_latest_def Let_def
        case_rev_last [OF generateTimeSeries_nonempty])

lemma forEach_demo_analyte:
  "distinct (map fst ranges) \<Longrightarrow>
   \<exists>ms lvs. forEach_err (demo_analyte env now code) ranges (ms0, lvs0) = Inr (ms, lvs)
     \<and> (\<forall>a. map_of ms a = (case map_of ranges a of
              None \<Rightarrow> map_of ms0 a
            | Some rng \<Rightarrow> Some (generateTimeSeries (env code a) now a rng)))
     \<and> (\<forall>a. map_of lvs a = (case map_of ranges a of
              None \<Rightarrow> map_of lvs0 a
            | Some rng \<Rightarrow> Some (demo_latest rng (generateTimeSeries (env code a) now a rng))))"
proof (induction ranges arbitrary: ms0 lvs0)
  case Nil
  show ?case by simp
next
  case (Cons e ranges)
  obtain a rng where e: "e = (a, rng)" by (cases e)
  from Cons.prems e have d: "distinct (map fst ranges)" and na: "map_of ranges a = None"
    by (auto simp: map_of_eq_None_iff)
  from Cons.IH [OF d] obtain ms lvs where
    "forEach_err (demo_analyte env now code) ranges
       (AList.update a (generateTimeSeries (env code a) now a rng) ms0,
        AList.update a (demo_latest rng (generateTimeSeries (env code a) now a rng)) lvs0)
     = Inr (ms, lvs)"
    and "\<forall>x. map_of ms x = (case map_of ranges x of
              None \<Rightarrow> map_of (AList.update a (generateTimeSeries (env code a) now a rng) ms0) x
            | Some rng \<Rightarrow> Some (generateTimeSeries (env code x) now x rng))"
    and "\<forall>x. map_of lvs x = (case map_of ranges x of
              None \<Rightarrow> map_of (AList.update a (demo_latest rng (generateTimeSeries (env code a) now a rng)) lvs0) x
            | Some rng \<Rightarrow> Some (demo_latest rng (generateTimeSeries (env code x) now x rng)))"
    by blast
  then show ?case
    using na by (auto simp: e demo_analyte_Inr update_conv' split: option.splits)
qed


lemma demo_station_Inr:
  assumes "distinct (map fst ranges)"
  shows "\<exists>sts1 ms lvs. demo_station env now ranges (code, lon, lat) (sts0, mss0, lvss0) =
           Inr (sts1,
                AList.update code ms mss0, AList.update code lvs lvss0)
         \<and> (\<forall>a rng. map_of ranges a = Some rng \<longrightarrow>
               map_of ms a = Some (generateTimeSeries (env code a) now a rng)
             \<and> map_of lvs a = Some (demo_latest rng (generateTimeSeries (env code a) now a rng)))"
proof -
  from forEach_demo_analyte [OF assms, of env now code "[]" "[]"] obtain ms lvs where
    r: "forEach_err (demo_analyte env now code) ranges ([], []) = Inr (ms, lvs)"
    and m: "\<forall>a. map_of ms a = (case map_of ranges a of
              None \<Rightarrow> map_of [] a
            | Some rng \<Rightarrow> Some (generateTimeSeries (env code a) now a rng))"
    and l: "\<forall>a. map_of lvs a = (case map_of ranges a of
              None \<Rightarrow> map_of [] a
            | Some rng \<Rightarrow> Some (demo_latest rng (generateTimeSeries (env code a) now a rng)))"
    by blast
  have "\<exists>sts1. demo_station env now ranges (code, lon, lat) (sts0, mss0, lvss0) =
           Inr (sts1,
                AList.update code ms mss0, AList.update code lvs lvss0)"
    by (simp add: demo_station_def Let_def r)
  moreover have "\<forall>a rng. map_of ranges a = Some rng \<longrightarrow>
               map_of ms a = Some (generateTimeSeries (env code a) now a rng)
             \<and> map_of lvs a = Some (demo_latest rng (generateTimeSeries (env code a) now a rng))"
    using m l by simp
  ultimately show ?thesis by blast
qed

lemma forEach_demo_station:
  assumes "distinct (map fst ranges)"
  shows "distinct (map fst cs) \<Longrightarrow>
   \<exists>sts mss lvss. forEach_err (demo_station env now ranges) cs (sts0, mss0, lvss0)
        = Inr (sts, mss, lvss)
     \<and> (\<forall>c. c \<notin> fst ` set cs \<longrightarrow> map_of mss c = map_of mss0 c \<and> map_of lvss c = map_of lvss0 c)
     \<and> (\<forall>c. c \<in> fst ` set cs \<longrightarrow> (\<exists>ms lvs. map_of mss c = Some ms \<and> map_of lvss c = Some lvs
           \<and> (\<forall>a rng. map_of ranges a = Some rng \<longrightarrow>
                 map_of ms a = Some (generateTimeSeries (env c a) now a rng)
               \<and> map_of lvs a = Some (demo_latest rng (generateTimeSeries (env c a) now a rng)))))"
proof (induction cs arbitrary: sts0 mss0 lvss0)
  case Nil
  show ?case by simp
next
  case (Cons e cs)
  obtain code lon lat where e: "e = (code, lon, lat)" by (cases e)
  from Cons.prems e have d: "distinct (map fst cs)" and nc: "code \<notin> fst ` set cs"
    by auto
  from demo_station_Inr [OF assms, of env now code lon lat sts0 mss0 lvss0]
  obtain sts1 ms lvs where
    step: "demo_station env now ranges (code, lon, lat) (sts0, mss0, lvss0) =
           Inr (sts1,
                AList.update code ms mss0, AList.update code lvs lvss0)"
    and here: "\<forall>a rng. map_of ranges a = Some rng \<longrightarrow>
               map_of ms a = Some (generateTimeSeries (env code a) now a rng)
             \<and> map_of lvs a = Some (demo_latest rng (generateTimeSeries (env code a) now a rng))"
    by blast
  from Cons.IH [OF d, of sts1 "AList.update code ms mss0" "AList.update code lvs lvss0"]
  obtain sts mss lvss where
    run: "forEach_err (demo_station env now ranges) cs
       (sts1,
                AList.update code ms mss0, AList.update code lvs lvss0) = Inr (sts, mss, lvss)"
    and frame: "\<forall>c. c \<notin> fst ` set cs \<longrightarrow>
          map_of mss c = map_of (AList.update code ms mss0) c
        \<and> map_of lvss c = map_of (AList.update code lvs lvss0) c"
    and rest: "\<forall>c. c \<in> fst ` set cs \<longrightarrow> (\<exists>ms lvs. map_of mss c = Some ms \<and> map_of lvss c = Some lvs
           \<and> (\<forall>a rng. map_of ranges a = Some rng \<longrightarrow>
                 map_of ms a = Some (generateTimeSeries (env c a) now a rng)
               \<and> map_of lvs a = Some (demo_latest rng (generateTimeSeries (env c a) now a rng))))"
    by blast
  have r: "forEach_err (demo_station env now ranges) (e # cs) (sts0, mss0, lvss0) = Inr (sts, mss, lvss)"
    by (simp add: e step run)
  have f: "\<forall>c. c \<notin> fst ` set (e # cs) \<longrightarrow> map_of mss c = map_of mss0 c \<and> map_of lvss c = map_of lvss0 c"
    using frame by (auto simp: e update_conv')
  have h: "map_of mss code = Some ms \<and> map_of lvss code = Some lvs"
    using frame nc by (simp add: update_conv')
  have "\<forall>c. c \<in> fst ` set (e # cs) \<longrightarrow> (\<exists>ms lvs. map_of mss c = Some ms \<and> map_of lvss c = Some lvs
           \<and> (\<forall>a rng. map_of ranges a = Some rng \<longrightarrow>
                 map_of ms a = Some (generateTimeSeries (env c a) now a rng)
               \<and> map_of lvs a = Some (demo_latest rng (generateTimeSeries (env c a) now a rng))))"
  proof (intro allI impI)
    fix c assume "c \<in> fst ` set (e # cs)"
    then consider "c = code" | "c \<in> fst ` set cs" by (auto simp: e)
    then show "\<exists>ms lvs. map_of mss c = Some ms \<and> map_of lvss c = Some lvs
           \<and> (\<forall>a rng. map_of ranges a = Some rng \<longrightarrow>
                 map_of ms a = Some (generateTimeSeries (env c a) now a rng)
               \<and> map_of lvs a = Some (demo_latest rng (generateTimeSeries (env c a) now a rng)))"
    proof cases
      case 1
      then show ?thesis using h here by blast
    next
      case 2
      then show ?thesis using rest by blast
    qed
  qed
  with r f show ?case by blast
qed

lemma latest_status_spec: "latest_status rng v = spec_status (range_min rng) (range_max rng) v"
  by (auto simp: latest_status_def spec_status_def Let_def split: option.splits)

text \<open>
  C2. For every station of the demo generator and every analyte of the ranges, the
  generator succeeds and the status stored with the latest value is \<open>no_range\<close> when
  both bounds are null, and otherwise \<open>acceptable\<close> exactly when the value respects each
  bound that is present, else \<open>outside_range\<close>; the value is that of the last
  measurement of the generated series.
\<close>

theorem generateDemoData_status:
  assumes "distinct (map fst ranges)"
    and "map_of ranges analyte = Some rng"
    and "code \<in> fst ` set stationCoords"
  shows "\<exists>sts mss lvss ms lvs lv.
           generateDemoData env now ranges = Inr (sts, mss, lvss)
         \<and> map_of mss code = Some ms \<and> map_of lvss code = Some lvs
         \<and> map_of ms analyte = Some (generateTimeSeries (env code analyte) now analyte rng)
         \<and> map_of lvs analyte = Some lv
         \<and> lv_value lv = m_value (last (generateTimeSeries (env code analyte) now analyte rng))
         \<and> lv_status lv = spec_status (range_min rng) (range_max rng) (lv_value lv)"
proof -
  have dc: "distinct (map fst stationCoords)"
    by (simp add: stationCoords_def)
  have "\<exists>sts mss lvss. generateDemoData env now ranges = Inr (sts, mss, lvss)
     \<and> (\<forall>c. c \<in> fst ` set stationCoords \<longrightarrow>
         (\<exists>ms lvs. map_of mss c = Some ms \<and> map_of lvss c = Some lvs
           \<and> (\<forall>a rng. map_of ranges a = Some rng \<longrightarrow>
                 map_of ms a = Some (generateTimeSeries (env c a) now a rng)
               \<and> map_of lvs a = Some (demo_latest rng (generateTimeSeries (env c a) now a rng)))))"
    using forEach_demo_station [OF assms(1) dc, of env now "[]" "[]" "[]"]
    unfolding generateDemoData_def by (elim exE conjE) (intro exI conjI)
  then obtain sts mss lvss where
    r: "generateDemoData env now ranges = Inr (sts, mss, lvss)"
    and inC: "\<forall>c. c \<in> fst ` set stationCoords \<longrightarrow>
         (\<exists>ms lvs. map_of mss c = Some ms \<and> map_of lvss c = Some lvs
           \<and> (\<forall>a rng. map_of ranges a = Some rng \<longrightarrow>
                 map_of ms a = Some (generateTimeSeries (env c a) now a rng)
               \<and> map_of lvs a = Some (demo_latest rng (generateTimeSeries (env c a) now a rng))))"
    by (elim exE conjE) (rule that)
  from inC [rule_format, OF assms(3)]
  obtain ms lvs where
    c: "map_of mss code = Some ms" "map_of lvss code = Some lvs"
    and a: "\<forall>a rng. map_of ranges a = Some rng \<longrightarrow>
                 map_of ms a = Some (generateTimeSeries (env code a) now a rng)
               \<and> map_of lvs a = Some (demo_latest rng (generateTimeSeries (env code a) now a rng))"
    by (elim exE conjE) (rule that)
  define lv where "lv = demo_latest rng (generateTimeSeries (env code analyte) now analyte rng)"
  have "map_of ms analyte = Some (generateTimeSeries (env code analyte) now analyte rng)"
    and "map_of lvs analyte = Some lv"
    using a assms(2) by (simp_all add: lv_def)
  moreover have "lv_value lv = m_value (last (generateTimeSeries (env code analyte) now analyte rng))"
    by (simp add: lv_def demo_latest_def)
  moreover have "lv_status lv = spec_status (range_min rng) (range_max rng) (lv_value lv)"
    by (simp add: lv_def demo_latest_def latest_status_spec)
  ultimately show ?thesis using r c by blast
qed

theorem generateDemoData_status_witness:
  "distinct (map fst [(''pH'', ph_range)])
   \<and> map_of [(''pH'', ph_range)] ''pH'' = Some ph_range
   \<and> ''SRA190'' \<in> fst ` set stationCoords
   \<and> (\<exists>sts mss lvss lvs lv.
         generateDemoData calm 0 [(''pH'', ph_range)] = Inr (sts, mss, lvss)
       \<and> map_of lvss ''SRA190'' = Some lvs \<and> map_of lvs ''pH'' = Some lv
       \<and> lv_value lv = 36 / 5 \<and> lv_status lv = ''acceptable'')"
proof -
  have h1: "distinct (map fst [(''pH'', ph_range)])" by simp
  have h2: "map_of [(''pH'', ph_range)] ''pH'' = Some ph_range" by simp
  have h3: "''SRA190'' \<in> fst ` set stationCoords" by (simp add: stationCoords_def)
  have v: "m_value (last (generateTimeSeries (calm ''SRA190'' ''pH'') 0 ''pH'' ph_range)) = 36 / 5"
    by code_simp
  from generateDemoData_status [OF h1 h2 h3, of calm 0]
  obtain sts mss lvss lvs lv where
    "generateDemoData calm 0 [(''pH'', ph_range)] = Inr (sts, mss, lvss)"
    "map_of lvss ''SRA190'' = Some lvs" "map_of lvs ''pH'' = Some lv"
    "lv_value lv = m_value (last (generateTimeSeries (calm ''SRA190'' ''pH'') 0 ''pH'' ph_range))"
    "lv_status lv = spec_status (range_min ph_range) (range_max ph_range) (lv_value lv)"
    by (elim exE conjE) (rule that)
  moreover from this v have "lv_value lv = 36 / 5" "lv_status lv = ''acceptable''"
    by (simp_all add: spec_status_def ph_range_def)
  ultimately have "\<exists>sts mss lvss lvs lv.
         generateDemoData calm 0 [(''pH'', ph_range)] = Inr (sts, mss, lvss)
       \<and> map_of lvss ''SRA190'' = Some lvs \<and> map_of lvs ''pH'' = Some lv
       \<and> lv_value lv = 36 / 5 \<and> lv_status lv = ''acceptable''"
    by (intro exI conjI)
  with h1 h2 h3 show ?thesis by (intro conjI)
qed

section \<open>The loader's cache and request de-duplication\<close>

lemma loader_inv_new: "loader_inv new_DataLoader"
  by (simp add: loader_inv_def new_DataLoader_def pending_def)

lemma loadJSON_hit:
  "cache_hit s k \<Longrightarrow> \<exists>v. map_of (cache s) k = Some v \<and> truthy v \<and> loadJSON url k s = (Value v, s)"
  by (auto simp: cache_hit_def loadJSON_def split: option.splits)

lemma loadJSON_stored:
  "\<not> cache_hit s k \<Longrightarrow> map_of (loading s) k = Some p \<Longrightarrow> loadJSON url k s = (Promise p, s)"
  by (auto simp: cache_hit_def loadJSON_def split: option.splits)

lemma loadJSON_fetch:
  "\<not> cache_hit s k \<Longrightarrow> map_of (loading s) k = None \<Longrightarrow>
   loadJSON url k s =
     (Promise (length (fetches s)),
      s\<lparr>loading := AList.update k (length (fetches s)) (loading s),
        fetches := fetches s @ [\<lparr>req_url = url, req_key = k\<rparr>]\<rparr>)"
  by (auto simp: cache_hit_def loadJSON_def Let_def split: option.splits)

lemma loader_invI:
  assumes "\<And>k p. map_of (loading s) k = Some p \<Longrightarrow>
             pending s p \<and> req_key (fetches s ! p) = k \<and> \<not> cache_hit s k"
    and "\<And>p. pending s p \<Longrightarrow> map_of (loading s) (req_key (fetches s ! p)) = Some p"
    and "\<And>p. p \<in> set (settled s) \<Longrightarrow> p < length (fetches s)"
  shows "loader_inv s"
  using assms unfolding loader_inv_def by blast

lemma loader_inv_stored:
  "loader_inv s \<Longrightarrow> map_of (loading s) k = Some p \<Longrightarrow>
   pending s p \<and> req_key (fetches s ! p) = k \<and> \<not> cache_hit s k"
  unfolding loader_inv_def by blast

lemma loader_inv_pending:
  "loader_inv s \<Longrightarrow> pending s p \<Longrightarrow> map_of (loading s) (req_key (fetches s ! p)) = Some p"
  unfolding loader_inv_def by blast

lemma loader_inv_settled:
  "loader_inv s \<Longrightarrow> p \<in> set (settled s) \<Longrightarrow> p < length (fetches s)"
  unfolding loader_inv_def by blast

lemma loader_inv_loadJSON:
  assumes inv: "loader_inv s"
  shows "loader_inv (snd (loadJSON url k s))"
proof (cases "cache_hit s k")
  case True
  then show ?thesis using assms loadJSON_hit [OF True, of url] by auto
next
  case False
  show ?thesis
  proof (cases "map_of (loading s) k")
    case (Some p)
    then show ?thesis using assms by (simp add: loadJSON_stored [OF False Some])
  next
    case None
    define n where "n = length (fetches s)"
    define s' where "s' = s\<lparr>loading := AList.update k n (loading s),
        fetches := fetches s @ [\<lparr>req_url = url, req_key = k\<rparr>]\<rparr>"
    have s': "snd (loadJSON url k s) = s'"
      by (simp add: loadJSON_fetch [OF False None] s'_def n_def)
    have fresh: "n \<notin> set (settled s)"
      using loader_inv_settled [OF inv, of n] by (auto simp: n_def)
    have old: "\<And>p. p < n \<Longrightarrow> fetches s' ! p = fetches s ! p"
      by (simp add: s'_def n_def nth_append)
    have new: "fetches s' ! n = \<lparr>req_url = url, req_key = k\<rparr>"
      by (simp add: s'_def n_def)
    have len: "length (fetches s') = Suc n" by (simp add: s'_def n_def)
    have set: "settled s' = settled s" by (simp add: s'_def)
    have ch: "\<And>k'. cache_hit s' k' = cache_hit s k'" by (simp add: s'_def cache_hit_def)
    have ld: "\<And>k'. map_of (loading s') k' = (if k' = k then Some n else map_of (loading s) k')"
      by (simp add: s'_def update_conv')
    have "loader_inv s'"
    proof (rule loader_invI)
      fix k' p assume a: "map_of (loading s') k' = Some p"
      show "pending s' p \<and> req_key (fetches s' ! p) = k' \<and> \<not> cache_hit s' k'"
      proof (cases "k' = k")
        case True
        with a have "p = n" by (simp add: ld)
        then show ?thesis using True False fresh by (simp add: pending_def len set new ch)
      next
        case ne: False
        with a have "map_of (loading s) k' = Some p" by (simp add: ld)
        from loader_inv_stored [OF inv this]
        have "pending s p" "req_key (fetches s ! p) = k'" "\<not> cache_hit s k'" by simp_all
        moreover from this have "p < n" by (simp add: pending_def n_def)
        ultimately show ?thesis by (simp add: pending_def len set old ch)
      qed
    next
      fix p assume a: "pending s' p"
      show "map_of (loading s') (req_key (fetches s' ! p)) = Some p"
      proof (cases "p = n")
        case True
        then show ?thesis by (simp add: new ld)
      next
        case ne: False
        with a have pn: "p < n" and ps: "pending s p"
          by (auto simp: pending_def len set n_def)
        from loader_inv_pending [OF inv ps] None have "req_key (fetches s ! p) \<noteq> k" by auto
        with loader_inv_pending [OF inv ps] show ?thesis by (simp add: old [OF pn] ld)
      qed
    next
      fix p assume "p \<in> set (settled s')"
      then show "p < length (fetches s')"
        using loader_inv_settled [OF inv, of p] by (simp add: set len n_def)
    qed
    then show ?thesis by (simp add: s')
  qed
qed

lemma loader_inv_settle:
  assumes inv: "loader_inv s" and pp: "pending s p"
    and ld: "loading s' = AList.delete (req_key (fetches s ! p)) (loading s)"
    and ft: "fetches s' = fetches s"
    and st: "settled s' = p # settled s"
    and ch: "\<And>k. k \<noteq> req_key (fetches s ! p) \<Longrightarrow> cache_hit s' k = cache_hit s k"
  shows "loader_inv s'"
proof (rule loader_invI)
  fix k q assume a: "map_of (loading s') k = Some q"
  then have kk: "k \<noteq> req_key (fetches s ! p)" and b: "map_of (loading s) k = Some q"
    by (auto simp: ld delete_conv' split: if_splits)
  from loader_inv_stored [OF inv b]
  have q: "pending s q" "req_key (fetches s ! q) = k" "\<not> cache_hit s k" by simp_all
  with kk have "q \<noteq> p" by auto
  with q kk show "pending s' q \<and> req_key (fetches s' ! q) = k \<and> \<not> cache_hit s' k"
    by (simp add: pending_def ft st ch)
next
  fix q assume a: "pending s' q"
  then have qp: "q \<noteq> p" and qs: "pending s q" by (auto simp: pending_def ft st)
  from loader_inv_pending [OF inv qs] loader_inv_pending [OF inv pp] qp
  have "req_key (fetches s ! q) \<noteq> req_key (fetches s ! p)" by auto
  with loader_inv_pending [OF inv qs]
  show "map_of (loading s') (req_key (fetches s' ! q)) = Some q"
    by (simp add: ld ft delete_conv')
next
  fix q assume "q \<in> set (settled s')"
  then show "q < length (fetches s')"
    using loader_inv_settled [OF inv, of q] pp by (auto simp: st ft pending_def)
qed

lemma loader_inv_fulfilled:
  assumes "loader_inv s" and "pending s p"
  shows "loader_inv (fetch_fulfilled p d s)"
  by (rule loader_inv_settle [OF assms])
     (simp_all add: fetch_fulfilled_def Let_def cache_hit_def update_conv')

lemma loader_inv_rejected:
  assumes "loader_inv s" and "pending s p"
  shows "loader_inv (fetch_rejected p s)"
  by (rule loader_inv_settle [OF assms])
     (simp_all add: fetch_rejected_def Let_def cache_hit_def)

lemma loader_inv_step: "loader_inv s \<Longrightarrow> step s e = Some s' \<Longrightarrow> loader_inv s'"
  by (cases e)
     (auto simp: loader_inv_loadJSON loader_inv_fulfilled loader_inv_rejected split: if_splits)

lemma loader_inv_run: "loader_inv s \<Longrightarrow> run s es = Some s' \<Longrightarrow> loader_inv s'"
proof (induction es arbitrary: s)
  case Nil
  then show ?case by simp
next
  case (Cons e es)
  then show ?case
    by (auto split: option.splits dest: loader_inv_step)
qed

lemma step_keeps_hit:
  assumes "loader_inv s" and "cache_hit s k" and "step s e = Some s'"
  shows "map_of (cache s') k = map_of (cache s) k"
proof (cases e)
  case (Call url k')
  then show ?thesis
    using assms(3) by (auto simp: loadJSON_def Let_def split: option.splits if_splits)
next
  case (Fulfil p d)
  with assms(3) have p: "pending s p" and s': "s' = fetch_fulfilled p d s"
    by (auto split: if_splits)
  from loader_inv_stored [OF assms(1) loader_inv_pending [OF assms(1) p]]
  have "\<not> cache_hit s (req_key (fetches s ! p))" by simp
  with assms(2) have "req_key (fetches s ! p) \<noteq> k" by auto
  then show ?thesis by (simp add: s' fetch_fulfilled_def Let_def update_conv')
next
  case (Reject p)
  then show ?thesis
    using assms(3) by (auto simp: fetch_rejected_def Let_def split: if_splits)
qed

lemma run_keeps_hit:
  "loader_inv s \<Longrightarrow> cache_hit s k \<Longrightarrow> run s es = Some s' \<Longrightarrow>
   map_of (cache s') k = map_of (cache s) k"
proof (induction es arbitrary: s)
  case Nil
  then show ?case by simp
next
  case (Cons e es)
  from Cons.prems(3) obtain s1 where s1: "step s e = Some s1" and r: "run s1 es = Some s'"
    by (auto split: option.splits)
  have k1: "map_of (cache s1) k = map_of (cache s) k"
    by (rule step_keeps_hit [OF Cons.prems(1,2) s1])
  then have "cache_hit s1 k" using Cons.prems(2) by (simp add: cache_hit_def)
  from Cons.IH [OF loader_inv_step [OF Cons.prems(1) s1] this r] k1 show ?case by simp
qed

lemma fulfilled_falsy:
  assumes f: "\<not> truthy d"
  shows "\<not> cache_hit (fetch_fulfilled p d s) (req_key (fetches s ! p))"
    and "map_of (loading (fetch_fulfilled p d s)) (req_key (fetches s ! p)) = None"
    and "map_of (cache (fetch_fulfilled p d s)) (req_key (fetches s ! p)) = Some d"
    and "fetches (fetch_fulfilled p d s) = fetches s"
  using f by (simp_all add: fetch_fulfilled_def Let_def cache_hit_def update_conv' delete_conv')

lemma run_reloads:
  "loader_inv s \<Longrightarrow> \<not> cache_hit s k \<Longrightarrow> map_of (loading s) k = None \<Longrightarrow> \<not> truthy d \<Longrightarrow>
   \<exists>s'. run s (reloads url k d (length (fetches s)) n) = Some s'
      \<and> length (fetches s') = length (fetches s) + n"
proof (induction n arbitrary: s)
  case 0
  show ?case by simp
next
  case (Suc n)
  define m where "m = length (fetches s)"
  define s1 where "s1 = snd (loadJSON url k s)"
  define s2 where "s2 = fetch_fulfilled m d s1"
  have l: "loadJSON url k s =
     (Promise m, s\<lparr>loading := AList.update k m (loading s),
        fetches := fetches s @ [\<lparr>req_url = url, req_key = k\<rparr>]\<rparr>)"
    unfolding m_def by (rule loadJSON_fetch [OF Suc.prems(2,3)])
  have i1: "loader_inv s1" unfolding s1_def by (rule loader_inv_loadJSON [OF Suc.prems(1)])
  have f1: "fetches s1 = fetches s @ [\<lparr>req_url = url, req_key = k\<rparr>]"
    by (simp add: s1_def l)
  have "m \<notin> set (settled s)"
    using loader_inv_settled [OF Suc.prems(1), of m] by (auto simp: m_def)
  then have p1: "pending s1 m" by (simp add: pending_def s1_def l m_def)
  have k1: "req_key (fetches s1 ! m) = k" by (simp add: f1 m_def)
  have i2: "loader_inv s2" unfolding s2_def by (rule loader_inv_fulfilled [OF i1 p1])
  from fulfilled_falsy [OF Suc.prems(4), of m s1]
  have c2: "\<not> cache_hit s2 k" and l2: "map_of (loading s2) k = None"
    and f2: "fetches s2 = fetches s1"
    by (simp_all add: s2_def k1)
  have len2: "length (fetches s2) = Suc m" by (simp add: f2 f1 m_def)
  from Suc.IH [OF i2 c2 l2 Suc.prems(4)] obtain s' where
    "run s2 (reloads url k d (Suc m) n) = Some s'" "length (fetches s') = Suc m + n"
    by (auto simp: len2)
  moreover have "run s (reloads url k d m (Suc n)) = run s2 (reloads url k d (Suc m) n)"
    using p1 by (simp add: s1_def [symmetric] s2_def)
  ultimately show ?case by (simp add: m_def)
qed

text \<open>
  C9. The cache-hit check of \<open>loadJSON\<close> tests the cached value for truthiness. When
  a request is fulfilled with a falsy body (\<open>null\<close>, \<open>false\<close>, \<open>0\<close> or the empty
  string), the body is stored, and yet the next call for that key issues a new network
  request instead of returning it; \<open>n\<close> further loads of the resource, one after the
  other, issue \<open>n\<close> further requests.
\<close>

theorem loadJSON_falsy_refetch:
  assumes "run new_DataLoader es = Some s"
    and "step s (Fulfil p d) = Some s1"
    and "d \<in> {JNull, JBool False, JNum 0, JStr []}"
  shows "\<not> truthy d
    \<and> map_of (cache s1) (req_key (fetches s ! p)) = Some d
    \<and> loadJSON url (req_key (fetches s ! p)) s1 =
           (Promise (length (fetches s1)),
            s1\<lparr>loading := AList.update (req_key (fetches s ! p)) (length (fetches s1)) (loading s1),
               fetches := fetches s1 @ [\<lparr>req_url = url, req_key = req_key (fetches s ! p)\<rparr>]\<rparr>)
    \<and> (\<exists>s2. run s1 (reloads url (req_key (fetches s ! p)) d (length (fetches s1)) n) = Some s2
           \<and> length (fetches s2) = length (fetches s1) + n)"
proof (intro conjI)
  show f: "\<not> truthy d" using assms(3) by auto
  have inv: "loader_inv s" by (rule loader_inv_run [OF loader_inv_new assms(1)])
  from assms(2) have pp: "pending s p" and s1: "s1 = fetch_fulfilled p d s"
    by (auto split: if_splits)
  have i1: "loader_inv s1" unfolding s1 by (rule loader_inv_fulfilled [OF inv pp])
  note ff = fulfilled_falsy [OF f, of p s, folded s1]
  show "map_of (cache s1) (req_key (fetches s ! p)) = Some d" by (rule ff(3))
  show "loadJSON url (req_key (fetches s ! p)) s1 =
           (Promise (length (fetches s1)),
            s1\<lparr>loading := AList.update (req_key (fetches s ! p)) (length (fetches s1)) (loading s1),
               fetches := fetches s1 @ [\<lparr>req_url = url, req_key = req_key (fetches s ! p)\<rparr>]\<rparr>)"
    by (rule loadJSON_fetch [OF ff(1,2)])
  show "\<exists>s2. run s1 (reloads url (req_key (fetches s ! p)) d (length (fetches s1)) n) = Some s2
           \<and> length (fetches s2) = length (fetches s1) + n"
    by (rule run_reloads [OF i1 ff(1,2) f])
qed

lemma run_waiting: "run new_DataLoader [Call ''data/stations.json'' ''stations''] = Some loader_waiting"
  by (simp add: new_DataLoader_def loader_waiting_def loadJSON_def stations_request_def)

lemma step_loaded: "step loader_waiting (Fulfil 0 d) = Some (loader_loaded d)"
  by (simp add: loader_waiting_def loader_loaded_def pending_def fetch_fulfilled_def
        stations_request_def Let_def)

theorem loadJSON_falsy_refetch_witness:
  "run new_DataLoader [Call ''data/stations.json'' ''stations''] = Some loader_waiting
   \<and> step loader_waiting (Fulfil 0 JNull) = Some (loader_loaded JNull)
   \<and> JNull \<in> {JNull, JBool False, JNum 0, JStr []}
   \<and> fst (loadJSON ''data/stations.json'' ''stations'' (loader_loaded JNull)) = Promise 1
   \<and> fetches (snd (loadJSON ''data/stations.json'' ''stations'' (loader_loaded JNull)))
       = [stations_request, stations_request]"
proof -
  have h3: "JNull \<in> {JNull, JBool False, JNum 0, JStr []}" by simp
  have k: "req_key (fetches loader_waiting ! 0) = ''stations''"
    by (simp add: loader_waiting_def stations_request_def)
  from loadJSON_falsy_refetch [OF run_waiting step_loaded h3, of "''data/stations.json''" 0]
  have "loadJSON ''data/stations.json'' ''stations'' (loader_loaded JNull) =
     (Promise (length (fetches (loader_loaded JNull))),
      (loader_loaded JNull)\<lparr>loading := AList.update ''stations'' (length (fetches (loader_loaded JNull)))
            (loading (loader_loaded JNull)),
          fetches := fetches (loader_loaded JNull)
            @ [\<lparr>req_url = ''data/stations.json'', req_key = ''stations''\<rparr>]\<rparr>)"
    unfolding k by (elim conjE)
  then have "fst (loadJSON ''data/stations.json'' ''stations'' (loader_loaded JNull)) = Promise 1"
    and "fetches (snd (loadJSON ''data/stations.json'' ''stations'' (loader_loaded JNull)))
       = [stations_request, stations_request]"
    by (simp_all add: loader_loaded_def stations_request_def)
  with run_waiting step_loaded h3 show ?thesis by (intro conjI)
qed

lemma loadJSON_cached:
  "map_of (cache s) k = Some v \<Longrightarrow> truthy v \<Longrightarrow> loadJSON url k s = (Value v, s)"
  by (simp add: loadJSON_def)

lemma fulfilled_cache:
  "map_of (cache (fetch_fulfilled p d s)) (req_key (fetches s ! p)) = Some d"
  by (simp add: fetch_fulfilled_def Let_def update_conv')

text \<open>
  C3, amended. In every state of a session: a call for a key with a pending request
  returns the promise of that request and leaves the loader unchanged; after a request
  has been fulfilled with a truthy body, every later call for its key returns that body
  and leaves the loader unchanged; and of two calls in a row for a key that is neither
  cached nor being loaded, the first issues one request and the second returns the same
  promise without issuing another.
\<close>

theorem loadJSON_dedup_memo:
  assumes "run new_DataLoader es = Some s"
  shows "(pending s p \<longrightarrow> loadJSON url (req_key (fetches s ! p)) s = (Promise p, s))
    \<and> (step s (Fulfil p d) = Some s1 \<longrightarrow> truthy d \<longrightarrow> run s1 es' = Some s2 \<longrightarrow>
          loadJSON url (req_key (fetches s ! p)) s2 = (Value d, s2))
    \<and> (\<not> cache_hit s k \<longrightarrow> map_of (loading s) k = None \<longrightarrow>
          fst (loadJSON url k s) = Promise (length (fetches s))
        \<and> fetches (snd (loadJSON url k s)) = fetches s @ [\<lparr>req_url = url, req_key = k\<rparr>]
        \<and> loadJSON url' k (snd (loadJSON url k s))
            = (Promise (length (fetches s)), snd (loadJSON url k s)))"
proof (intro conjI impI)
  have inv: "loader_inv s" by (rule loader_inv_run [OF loader_inv_new assms])
  {
    assume pp: "pending s p"
    from loader_inv_stored [OF inv loader_inv_pending [OF inv pp]]
    have "\<not> cache_hit s (req_key (fetches s ! p))" by simp
    then show "loadJSON url (req_key (fetches s ! p)) s = (Promise p, s)"
      by (rule loadJSON_stored [OF _ loader_inv_pending [OF inv pp]])
  }
  {
    assume st: "step s (Fulfil p d) = Some s1" and t: "truthy d" and r: "run s1 es' = Some s2"
    from st have pp: "pending s p" and s1: "s1 = fetch_fulfilled p d s"
      by (auto split: if_splits)
    have i1: "loader_inv s1" unfolding s1 by (rule loader_inv_fulfilled [OF inv pp])
    have c1: "map_of (cache s1) (req_key (fetches s ! p)) = Some d"
      unfolding s1 by (rule fulfilled_cache)
    then have h1: "cache_hit s1 (req_key (fetches s ! p))" using t by (simp add: cache_hit_def)
    from run_keeps_hit [OF i1 h1 r] c1
    have "map_of (cache s2) (req_key (fetches s ! p)) = Some d" by simp
    then show "loadJSON url (req_key (fetches s ! p)) s2 = (Value d, s2)"
      using t by (rule loadJSON_cached)
  }
  {
    assume nh: "\<not> cache_hit s k" and nl: "map_of (loading s) k = None"
    note l = loadJSON_fetch [OF nh nl, of url]
    show "fst (loadJSON url k s) = Promise (length (fetches s))" by (simp add: l)
    show "fetches (snd (loadJSON url k s)) = fetches s @ [\<lparr>req_url = url, req_key = k\<rparr>]"
      by (simp add: l)
    have "\<not> cache_hit (snd (loadJSON url k s)) k"
      using nh by (simp add: l cache_hit_def)
    moreover have "map_of (loading (snd (loadJSON url k s))) k = Some (length (fetches s))"
      by (simp add: l update_conv')
    ultimately show "loadJSON url' k (snd (loadJSON url k s))
            = (Promise (length (fetches s)), snd (loadJSON url k s))"
      by (rule loadJSON_stored)
  }
qed

theorem loadJSON_dedup_memo_witness:
  "run new_DataLoader [Call ''data/stations.json'' ''stations''] = Some loader_waiting
   \<and> pending loader_waiting 0
   \<and> loadJSON ''data/stations.json'' ''stations'' loader_waiting = (Promise 0, loader_waiting)
   \<and> step loader_waiting (Fulfil 0 (JObj [])) = Some (loader_loaded (JObj []))
   \<and> truthy (JObj [])
   \<and> run (loader_loaded (JObj [])) [] = Some (loader_loaded (JObj []))
   \<and> loadJSON ''data/stations.json'' ''stations'' (loader_loaded (JObj []))
        = (Value (JObj []), loader_loaded (JObj []))
   \<and> \<not> cache_hit loader_waiting ''measurements''
   \<and> map_of (loading loader_waiting) ''measurements'' = None
   \<and> fetches (snd (loadJSON ''data/measurements.json'' ''measurements'' loader_waiting))
        = [stations_request, \<lparr>req_url = ''data/measurements.json'', req_key = ''measurements''\<rparr>]
   \<and> fst (loadJSON ''data/measurements.json'' ''measurements''
             (snd (loadJSON ''data/measurements.json'' ''measurements'' loader_waiting)))
        = Promise 1"
proof -
  have p0: "pending loader_waiting 0" by (simp add: pending_def loader_waiting_def)
  have k: "req_key (fetches loader_waiting ! 0) = ''stations''"
    by (simp add: loader_waiting_def stations_request_def)
  have t: "truthy (JObj [])" by simp
  have r: "run (loader_loaded (JObj [])) [] = Some (loader_loaded (JObj []))" by simp
  have nh: "\<not> cache_hit loader_waiting ''measurements''"
    by (simp add: cache_hit_def loader_waiting_def)
  have nl: "map_of (loading loader_waiting) ''measurements'' = None"
    by (simp add: loader_waiting_def)
  have f: "fetches loader_waiting = [stations_request]" by (simp add: loader_waiting_def)
  note w = loadJSON_dedup_memo [OF run_waiting, where p = 0 and url = "''data/stations.json''"
      and d = "JObj []" and ?s1.0 = "loader_loaded (JObj [])" and es' = "[]"
      and ?s2.0 = "loader_loaded (JObj [])"]
  note w' = loadJSON_dedup_memo [OF run_waiting, where k = "''measurements''"
      and url = "''data/measurements.json''" and url' = "''data/measurements.json''"]
  from w p0 have a: "loadJSON ''data/stations.json'' ''stations'' loader_waiting = (Promise 0, loader_waiting)"
    unfolding k by blast
  from w step_loaded t r
  have b: "loadJSON ''data/stations.json'' ''stations'' (loader_loaded (JObj []))
        = (Value (JObj []), loader_loaded (JObj []))"
    unfolding k by blast
  from w' nh nl
  have c: "fetches (snd (loadJSON ''data/measurements.json'' ''measurements'' loader_waiting))
        = [stations_request, \<lparr>req_url = ''data/measurements.json'', req_key = ''measurements''\<rparr>]"
    and d: "fst (loadJSON ''data/measurements.json'' ''measurements''
             (snd (loadJSON ''data/measurements.json'' ''measurements'' loader_waiting)))
        = Promise 1"
    by (simp_all add: f)
  from run_waiting p0 a step_loaded t r b nh nl c d show ?thesis by (intro conjI)
qed

text \<open>
  C3 as stated, for any body: it fails when the body is \<open>null\<close>. After
  \<open>loadStations()\<close> has been fulfilled with \<open>null\<close>, the next call does not return the
  cached value; the three events issue two network requests.
\<close>

theorem loadJSON_memo_counterexample:
  "\<not> (\<forall>es s p d s1 es' s2 url.
        run new_DataLoader es = Some s \<longrightarrow> step s (Fulfil p d) = Some s1 \<longrightarrow>
        run s1 es' = Some s2 \<longrightarrow>
        loadJSON url (req_key (fetches s ! p)) s2 = (Value d, s2))
   \<and> map_option (\<lambda>s. length (fetches s))
        (run new_DataLoader
           [Call ''data/stations.json'' ''stations'', Fulfil 0 JNull,
            Call ''data/stations.json'' ''stations'']) = Some 2"
proof (rule conjI)
  show "\<not> (\<forall>es s p d s1 es' s2 url.
        run new_DataLoader es = Some s \<longrightarrow> step s (Fulfil p d) = Some s1 \<longrightarrow>
        run s1 es' = Some s2 \<longrightarrow>
        loadJSON url (req_key (fetches s ! p)) s2 = (Value d, s2))"
  proof
    assume "\<forall>es s p d s1 es' s2 url.
        run new_DataLoader es = Some s \<longrightarrow> step s (Fulfil p d) = Some s1 \<longrightarrow>
        run s1 es' = Some s2 \<longrightarrow>
        loadJSON url (req_key (fetches s ! p)) s2 = (Value d, s2)"
    from this [rule_format, OF run_waiting step_loaded [of JNull], where es' = "[]"
        and ?s2.0 = "loader_loaded JNull" and url = "''data/stations.json''"]
    have "loadJSON ''data/stations.json'' (req_key (fetches loader_waiting ! 0)) (loader_loaded JNull)
            = (Value JNull, loader_loaded JNull)"
      by simp
    then show False
      by (simp add: loadJSON_def loader_waiting_def loader_loaded_def stations_request_def)
  qed
  show "map_option (\<lambda>s. length (fetches s))
        (run new_DataLoader
           [Call ''data/stations.json'' ''stations'', Fulfil 0 JNull,
            Call ''data/stations.json'' ''stations'']) = Some 2"
    by (simp add: new_DataLoader_def loadJSON_def pending_def fetch_fulfilled_def Let_def)
qed

section \<open>The error contract of loadAllData\<close>

lemma promise_all_Inr [simp]: "promise_all (Inr x) (Inr y) = Inr (x, y)"
  by (simp add: promise_all_def)

lemma promise_all_Inl_iff: "isl (promise_all a b) \<longleftrightarrow> isl a \<or> isl b"
  by (auto simp: promise_all_def split: sum.splits prod.splits)

lemma promise_all_reason:
  "reason (promise_all a b) = Some e \<Longrightarrow> reason a = Some e \<or> reason b = Some e"
  by (auto simp: promise_all_def reason_def split: sum.splits prod.splits if_splits)

lemma forEach_err_total:
  "(\<And>x s. \<exists>s'. f x s = Inr s') \<Longrightarrow> \<exists>s'. forEach_err f xs s = Inr s'"
proof (induction xs arbitrary: s)
  case Nil
  show ?case by simp
next
  case (Cons x xs)
  from Cons.prems obtain s1 where "f x s = Inr s1" by blast
  moreover from Cons.IH [OF Cons.prems] obtain s' where "forEach_err f xs s1 = Inr s'" by blast
  ultimately show ?case by simp
qed

lemma demo_analyte_total: "\<exists>acc'. demo_analyte env now code entry acc = Inr acc'"
  by (cases entry, cases acc) (simp add: demo_analyte_Inr)

lemma demo_station_total: "\<exists>acc'. demo_station env now ranges entry acc = Inr acc'"
proof -
  obtain code lon lat where e: "entry = (code, lon, lat)" by (cases entry)
  obtain sts mss lvss where a: "acc = (sts, mss, lvss)" by (cases acc)
  from forEach_err_total [of "demo_analyte env now code" ranges "([], [])", OF demo_analyte_total]
  obtain r where "forEach_err (demo_analyte env now code) ranges ([], []) = Inr r" by blast
  then show ?thesis by (cases r) (simp add: e a demo_station_def Let_def)
qed

lemma generateDemoData_total: "\<exists>sts mss lvss. generateDemoData env now ranges = Inr (sts, mss, lvss)"
proof -
  from forEach_err_total [of "demo_station env now ranges" stationCoords "([], [], [])",
      OF demo_station_total]
  obtain r where "generateDemoData env now ranges = Inr r"
    unfolding generateDemoData_def by blast
  then show ?thesis by (cases r) auto
qed

text \<open>
  C4. \<open>loadAllData\<close> returns an aggregate with all four fields or propagates a failure;
  there is no partial result. In the loader without a fallback (src/js/data-loader.js):
  when all four loads are fulfilled the aggregate holds their values, and when any of
  the four loads is rejected the reason of a rejected load is rethrown. In the copy of
  the loader that configures the demo-data fallback for stations, measurements and
  latest values: a rejected load of the analyte ranges, for which no fallback is
  configured, is rethrown; when all four loads are fulfilled the aggregate holds their
  values; and where the fallback applies (the ranges are loaded and one of the other
  three loads is rejected) the aggregate holds the generated demo data and the loaded
  ranges, all four fields again. A failure that reaches \<open>init\<close> of the controller aborts
  it: the data, the map manager and the chart manager stay as they were, the loading
  indicator is hidden and the error message is shown.
\<close>

theorem loadAllData_contract:
  "loadAllData (Inr a) (Inr b) (Inr c) (Inr d)
     = Inr \<lparr>stations = a, measurements = b, latestValues = c, analyteRanges = d\<rparr>
   \<and> (isl st \<or> isl ms \<or> isl lv \<or> isl ar \<longrightarrow>
        (\<exists>e. loadAllData st ms lv ar = Inl e
           \<and> Some e \<in> {reason st, reason ms, reason lv, reason ar}))
   \<and> loadAllData_fallback env now st ms lv (Inl (t, e)) = Inl e
   \<and> loadAllData_fallback env now (Inr a) (Inr b) (Inr c) (Inr d)
     = Inr \<lparr>stations = a, measurements = b, latestValues = c, analyteRanges = d\<rparr>
   \<and> (isl st \<or> isl ms \<or> isl lv \<longrightarrow>
        (\<exists>sts mss lvss. generateDemoData env now d = Inr (sts, mss, lvss)
           \<and> loadAllData_fallback env now st ms lv (Inr d)
             = Inr \<lparr>stations = sts, measurements = mss, latestValues = lvss,
                    analyteRanges = d\<rparr>))
   \<and> ca_data (init boundsZoom select canvas (Inl e) app) = ca_data app
   \<and> ca_map (init boundsZoom select canvas (Inl e) app) = ca_map app
   \<and> ca_chart (init boundsZoom select canvas (Inl e) app) = ca_chart app
   \<and> ca_error (init boundsZoom select canvas (Inl e) app) \<noteq> None
   \<and> \<not> ca_loading (init boundsZoom select canvas (Inl e) app)"
proof (intro conjI impI)
  show "loadAllData (Inr a) (Inr b) (Inr c) (Inr d)
     = Inr \<lparr>stations = a, measurements = b, latestValues = c, analyteRanges = d\<rparr>"
    by (simp add: loadAllData_def)
  show "ca_data (init boundsZoom select canvas (Inl e) app) = ca_data app"
    and "ca_map (init boundsZoom select canvas (Inl e) app) = ca_map app"
    and "ca_chart (init boundsZoom select canvas (Inl e) app) = ca_chart app"
    and "ca_error (init boundsZoom select canvas (Inl e) app) \<noteq> None"
    and "\<not> ca_loading (init boundsZoom select canvas (Inl e) app)"
    by (simp_all add: init_def init_failed_def)
  show "loadAllData_fallback env now st ms lv (Inl (t, e)) = Inl e"
    by (simp add: loadAllData_fallback_def)
  show "loadAllData_fallback env now (Inr a) (Inr b) (Inr c) (Inr d)
     = Inr \<lparr>stations = a, measurements = b, latestValues = c, analyteRanges = d\<rparr>"
    by (simp add: loadAllData_fallback_def)
next
  assume r: "isl st \<or> isl ms \<or> isl lv \<or> isl ar"
  define all where "all = promise_all st (promise_all ms (promise_all lv ar))"
  from r have "isl all" by (simp add: all_def promise_all_Inl_iff)
  then obtain t e where te: "all = Inl (t, e)" by (cases all) auto
  then have "reason all = Some e" by (simp add: reason_def)
  then have "reason st = Some e \<or> reason ms = Some e \<or> reason lv = Some e \<or> reason ar = Some e"
    unfolding all_def by (blast dest: promise_all_reason)
  moreover have "loadAllData st ms lv ar = Inl e"
    by (simp add: loadAllData_def all_def [symmetric] te)
  ultimately show "\<exists>e. loadAllData st ms lv ar = Inl e
           \<and> Some e \<in> {reason st, reason ms, reason lv, reason ar}"
    by auto
next
  assume r: "isl st \<or> isl ms \<or> isl lv"
  define three where "three = promise_all st (promise_all ms lv)"
  from r have "isl three" by (simp add: three_def promise_all_Inl_iff)
  then obtain t e where te: "three = Inl (t, e)" by (cases three) auto
  from generateDemoData_total [of env now d] obtain sts mss lvss where
    g: "generateDemoData env now d = Inr (sts, mss, lvss)" by blast
  have "loadAllData_fallback env now st ms lv (Inr d)
             = Inr \<lparr>stations = sts, measurements = mss, latestValues = lvss,
                    analyteRanges = d\<rparr>"
    by (simp add: loadAllData_fallback_def three_def [symmetric] te g)
  with g show "\<exists>sts mss lvss. generateDemoData env now d = Inr (sts, mss, lvss)
           \<and> loadAllData_fallback env now st ms lv (Inr d)
             = Inr \<lparr>stations = sts, measurements = mss, latestValues = lvss,
                    analyteRanges = d\<rparr>"
    by blast
qed

text \<open>
  The fallback at work: the load of \<open>stations.json\<close> fails with status 404, the ranges
  are the empty object, and the aggregate holds the six demo stations.
\<close>

lemma demo_empty:
  "map_sum id (\<lambda>d. (map fst (stations d), measurements d, analyteRanges d))
      (loadAllData_fallback calm 0 (Inl (0, not_found)) (Inr []) (Inr []) (Inr []))
    = Inr ([''SRA190'', ''SRA161'', ''SRA160'', ''SRA141'', ''SRA120'', ''SRA100''],
           [(''SRA190'', []), (''SRA161'', []), (''SRA160'', []), (''SRA141'', []),
            (''SRA120'', []), (''SRA100'', [])], [])"
  by (simp add: loadAllData_fallback_def promise_all_def generateDemoData_def stationCoords_def
        demo_station_def Let_def)

theorem loadAllData_contract_witness:
  "isl (Inl (0, not_found) :: station obj promise)
   \<and> loadAllData (Inl (0, not_found)) (Inr []) (Inr []) (Inr []) = Inl not_found
   \<and> (\<exists>sts mss lvss. generateDemoData calm 0 [] = Inr (sts, mss, lvss)
        \<and> loadAllData_fallback calm 0 (Inl (0, not_found)) (Inr []) (Inr []) (Inr [])
          = Inr \<lparr>stations = sts, measurements = mss, latestValues = lvss, analyteRanges = []\<rparr>)
   \<and> ca_map (init 15 True True (loadAllData (Inl (0, not_found)) (Inr []) (Inr []) (Inr []))
               new_CreekMonitoringApp) = new_MapManager
   \<and> ca_chart (init 15 True True (loadAllData (Inl (0, not_found)) (Inr []) (Inr []) (Inr []))
               new_CreekMonitoringApp) = new_ChartManager"
proof -
  have h: "isl (Inl (0, not_found) :: station obj promise)" by simp
  note w = loadAllData_contract [where st = "Inl (0, not_found)" and ms = "Inr []"
      and lv = "Inr []" and ar = "Inr []" and env = calm and now = 0 and d = "[]"
      and e = not_found and boundsZoom = 15 and select = True and canvas = True
      and app = new_CreekMonitoringApp]
  from w have "\<exists>e. loadAllData (Inl (0, not_found)) (Inr []) (Inr []) (Inr []) = Inl e
           \<and> Some e \<in> {reason (Inl (0, not_found) :: station obj promise),
                reason (Inr [] :: measurement list obj obj promise),
                reason (Inr [] :: latest_value obj obj promise),
                reason (Inr [] :: analyte_range obj promise)}"
    by simp
  then have a: "loadAllData (Inl (0, not_found)) (Inr []) (Inr []) (Inr []) = Inl not_found"
    by (auto simp: reason_def)
  from w have b: "\<exists>sts mss lvss. generateDemoData calm 0 [] = Inr (sts, mss, lvss)
        \<and> loadAllData_fallback calm 0 (Inl (0, not_found)) (Inr []) (Inr []) (Inr [])
          = Inr \<lparr>stations = sts, measurements = mss, latestValues = lvss, analyteRanges = []\<rparr>"
    by simp
  from w have "ca_map (init 15 True True (Inl not_found) new_CreekMonitoringApp)
        = ca_map new_CreekMonitoringApp"
    and "ca_chart (init 15 True True (Inl not_found) new_CreekMonitoringApp)
        = ca_chart new_CreekMonitoringApp"
    by simp_all
  then have c: "ca_map (init 15 True True (loadAllData (Inl (0, not_found)) (Inr []) (Inr []) (Inr []))
               new_CreekMonitoringApp) = new_MapManager"
    and d: "ca_chart (init 15 True True (loadAllData (Inl (0, not_found)) (Inr []) (Inr []) (Inr []))
               new_CreekMonitoringApp) = new_ChartManager"
    by (simp_all add: a new_CreekMonitoringApp_def)
  from h a b c d show ?thesis by (intro conjI)
qed

section \<open>Series colours and the y-axis title\<close>

lemma palette_nonempty: "c \<in> set colorPalette \<Longrightarrow> c \<noteq> []"
  by (auto simp: colorPalette_def)

lemma palette_nth: "colorPalette ! (n mod length colorPalette) \<in> set colorPalette"
  by (rule nth_mem) (simp add: colorPalette_def)

lemma createDataset_known:
  assumes "colors_ok cs" and "map_of cs a = Some c"
  shows "createDataset data cs a ms n =
           (\<lparr>ds_label = a,
              ds_data = concat (map (\<lambda>m. case m_date m of
                                          None \<Rightarrow> []
                                        | Some d \<Rightarrow> [\<lparr>point_x = d, point_y = m_value m\<rparr>]) ms),
              ds_color = c,
              ds_unit = (case map_of (analyteRanges data) a of
                           None \<Rightarrow> Some [] | Some r \<Rightarrow> range_unit r),
              ds_acceptableRange = map_of (analyteRanges data) a\<rparr>, cs)"
proof -
  from assms have "c \<noteq> []" by (auto simp: colors_ok_def dest: palette_nonempty)
  then show ?thesis using assms(2) by (simp add: createDataset_def Let_def)
qed

lemma createDataset_new:
  assumes "map_of cs a = None"
  shows "createDataset data cs a ms n =
           (\<lparr>ds_label = a,
              ds_data = concat (map (\<lambda>m. case m_date m of
                                          None \<Rightarrow> []
                                        | Some d \<Rightarrow> [\<lparr>point_x = d, point_y = m_value m\<rparr>]) ms),
              ds_color = colorPalette ! (n mod length colorPalette),
              ds_unit = (case map_of (analyteRanges data) a of
                           None \<Rightarrow> Some [] | Some r \<Rightarrow> range_unit r),
              ds_acceptableRange = map_of (analyteRanges data) a\<rparr>,
            AList.update a (colorPalette ! (n mod length colorPalette)) cs)"
  using assms by (simp add: createDataset_def Let_def update_conv')

lemma createDataset_props:
  assumes ok: "colors_ok cs" and r: "createDataset data cs a ms n = (d, cs')"
  shows "ds_label d = a"
    and "map_of cs' a = Some (ds_color d)"
    and "colors_ok cs'"
    and "\<And>b. b \<noteq> a \<Longrightarrow> map_of cs' b = map_of cs b"
    and "\<And>c. map_of cs a = Some c \<Longrightarrow> map_of cs' a = Some c"
    and "map_of cs a = None \<Longrightarrow> ds_color d = colorPalette ! (n mod length colorPalette)"
proof -
  show "ds_label d = a"
    using r by (auto simp: createDataset_def Let_def split: option.splits if_splits)
  show "map_of cs' a = Some (ds_color d)"
  proof (cases "map_of cs a")
    case None
    from r show ?thesis unfolding createDataset_new [OF None] by (auto simp: update_conv')
  next
    case (Some c)
    from r show ?thesis unfolding createDataset_known [OF ok Some] using Some by auto
  qed
  show "colors_ok cs'"
  proof (cases "map_of cs a")
    case None
    from r have "cs' = AList.update a (colorPalette ! (n mod length colorPalette)) cs"
      unfolding createDataset_new [OF None] by simp
    then show ?thesis using ok palette_nth [of n]
      by (auto simp: colors_ok_def update_conv' split: if_splits)
  next
    case (Some c)
    from r show ?thesis unfolding createDataset_known [OF ok Some] using ok by auto
  qed
  show "\<And>b. b \<noteq> a \<Longrightarrow> map_of cs' b = map_of cs b"
  proof (cases "map_of cs a")
    case None
    fix b assume "b \<noteq> a"
    with r show "map_of cs' b = map_of cs b"
      unfolding createDataset_new [OF None] by (auto simp: update_conv')
  next
    case (Some c)
    fix b assume "b \<noteq> a"
    from r show "map_of cs' b = map_of cs b"
      unfolding createDataset_known [OF ok Some] by auto
  qed
  show "\<And>c. map_of cs a = Some c \<Longrightarrow> map_of cs' a = Some c"
  proof -
    fix c assume c: "map_of cs a = Some c"
    from r show "map_of cs' a = Some c"
      unfolding createDataset_known [OF ok c] using c by auto
  qed
  show "map_of cs a = None \<Longrightarrow> ds_color d = colorPalette ! (n mod length colorPalette)"
  proof -
    assume n: "map_of cs a = None"
    from r show ?thesis unfolding createDataset_new [OF n] by auto
  qed
qed

text \<open>One iteration of the loop either leaves the accumulator or pushes one dataset.\<close>

lemma draw_analyte_cases:
  obtains (skip) "draw_analyte data sd a (ds, n, cs) = (ds, n, cs)"
  | (push) d cs' ms where "draw_analyte data sd a (ds, n, cs) = (ds @ [d], n + 1, cs')"
      and "createDataset data cs a ms n = (d, cs')"
proof (cases "map_of sd a")
  case None
  then show ?thesis using skip by (simp add: draw_analyte_def)
next
  case (Some ms)
  show ?thesis
  proof (cases "length ms > 0")
    case True
    obtain d cs' where c: "createDataset data cs a ms n = (d, cs')"
      by (cases "createDataset data cs a ms n")
    with Some True have "draw_analyte data sd a (ds, n, cs) = (ds @ [d], n + 1, cs')"
      by (simp add: draw_analyte_def)
    with c show ?thesis using push by blast
  next
    case False
    with Some show ?thesis using skip by (simp add: draw_analyte_def)
  qed
qed

lemma fold_draw:
  assumes "colors_ok cs0" and "distinct as"
  shows "\<exists>new cs.
      fold (draw_analyte data sd) as (ds0, length ds0, cs0)
        = (ds0 @ new, length ds0 + length new, cs)
    \<and> colors_ok cs
    \<and> (\<forall>a c. map_of cs0 a = Some c \<longrightarrow> map_of cs a = Some c)
    \<and> (\<forall>a. a \<notin> set as \<longrightarrow> map_of cs a = map_of cs0 a)
    \<and> (\<forall>j. j < length new \<longrightarrow>
           ds_label (new ! j) \<in> set as
         \<and> map_of cs (ds_label (new ! j)) = Some (ds_color (new ! j))
         \<and> (map_of cs0 (ds_label (new ! j)) = None \<longrightarrow>
              ds_color (new ! j) = colorPalette ! ((length ds0 + j) mod length colorPalette)))"
  using assms
proof (induction as arbitrary: ds0 cs0)
  case Nil
  have "fold (draw_analyte data sd) [] (ds0, length ds0, cs0) = (ds0 @ [], length ds0 + length ([]::dataset list), cs0)"
    by simp
  with Nil.prems(1) show ?case by (intro exI [of _ "[]"] exI [of _ cs0]) simp
next
  case (Cons a as)
  from Cons.prems(2) have da: "distinct as" and na: "a \<notin> set as" by simp_all
  show ?case
  proof (cases rule: draw_analyte_cases [of data sd a ds0 "length ds0" cs0])
    case skip
    from Cons.IH [OF Cons.prems(1) da, of ds0] obtain new cs where
      f: "fold (draw_analyte data sd) as (ds0, length ds0, cs0)
            = (ds0 @ new, length ds0 + length new, cs)"
      and ok: "colors_ok cs"
      and mono: "\<forall>a c. map_of cs0 a = Some c \<longrightarrow> map_of cs a = Some c"
      and frame: "\<forall>a. a \<notin> set as \<longrightarrow> map_of cs a = map_of cs0 a"
      and each: "\<forall>j. j < length new \<longrightarrow>
           ds_label (new ! j) \<in> set as
         \<and> map_of cs (ds_label (new ! j)) = Some (ds_color (new ! j))
         \<and> (map_of cs0 (ds_label (new ! j)) = None \<longrightarrow>
              ds_color (new ! j) = colorPalette ! ((length ds0 + j) mod length colorPalette))"
      by blast
    have "fold (draw_analyte data sd) (a # as) (ds0, length ds0, cs0)
            = (ds0 @ new, length ds0 + length new, cs)"
      by (simp add: skip f)
    moreover have "\<forall>b. b \<notin> set (a # as) \<longrightarrow> map_of cs b = map_of cs0 b"
      using frame by simp
    moreover have "\<forall>j. j < length new \<longrightarrow>
           ds_label (new ! j) \<in> set (a # as)
         \<and> map_of cs (ds_label (new ! j)) = Some (ds_color (new ! j))
         \<and> (map_of cs0 (ds_label (new ! j)) = None \<longrightarrow>
              ds_color (new ! j) = colorPalette ! ((length ds0 + j) mod length colorPalette))"
      using each by simp
    ultimately show ?thesis using ok mono by blast
  next
    case (push d cs1 ms)
    note cd = createDataset_props [OF Cons.prems(1) push(2)]
    from Cons.IH [OF cd(3) da, of "ds0 @ [d]"] obtain new cs where
      f: "fold (draw_analyte data sd) as (ds0 @ [d], length (ds0 @ [d]), cs1)
            = ((ds0 @ [d]) @ new, length (ds0 @ [d]) + length new, cs)"
      and ok: "colors_ok cs"
      and mono: "\<forall>a c. map_of cs1 a = Some c \<longrightarrow> map_of cs a = Some c"
      and frame: "\<forall>a. a \<notin> set as \<longrightarrow> map_of cs a = map_of cs1 a"
      and each: "\<forall>j. j < length new \<longrightarrow>
           ds_label (new ! j) \<in> set as
         \<and> map_of cs (ds_label (new ! j)) = Some (ds_color (new ! j))
         \<and> (map_of cs1 (ds_label (new ! j)) = None \<longrightarrow>
              ds_color (new ! j)
                = colorPalette ! ((length (ds0 @ [d]) + j) mod length colorPalette))"
      by blast
    have 1: "fold (draw_analyte data sd) (a # as) (ds0, length ds0, cs0)
            = (ds0 @ (d # new), length ds0 + length (d # new), cs)"
      using f by (simp add: push(1))
    have m1: "\<And>x c. map_of cs0 x = Some c \<Longrightarrow> map_of cs1 x = Some c"
    proof -
      fix x c assume "map_of cs0 x = Some c"
      then show "map_of cs1 x = Some c"
        using cd(4) [of x] cd(5) [of c] by (cases "x = a") simp_all
    qed
    have 3: "\<forall>x c. map_of cs0 x = Some c \<longrightarrow> map_of cs x = Some c"
      using m1 mono by blast
    have 4: "\<forall>b. b \<notin> set (a # as) \<longrightarrow> map_of cs b = map_of cs0 b"
      using frame cd(4) by simp
    have 5: "\<forall>j. j < length (d # new) \<longrightarrow>
           ds_label ((d # new) ! j) \<in> set (a # as)
         \<and> map_of cs (ds_label ((d # new) ! j)) = Some (ds_color ((d # new) ! j))
         \<and> (map_of cs0 (ds_label ((d # new) ! j)) = None \<longrightarrow>
              ds_color ((d # new) ! j)
                = colorPalette ! ((length ds0 + j) mod length colorPalette))"
    proof (intro allI impI)
      fix j assume j: "j < length (d # new)"
      show "ds_label ((d # new) ! j) \<in> set (a # as)
         \<and> map_of cs (ds_label ((d # new) ! j)) = Some (ds_color ((d # new) ! j))
         \<and> (map_of cs0 (ds_label ((d # new) ! j)) = None \<longrightarrow>
              ds_color ((d # new) ! j)
                = colorPalette ! ((length ds0 + j) mod length colorPalette))"
      proof (cases j)
        case 0
        have "map_of cs a = Some (ds_color d)"
          using frame na cd(2) by simp
        then show ?thesis using 0 cd(1) cd(6) by simp
      next
        case (Suc i)
        with j have i: "i < length new" by simp
        from each i have l: "ds_label (new ! i) \<in> set as"
          and c: "map_of cs (ds_label (new ! i)) = Some (ds_color (new ! i))"
          and p: "map_of cs1 (ds_label (new ! i)) = None \<longrightarrow>
              ds_color (new ! i)
                = colorPalette ! ((length (ds0 @ [d]) + i) mod length colorPalette)"
          by blast+
        from l na have "ds_label (new ! i) \<noteq> a" by auto
        then have "map_of cs1 (ds_label (new ! i)) = map_of cs0 (ds_label (new ! i))"
          by (rule cd(4))
        with l c p show ?thesis by (simp add: Suc)
      qed
    qed
    from 1 ok 3 4 5 show ?thesis by blast
  qed
qed

lemma fitAxesToData_datasets: "chart_datasets (fitAxesToData c) = chart_datasets c"
  by (simp add: fitAxesToData_def Let_def split: list.splits)

lemma updateChart_cases:
  obtains (same) "state_of (updateChart s) = s"
  | (threw) "state_of (updateChart s) = s\<lparr>cm_config := (cm_config s)\<lparr>chart_datasets := []\<rparr>\<rparr>"
  | (drawn) data sd ttl yt datasets n colors where
      "fold (draw_analyte data sd) (cm_visibleAnalytes s) ([], 0, cm_analyteColors s)
             = (datasets, n, colors)"
      and "state_of (updateChart s) =
             s\<lparr>cm_config := fitAxesToData ((cm_config s)\<lparr>chart_datasets := datasets,
                                   chart_title := ttl, chart_y_title := yt\<rparr>),
               cm_analyteColors := colors\<rparr>"
proof (cases "cm_chart s")
  case False
  then show ?thesis using same by (simp add: updateChart_def)
next
  case ch: True
  show ?thesis
  proof (cases "cm_currentStation s")
    case None
    then show ?thesis using same ch by (simp add: updateChart_def)
  next
    case st: (Some station)
    show ?thesis
    proof (cases "station = []")
      case True
      then show ?thesis using same ch st by (simp add: updateChart_def)
    next
      case ne: False
      show ?thesis
      proof (cases "cm_data s")
        case None
        then show ?thesis using same ch st ne by (simp add: updateChart_def)
      next
        case d: (Some data)
        show ?thesis
        proof (cases "map_of (measurements data) station = None \<and> cm_visibleAnalytes s \<noteq> []")
          case True
          then have "state_of (updateChart s)
              = s\<lparr>cm_config := (cm_config s)\<lparr>chart_datasets := []\<rparr>\<rparr>"
            using ch st ne d by (simp add: updateChart_def Let_def)
          then show ?thesis using threw by blast
        next
          case False
          define sd where "sd = (case map_of (measurements data) station of
                                   None \<Rightarrow> [] | Some sd \<Rightarrow> sd)"
          obtain datasets n colors where
            f: "fold (draw_analyte data sd) (cm_visibleAnalytes s) ([], 0, cm_analyteColors s)
                  = (datasets, n, colors)"
            by (cases "fold (draw_analyte data sd) (cm_visibleAnalytes s)
                         ([], 0, cm_analyteColors s)") auto
          define ttl where "ttl = ''Water Quality Time Series - '' @
              (case map_of (stations data) station of
                 None \<Rightarrow> station
               | Some info \<Rightarrow> (case st_name info of None \<Rightarrow> ''undefined'' | Some n \<Rightarrow> n))"
          define yt where "yt = updateYAxisTitle (analyteRanges data) (cm_visibleAnalytes s)"
          have "updateChart s = Returned
             (s\<lparr>cm_config := fitAxesToData ((cm_config s)\<lparr>chart_datasets := datasets,
                                   chart_title := ttl, chart_y_title := yt\<rparr>),
               cm_analyteColors := colors\<rparr>)"
            unfolding updateChart_def Let_def st d ttl_def yt_def
            using ch ne False f [unfolded sd_def] by simp
          then have "state_of (updateChart s) =
             s\<lparr>cm_config := fitAxesToData ((cm_config s)\<lparr>chart_datasets := datasets,
                                   chart_title := ttl, chart_y_title := yt\<rparr>),
               cm_analyteColors := colors\<rparr>"
            by simp
          with f show ?thesis using drawn by blast
        qed
      qed
    qed
  qed
qed

lemma updateChart_effect:
  assumes inv: "cm_inv s"
  shows "cm_inv (state_of (updateChart s))
    \<and> (\<forall>a c. map_of (cm_analyteColors s) a = Some c \<longrightarrow>
          map_of (cm_analyteColors (state_of (updateChart s))) a = Some c)
    \<and> (\<forall>i. i < length (chart_datasets (cm_config (state_of (updateChart s)))) \<longrightarrow>
          map_of (cm_analyteColors s)
            (ds_label (chart_datasets (cm_config (state_of (updateChart s))) ! i)) = None \<longrightarrow>
          ds_color (chart_datasets (cm_config (state_of (updateChart s))) ! i)
            = colorPalette ! (i mod length colorPalette))"
proof (cases s rule: updateChart_cases)
  case same
  have "\<And>i. i < length (chart_datasets (cm_config s)) \<Longrightarrow>
          map_of (cm_analyteColors s) (ds_label (chart_datasets (cm_config s) ! i)) \<noteq> None"
    using inv unfolding cm_inv_def by (metis nth_mem option.distinct(1))
  then have "\<forall>i. i < length (chart_datasets (cm_config s)) \<longrightarrow>
          map_of (cm_analyteColors s) (ds_label (chart_datasets (cm_config s) ! i)) = None \<longrightarrow>
          ds_color (chart_datasets (cm_config s) ! i) = colorPalette ! (i mod length colorPalette)"
    by blast
  with inv show ?thesis unfolding same by blast
next
  case threw
  have "cm_inv (s\<lparr>cm_config := (cm_config s)\<lparr>chart_datasets := []\<rparr>\<rparr>)"
    using inv by (simp add: cm_inv_def)
  then show ?thesis by (simp add: threw)
next
  case (drawn data sd ttl yt datasets n colors)
  from inv have ok: "colors_ok (cm_analyteColors s)" and dv: "distinct (cm_visibleAnalytes s)"
    by (simp_all add: cm_inv_def)
  from fold_draw [OF ok dv, of data sd "[]"] drawn(1)
  have ok': "colors_ok colors"
    and mono: "\<forall>a c. map_of (cm_analyteColors s) a = Some c \<longrightarrow> map_of colors a = Some c"
    and each: "\<forall>j. j < length datasets \<longrightarrow>
           map_of colors (ds_label (datasets ! j)) = Some (ds_color (datasets ! j))
         \<and> (map_of (cm_analyteColors s) (ds_label (datasets ! j)) = None \<longrightarrow>
              ds_color (datasets ! j) = colorPalette ! (j mod length colorPalette))"
    by auto
  have "\<forall>d. d \<in> set datasets \<longrightarrow> map_of colors (ds_label d) = Some (ds_color d)"
    using each by (metis in_set_conv_nth)
  then have "cm_inv (state_of (updateChart s))"
    using dv ok' by (simp add: drawn(2) cm_inv_def fitAxesToData_datasets)
  then show ?thesis
    using mono each by (simp add: drawn(2) fitAxesToData_datasets)
qed

lemma distinct_new_Set: "distinct (new_Set xs)"
  unfolding new_Set_def by (rule distinct_fold_set_add) simp

lemma cm_inv_new: "cm_inv new_ChartManager"
  by (simp add: cm_inv_def new_ChartManager_def colors_ok_def config_def)

lemma cm_inv_visible:
  "cm_inv s \<Longrightarrow> distinct v \<Longrightarrow> cm_inv (s\<lparr>cm_visibleAnalytes := v\<rparr>)"
  by (simp add: cm_inv_def)

lemma cm_inv_station: "cm_inv s \<Longrightarrow> cm_inv (s\<lparr>cm_currentStation := st\<rparr>)"
  by (simp add: cm_inv_def)

lemma cm_inv_clearChart: "cm_inv s \<Longrightarrow> cm_inv (clearChart s)"
  by (auto simp: cm_inv_def clearChart_def Let_def)

lemma clearChart_colors: "cm_analyteColors (clearChart s) = cm_analyteColors s"
  by (simp add: clearChart_def Let_def)

lemma clearChart_datasets:
  "chart_datasets (cm_config (clearChart s)) = [] \<or> cm_config (clearChart s) = cm_config s"
  by (simp add: clearChart_def Let_def)

text \<open>The effect of one call on the colours, for a state that satisfies the invariant.\<close>

lemma effect_same_colors:
  assumes "cm_inv s'" and "cm_analyteColors s' = cm_analyteColors s"
    and "chart_datasets (cm_config s') = [] \<or> cm_config s' = cm_config s"
    and "cm_inv s"
  shows "cm_inv s'
    \<and> (\<forall>a c. map_of (cm_analyteColors s) a = Some c \<longrightarrow>
          map_of (cm_analyteColors s') a = Some c)
    \<and> (\<forall>i. i < length (chart_datasets (cm_config s')) \<longrightarrow>
          map_of (cm_analyteColors s) (ds_label (chart_datasets (cm_config s') ! i)) = None \<longrightarrow>
          ds_color (chart_datasets (cm_config s') ! i) = colorPalette ! (i mod length colorPalette))"
proof (intro conjI allI impI)
  show "cm_inv s'" by (rule assms(1))
  fix a c assume "map_of (cm_analyteColors s) a = Some c"
  then show "map_of (cm_analyteColors s') a = Some c" by (simp add: assms(2))
next
  fix i
  assume i: "i < length (chart_datasets (cm_config s'))"
    and n: "map_of (cm_analyteColors s) (ds_label (chart_datasets (cm_config s') ! i)) = None"
  from assms(3) i have e: "cm_config s' = cm_config s" by auto
  with assms(4) i have "map_of (cm_analyteColors s) (ds_label (chart_datasets (cm_config s') ! i))
      = Some (ds_color (chart_datasets (cm_config s') ! i))"
    unfolding cm_inv_def by (metis nth_mem)
  with n show "ds_color (chart_datasets (cm_config s') ! i) = colorPalette ! (i mod length colorPalette)"
    by simp
qed

lemma do_call_effect:
  assumes inv: "cm_inv s"
  shows "cm_inv (do_call call s)
    \<and> (\<forall>a c. map_of (cm_analyteColors s) a = Some c \<longrightarrow>
          map_of (cm_analyteColors (do_call call s)) a = Some c)
    \<and> (\<forall>i. i < length (chart_datasets (cm_config (do_call call s))) \<longrightarrow>
          map_of (cm_analyteColors s)
            (ds_label (chart_datasets (cm_config (do_call call s)) ! i)) = None \<longrightarrow>
          ds_color (chart_datasets (cm_config (do_call call s)) ! i)
            = colorPalette ! (i mod length colorPalette))"
proof (cases call)
  case (InitChart data canvas)
  show ?thesis unfolding InitChart do_call.simps
  proof (rule effect_same_colors [OF _ _ _ inv])
    show "cm_inv (initChart data canvas s)"
      using inv by (auto simp: initChart_def Let_def cm_inv_def)
    show "cm_analyteColors (initChart data canvas s) = cm_analyteColors s"
      by (simp add: initChart_def Let_def)
    show "chart_datasets (cm_config (initChart data canvas s)) = []
            \<or> cm_config (initChart data canvas s) = cm_config s"
      by (simp add: initChart_def Let_def)
  qed
next
  case (ShowStation stationCode visibleAnalytes)
  define s0 where "s0 = s\<lparr>cm_currentStation := Some stationCode,
                cm_visibleAnalytes := new_Set visibleAnalytes\<rparr>"
  have i0: "cm_inv s0"
    unfolding s0_def by (intro cm_inv_visible cm_inv_station inv distinct_new_Set)
  have c0: "cm_analyteColors s0 = cm_analyteColors s" and ch0: "cm_config s0 = cm_config s"
    by (simp_all add: s0_def)
  have "do_call call s = s0 \<or> do_call call s = clearChart s0
      \<or> do_call call s = state_of (updateChart s0)"
    unfolding ShowStation do_call.simps showStation_def Let_def s0_def [symmetric]
    by simp
  then consider (a) "do_call call s = s0" | (b) "do_call call s = clearChart s0"
    | (c) "do_call call s = state_of (updateChart s0)"
    by blast
  then show ?thesis
  proof cases
    case a
    show ?thesis unfolding a
      by (rule effect_same_colors [OF i0 c0 _ inv]) (simp add: ch0)
  next
    case b
    show ?thesis unfolding b
      by (rule effect_same_colors [OF cm_inv_clearChart [OF i0] _ _ inv])
         (use clearChart_datasets [of s0] in \<open>simp_all add: clearChart_colors c0 ch0\<close>)
  next
    case c
    show ?thesis unfolding c using updateChart_effect [OF i0] by (simp add: c0)
  qed
next
  case (ToggleAnalyte analyte visible)
  define s0 where "s0 = s\<lparr>cm_visibleAnalytes :=
            (if visible then set_add analyte (cm_visibleAnalytes s)
             else removeAll analyte (cm_visibleAnalytes s))\<rparr>"
  have "distinct (cm_visibleAnalytes s)" using inv by (simp add: cm_inv_def)
  then have i0: "cm_inv s0"
    unfolding s0_def by (intro cm_inv_visible inv) (simp add: distinct_set_add distinct_removeAll)
  have c0: "cm_analyteColors s0 = cm_analyteColors s" by (simp add: s0_def)
  have "do_call call s = state_of (updateChart s0)"
    by (simp add: ToggleAnalyte toggleAnalyte_def s0_def)
  then show ?thesis using updateChart_effect [OF i0] by (simp add: c0)
next
  case (SetVisibleAnalytes analytes)
  define s0 where "s0 = s\<lparr>cm_visibleAnalytes := new_Set analytes\<rparr>"
  have i0: "cm_inv s0"
    unfolding s0_def by (intro cm_inv_visible inv distinct_new_Set)
  have c0: "cm_analyteColors s0 = cm_analyteColors s" by (simp add: s0_def)
  have "do_call call s = state_of (updateChart s0)"
    by (simp add: SetVisibleAnalytes setVisibleAnalytes_def s0_def)
  then show ?thesis using updateChart_effect [OF i0] by (simp add: c0)
next
  case ClearChart
  show ?thesis unfolding ClearChart do_call.simps
    by (rule effect_same_colors [OF cm_inv_clearChart [OF inv] _ _ inv])
       (use clearChart_datasets [of s] in \<open>simp_all add: clearChart_colors\<close>)
next
  case Destroy
  show ?thesis unfolding Destroy do_call.simps
    by (rule effect_same_colors [OF _ _ _ inv]) (use inv in \<open>simp_all add: destroy_def cm_inv_def\<close>)
qed

lemma chart_session_inv:
  "cm_inv s \<Longrightarrow> cm_inv (chart_session calls s)
     \<and> (\<forall>a c. map_of (cm_analyteColors s) a = Some c \<longrightarrow>
           map_of (cm_analyteColors (chart_session calls s)) a = Some c)"
proof (induction calls arbitrary: s)
  case Nil
  then show ?case by (simp add: chart_session_def)
next
  case (Cons call calls)
  from do_call_effect [OF Cons.prems, of call]
  have i1: "cm_inv (do_call call s)"
    and m1: "\<forall>a c. map_of (cm_analyteColors s) a = Some c \<longrightarrow>
          map_of (cm_analyteColors (do_call call s)) a = Some c"
    by blast+
  from Cons.IH [OF i1] m1 show ?case by (simp add: chart_session_def)
qed

text \<open>
  The stability of the colours. In every state of a session of the chart manager, a
  colour stored for an analyte is one of the palette, it stays stored for that analyte
  through any later calls (\<open>initChart\<close>, \<open>showStation\<close>, \<open>toggleAnalyte\<close>,
  \<open>setVisibleAnalytes\<close>, \<open>clearChart\<close>, \<open>destroy\<close>), and every dataset drawn for the
  analyte later has that colour.
\<close>

lemma analyteColors_kept:
  assumes "s = chart_session before new_ChartManager"
    and "map_of (cm_analyteColors s) a = Some c"
  shows "c \<in> set colorPalette"
    and "map_of (cm_analyteColors (chart_session later s)) a = Some c"
    and "\<forall>d. d \<in> set (chart_datasets (cm_config (chart_session later s))) \<longrightarrow>
              ds_label d = a \<longrightarrow> ds_color d = c"
proof -
  have inv: "cm_inv s"
    unfolding assms(1) using chart_session_inv [OF cm_inv_new] by blast
  from chart_session_inv [OF inv, of later]
  have inv': "cm_inv (chart_session later s)"
    and mono: "\<forall>a c. map_of (cm_analyteColors s) a = Some c \<longrightarrow>
           map_of (cm_analyteColors (chart_session later s)) a = Some c"
    by blast+
  from inv assms(2) show "c \<in> set colorPalette" by (auto simp: cm_inv_def colors_ok_def)
  from mono assms(2) show l: "map_of (cm_analyteColors (chart_session later s)) a = Some c"
    by blast
  show "\<forall>d. d \<in> set (chart_datasets (cm_config (chart_session later s))) \<longrightarrow>
              ds_label d = a \<longrightarrow> ds_color d = c"
  proof (intro allI impI)
    fix d
    assume "d \<in> set (chart_datasets (cm_config (chart_session later s)))" "ds_label d = a"
    with inv' have "map_of (cm_analyteColors (chart_session later s)) a = Some (ds_color d)"
      by (auto simp: cm_inv_def)
    with l show "ds_color d = c" by simp
  qed
qed

text \<open>
  The colour of a new analyte. An analyte that has no colour before a call and is drawn
  by it at position \<open>i\<close> of the datasets receives the palette colour \<open>i mod 10\<close>: the
  position counts the series of that redraw.
\<close>

lemma analyteColors_assigned:
  assumes "s = chart_session before new_ChartManager"
    and "i < length (chart_datasets (cm_config (do_call call s)))"
    and "map_of (cm_analyteColors s)
           (ds_label (chart_datasets (cm_config (do_call call s)) ! i)) = None"
  shows "ds_color (chart_datasets (cm_config (do_call call s)) ! i)
           = colorPalette ! (i mod length colorPalette)"
    and "map_of (cm_analyteColors (do_call call s))
           (ds_label (chart_datasets (cm_config (do_call call s)) ! i))
           = Some (colorPalette ! (i mod length colorPalette))"
proof -
  have inv: "cm_inv s"
    unfolding assms(1) using chart_session_inv [OF cm_inv_new] by blast
  from do_call_effect [OF inv, of call] assms(2,3)
  show c: "ds_color (chart_datasets (cm_config (do_call call s)) ! i)
           = colorPalette ! (i mod length colorPalette)"
    by blast
  from do_call_effect [OF inv, of call] have "cm_inv (do_call call s)" by blast
  with assms(2) have "map_of (cm_analyteColors (do_call call s))
      (ds_label (chart_datasets (cm_config (do_call call s)) ! i))
        = Some (ds_color (chart_datasets (cm_config (do_call call s)) ! i))"
    unfolding cm_inv_def by (metis nth_mem)
  with c show "map_of (cm_analyteColors (do_call call s))
           (ds_label (chart_datasets (cm_config (do_call call s)) ! i))
           = Some (colorPalette ! (i mod length colorPalette))"
    by simp
qed

text \<open>
  C5, the code at the failing input. On the chart of station SRA100 Temperature is
  shown, then switched off; pH is switched on, and Temperature is switched on again.
  pH, the second analyte seen in the session, is given the first colour of the palette,
  which Temperature holds already, and the chart draws both series in \<open>#28a745\<close>. By
  first-seen order pH has the second colour of the palette, \<open>#007bff\<close>.
\<close>

theorem analyteColors_shared_color:
  "map (\<lambda>d. (ds_label d, ds_color d))
     (chart_datasets (cm_config
        (chart_session [InitChart one_station True, ShowStation ''SRA100'' [''Temperature''],
                        ToggleAnalyte ''Temperature'' False, ToggleAnalyte ''pH'' True,
                        ToggleAnalyte ''Temperature'' True] new_ChartManager)))
     = [(''pH'', ''#28a745''), (''Temperature'', ''#28a745'')]
   \<and> cm_analyteColors
        (chart_session [InitChart one_station True, ShowStation ''SRA100'' [''Temperature''],
                        ToggleAnalyte ''Temperature'' False, ToggleAnalyte ''pH'' True,
                        ToggleAnalyte ''Temperature'' True] new_ChartManager)
     = [(''Temperature'', ''#28a745''), (''pH'', ''#28a745'')]
   \<and> \<not> first_seen_order
        (cm_analyteColors
           (chart_session [InitChart one_station True, ShowStation ''SRA100'' [''Temperature''],
                           ToggleAnalyte ''Temperature'' False, ToggleAnalyte ''pH'' True,
                           ToggleAnalyte ''Temperature'' True] new_ChartManager))
   \<and> first_seen_order [(''Temperature'', ''#28a745''), (''pH'', ''#007bff'')]"
proof -
  have d: "map (\<lambda>d. (ds_label d, ds_color d))
     (chart_datasets (cm_config
        (chart_session [InitChart one_station True, ShowStation ''SRA100'' [''Temperature''],
                        ToggleAnalyte ''Temperature'' False, ToggleAnalyte ''pH'' True,
                        ToggleAnalyte ''Temperature'' True] new_ChartManager)))
     = [(''pH'', ''#28a745''), (''Temperature'', ''#28a745'')]"
    by code_simp
  have c: "cm_analyteColors
        (chart_session [InitChart one_station True, ShowStation ''SRA100'' [''Temperature''],
                        ToggleAnalyte ''Temperature'' False, ToggleAnalyte ''pH'' True,
                        ToggleAnalyte ''Temperature'' True] new_ChartManager)
     = [(''Temperature'', ''#28a745''), (''pH'', ''#28a745'')]"
    by code_simp
  have n: "\<not> first_seen_order [(''Temperature'', ''#28a745''), (''pH'', ''#28a745'')]"
    by (simp add: first_seen_order_def colorPalette_def upt_rec)
  have f: "first_seen_order [(''Temperature'', ''#28a745''), (''pH'', ''#007bff'')]"
    by (simp add: first_seen_order_def colorPalette_def upt_rec)
  from d c n f show ?thesis by (simp only: simp_thms)
qed

text \<open>
  C6, the code at the failing input: Temperature has the unit C, pH has none, and with
  both visible \<open>updateYAxisTitle\<close> sets the title \<open>Value (C)\<close>, a label with a unit,
  where the claim asks for the generic label.
\<close>

theorem updateYAxisTitle_mixed_units:
  "updateYAxisTitle (analyteRanges one_station) [''Temperature'', ''pH''] = ''Value (C)''
   \<and> unit_of (analyteRanges one_station) ''Temperature'' = Some ''C''
   \<and> unit_of (analyteRanges one_station) ''pH'' = None"
  by (simp add: updateYAxisTitle_def one_station_def ph_range_def unit_of_def truthy_unit_def
        new_Set_def set_add_def Let_def)

section \<open>Station markers\<close>

lemma forEach_out_preserves:
  assumes "\<And>x s. Q (state_of (f x s)) = Q s"
  shows "Q (state_of (forEach_out f xs s)) = Q s"
proof (induction xs arbitrary: s)
  case Nil
  show ?case by simp
next
  case (Cons x xs)
  show ?case
  proof (cases "f x s")
    case (Returned s')
    then have "Q s' = Q s" using assms [of x s] by simp
    with Cons.IH [of s'] Returned show ?thesis by simp
  next
    case (Threw e s')
    then show ?thesis using assms [of x s] by simp
  qed
qed

lemma blank_update:
  assumes "blank (f (xs ! i)) = blank (xs ! i)"
  shows "map blank (xs[i := f (xs ! i)]) = map blank xs"
proof (cases "i < length xs")
  case True
  have "map blank (xs[i := f (xs ! i)]) = (map blank xs)[i := blank (xs ! i)]"
    by (simp add: map_update assms)
  also have "\<dots> = map blank xs"
    using True by (simp add: list_update_same_conv)
  finally show ?thesis .
next
  case False
  then have "xs[i := f (xs ! i)] = xs" by (simp add: list_update_beyond)
  then show ?thesis by simp
qed

lemma blank_fill: "blank (mk\<lparr>mk_fillColor := c\<rparr>) = blank mk"
  by (simp add: blank_def)

lemma blank_popup: "blank (mk\<lparr>mk_popup := p\<rparr>) = blank mk"
  by (simp add: blank_def)

lemma blank_store_fill:
  "map blank (st[i := (st ! i)\<lparr>mk_fillColor := c\<rparr>]) = map blank st"
  by (rule blank_update) (rule blank_fill)

lemma blank_store_popup:
  "map blank (st[i := (st ! i)\<lparr>mk_popup := q\<rparr>]) = map blank st"
  by (rule blank_update) (rule blank_popup)

lemma recolor_cases:
  obtains (same) "state_of (recolor analyte (code, ident) s) = s"
  | (fill) c where "state_of (recolor analyte (code, ident) s)
        = s\<lparr>mm_store := (mm_store s)[ident := (mm_store s ! ident)\<lparr>mk_fillColor := c\<rparr>]\<rparr>"
  | (both) c q st' where "st' = (mm_store s)[ident := (mm_store s ! ident)\<lparr>mk_fillColor := c\<rparr>]"
      and "state_of (recolor analyte (code, ident) s)
        = s\<lparr>mm_store := st'[ident := (st' ! ident)\<lparr>mk_popup := q\<rparr>]\<rparr>"
proof (cases "mm_data s")
  case None
  show ?thesis
  proof (cases "selected analyte = None")
    case True
    with None have "state_of (recolor analyte (code, ident) s)
        = s\<lparr>mm_store := (mm_store s)
             [ident := (mm_store s ! ident)\<lparr>mk_fillColor := marker_color ''no_data''\<rparr>]\<rparr>"
      by (simp add: recolor_def)
    then show ?thesis by (rule fill)
  next
    case False
    with None have "state_of (recolor analyte (code, ident) s) = s"
      by (simp add: recolor_def)
    then show ?thesis by (rule same)
  qed
next
  case (Some data)
  define c where "c = marker_color (case latest_for data code analyte of
                                      None \<Rightarrow> ''no_data'' | Some lv \<Rightarrow> lv_status lv)"
  define st' where "st' = (mm_store s)[ident := (mm_store s ! ident)\<lparr>mk_fillColor := c\<rparr>]"
  show ?thesis
  proof (cases "map_of (stations data) code")
    case None
    with Some have "state_of (recolor analyte (code, ident) s)
        = s\<lparr>mm_store := (mm_store s)[ident := (mm_store s ! ident)\<lparr>mk_fillColor := c\<rparr>]\<rparr>"
      by (simp add: recolor_def Let_def c_def)
    then show ?thesis by (rule fill)
  next
    case st: (Some station)
    have "state_of (recolor analyte (code, ident) s)
        = s\<lparr>mm_store := st'[ident := (st' ! ident)
            \<lparr>mk_popup := Some (createPopupContent code station analyte
                                  (latest_for data code analyte))\<rparr>]\<rparr>"
      unfolding st'_def c_def recolor_def Let_def prod.case Some option.case st
      by (simp del: nth_list_update_eq nth_list_update list_update_overwrite)
    with st'_def show ?thesis by (rule both)
  qed
qed

lemma recolor_frame:
  "(\<lambda>s. (mm_markers s, mm_map s, mm_data s, map blank (mm_store s)))
      (state_of (recolor analyte entry s))
   = (mm_markers s, mm_map s, mm_data s, map blank (mm_store s))"
proof -
  obtain code ident where e: "entry = (code, ident)" by (cases entry)
  have "(\<lambda>s. (mm_markers s, mm_map s, mm_data s, map blank (mm_store s)))
      (state_of (recolor analyte (code, ident) s))
   = (mm_markers s, mm_map s, mm_data s, map blank (mm_store s))"
  proof (cases analyte code ident s rule: recolor_cases)
    case same
    then show ?thesis by simp
  next
    case (fill c)
    then show ?thesis by (simp add: blank_store_fill)
  next
    case (both c q st')
    have "map blank (st'[ident := (st' ! ident)\<lparr>mk_popup := q\<rparr>]) = map blank st'"
      by (rule blank_store_popup)
    also have "\<dots> = map blank (mm_store s)"
      unfolding both(1) by (rule blank_store_fill)
    finally show ?thesis by (simp add: both(2))
  qed
  then show ?thesis by (simp only: e)
qed

text \<open>
  C8. \<open>updateMarkerColors\<close> changes no more than the fill colour and the popup of
  markers: in the state it returns or throws in, \<open>this.markers\<close> is the same object
  with the same keys and markers, the map with its layers and its view is unchanged,
  and the markers of the store are the same once colour and popup are blanked (so no
  marker is created or removed and position and radius stay).
\<close>

theorem updateMarkerColors_frame:
  "mm_markers (state_of (updateMarkerColors analyte s)) = mm_markers s
   \<and> mm_map (state_of (updateMarkerColors analyte s)) = mm_map s
   \<and> map blank (mm_store (state_of (updateMarkerColors analyte s))) = map blank (mm_store s)
   \<and> mm_data (state_of (updateMarkerColors analyte s)) = mm_data s"
proof -
  have "(\<lambda>s. (mm_markers s, mm_map s, mm_data s, map blank (mm_store s)))
          (state_of (forEach_out (recolor analyte) (mm_markers s)
                       (s\<lparr>mm_currentAnalyte := analyte\<rparr>)))
        = (\<lambda>s. (mm_markers s, mm_map s, mm_data s, map blank (mm_store s)))
            (s\<lparr>mm_currentAnalyte := analyte\<rparr>)"
    by (rule forEach_out_preserves) (rule recolor_frame)
  then show ?thesis by (simp add: updateMarkerColors_def)
qed

lemma marker_color_spec: "marker_color status = status_color status"
  by (simp add: marker_color_def no_data_color_def status_color_def markerColors_def)

lemma update_fresh: "k \<notin> fst ` set al \<Longrightarrow> AList.update k v al = al @ [(k, v)]"
  by (induction al) auto

lemma remove_loop:
  "mm_map s = Some m \<Longrightarrow>
   forEach_out
     (\<lambda>ident s. case mm_map s of
                    None \<Rightarrow> Threw TypeError s
                  | Some m \<Rightarrow>
                      Returned (s\<lparr>mm_map := Some (m\<lparr>lm_layers := removeAll ident (lm_layers m)\<rparr>)\<rparr>))
     ids s
   = Returned (s\<lparr>mm_map := Some (m\<lparr>lm_layers := filter (\<lambda>x. x \<notin> set ids) (lm_layers m)\<rparr>)\<rparr>)"
proof (induction ids arbitrary: s m)
  case Nil
  then show ?case by simp
next
  case (Cons i ids)
  define m1 where "m1 = m\<lparr>lm_layers := removeAll i (lm_layers m)\<rparr>"
  define s1 where "s1 = s\<lparr>mm_map := Some m1\<rparr>"
  have "mm_map s1 = Some m1" by (simp add: s1_def)
  from Cons.IH [OF this]
  show ?case
    using Cons.prems
    by (simp add: s1_def [symmetric] m1_def [symmetric])
       (simp add: s1_def m1_def removeAll_filter_not_eq eq_commute [of i])
qed

lemma clearMarkers_Returned:
  assumes "mm_map s = Some m" and "set (lm_layers m) \<subseteq> snd ` set (mm_markers s)"
  shows "clearMarkers s = Returned (s\<lparr>mm_map := Some (m\<lparr>lm_layers := []\<rparr>), mm_markers := []\<rparr>)"
proof -
  have "filter (\<lambda>x. x \<notin> set (map snd (mm_markers s))) (lm_layers m) = []"
    using assms(2) by (auto simp: filter_empty_conv)
  then show ?thesis
    unfolding clearMarkers_def remove_loop [OF assms(1)] by simp
qed

lemma latest_lookup_data:
  "latest_lookup (Some data) code analyte = Inr (latest_for data code analyte)"
  by (simp add: latest_lookup_def latest_for_def split: option.splits)

lemma add_loop:
  assumes "mm_data s = Some data"
  shows "mm_map s = Some m \<Longrightarrow> distinct (map fst sts) \<Longrightarrow>
    fst ` set sts \<inter> fst ` set (mm_markers s) = {} \<Longrightarrow> mm_data s = Some data \<Longrightarrow>
    forEach_out (\<lambda>(code, st). addStationMarker code st analyte) sts s
    = Returned
        (s\<lparr>mm_store := mm_store s
              @ map (\<lambda>(code, st). station_marker code st analyte (latest_for data code analyte)) sts,
           mm_map := Some (m\<lparr>lm_layers := lm_layers m
              @ [length (mm_store s) ..< length (mm_store s) + length sts]\<rparr>),
           mm_markers := mm_markers s
              @ zip (map fst sts) [length (mm_store s) ..< length (mm_store s) + length sts]\<rparr>)"
proof (induction sts arbitrary: s m)
  case Nil
  then show ?case by simp
next
  case (Cons e sts)
  obtain code st where e: "e = (code, st)" by (cases e)
  define n where "n = length (mm_store s)"
  define mk where "mk = station_marker code st analyte (latest_for data code analyte)"
  define m1 where "m1 = m\<lparr>lm_layers := lm_layers m @ [n]\<rparr>"
  define s1 where "s1 = s\<lparr>mm_store := mm_store s @ [mk], mm_map := Some m1,
                       mm_markers := mm_markers s @ [(code, n)]\<rparr>"
  from Cons.prems(3) e have fresh: "code \<notin> fst ` set (mm_markers s)" by auto
  have step: "addStationMarker code st analyte s = Returned s1"
    using Cons.prems(1,4)
    by (simp add: addStationMarker_def latest_lookup_data Let_def s1_def m1_def mk_def n_def
          update_fresh [OF fresh])
  have p1: "mm_map s1 = Some m1" and p4: "mm_data s1 = Some data"
    using Cons.prems(4) by (simp_all add: s1_def)
  from Cons.prems(2) e have p2: "distinct (map fst sts)" and nc: "code \<notin> fst ` set sts"
    by (auto simp: image_iff)
  from Cons.prems(3) nc have p3: "fst ` set sts \<inter> fst ` set (mm_markers s1) = {}"
    by (auto simp: s1_def)
  have len: "length (mm_store s1) = Suc n" by (simp add: s1_def n_def)
  have u: "[n ..< Suc (n + length sts)] = n # [Suc n ..< Suc (n + length sts)]"
    by (subst upt_rec) simp
  have "forEach_out (\<lambda>(code, st). addStationMarker code st analyte) (e # sts) s
      = forEach_out (\<lambda>(code, st). addStationMarker code st analyte) sts s1"
    by (simp add: e step)
  also note Cons.IH [OF p1 p2 p3 p4]
  finally show ?case
    unfolding len n_def [symmetric]
    by (simp add: s1_def m1_def mk_def e u del: upt_Suc)
qed

lemma resize_loop:
  "length (fold (\<lambda>ident store. store[ident := (store ! ident)\<lparr>mk_radius := r\<rparr>]) ids st)
     = length st
   \<and> (\<forall>i. (fold (\<lambda>ident store. store[ident := (store ! ident)\<lparr>mk_radius := r\<rparr>]) ids st ! i)
              \<lparr>mk_radius := 0\<rparr>
            = (st ! i)\<lparr>mk_radius := 0\<rparr>)"
proof (induction ids arbitrary: st)
  case Nil
  show ?case by simp
next
  case (Cons ident ids)
  define st1 where "st1 = st[ident := (st ! ident)\<lparr>mk_radius := r\<rparr>]"
  have l: "length st1 = length st" by (simp add: st1_def)
  have e: "(st1 ! i)\<lparr>mk_radius := 0\<rparr> = (st ! i)\<lparr>mk_radius := 0\<rparr>" for i
  proof (cases "ident < length st")
    case True
    then show ?thesis by (cases "i = ident") (simp_all add: st1_def)
  next
    case False
    then show ?thesis by (simp add: st1_def list_update_beyond)
  qed
  from Cons.IH [of st1] l e show ?case
    by (simp add: st1_def [symmetric])
qed

lemma updateMarkerSizes_Returned:
  assumes "mm_map s = Some m"
  shows "\<exists>st. updateMarkerSizes s = Returned (s\<lparr>mm_store := st\<rparr>)
    \<and> length st = length (mm_store s)
    \<and> (\<forall>i. (st ! i)\<lparr>mk_radius := 0\<rparr> = (mm_store s ! i)\<lparr>mk_radius := 0\<rparr>)"
proof -
  define r :: rat where "r = 8 * max (1 / 2) (min (3 / 2) (of_nat (lm_zoom m) / 13))"
  define st where
    "st = fold (\<lambda>ident store. store[ident := (store ! ident)\<lparr>mk_radius := r\<rparr>])
            (map snd (mm_markers s)) (mm_store s)"
  have "updateMarkerSizes s = Returned (s\<lparr>mm_store := st\<rparr>)"
    using assms by (simp add: updateMarkerSizes_def Let_def st_def r_def)
  moreover have "length st = length (mm_store s)
    \<and> (\<forall>i. (st ! i)\<lparr>mk_radius := 0\<rparr> = (mm_store s ! i)\<lparr>mk_radius := 0\<rparr>)"
    unfolding st_def by (rule resize_loop)
  ultimately show ?thesis by blast
qed

lemma fitToMarkers_Returned:
  assumes "mm_map s = Some m"
  shows "\<exists>v z st. fitToMarkers boundsZoom s
        = Returned (s\<lparr>mm_map := Some (m\<lparr>lm_view := v, lm_zoom := z\<rparr>), mm_store := st\<rparr>)
    \<and> length st = length (mm_store s)
    \<and> (\<forall>i. (st ! i)\<lparr>mk_radius := 0\<rparr> = (mm_store s ! i)\<lparr>mk_radius := 0\<rparr>)"
proof (cases "map (\<lambda>ident. (mk_lat (mm_store s ! ident), mk_lng (mm_store s ! ident)))
                (map snd (mm_markers s))")
  case Nil
  have "s\<lparr>mm_map := Some (m\<lparr>lm_view := lm_view m, lm_zoom := lm_zoom m\<rparr>),
          mm_store := mm_store s\<rparr> = s"
    using assms by simp
  then have "fitToMarkers boundsZoom s
      = Returned (s\<lparr>mm_map := Some (m\<lparr>lm_view := lm_view m, lm_zoom := lm_zoom m\<rparr>),
                    mm_store := mm_store s\<rparr>)"
    using Nil by (simp add: fitToMarkers_def)
  then show ?thesis by blast
next
  case (Cons p ps)
  define v where "v = FitBounds (math_min (fst p) (map fst ps)) (math_min (snd p) (map snd ps))
                (math_max (fst p) (map fst ps)) (math_max (snd p) (map snd ps))"
  define s1 where "s1 = s\<lparr>mm_map := Some (m\<lparr>lm_view := v, lm_zoom := min boundsZoom 15\<rparr>)\<rparr>"
  have f: "fitToMarkers boundsZoom s
      = (if min boundsZoom 15 \<noteq> lm_zoom m then updateMarkerSizes s1 else Returned s1)"
    using assms Cons by (simp add: fitToMarkers_def Let_def s1_def v_def)
  show ?thesis
  proof (cases "min boundsZoom 15 \<noteq> lm_zoom m")
    case True
    have "mm_map s1 = Some (m\<lparr>lm_view := v, lm_zoom := min boundsZoom 15\<rparr>)"
      by (simp add: s1_def)
    from updateMarkerSizes_Returned [OF this] obtain st where
      u: "updateMarkerSizes s1 = Returned (s1\<lparr>mm_store := st\<rparr>)"
      and l: "length st = length (mm_store s1)"
      and e: "\<forall>i. (st ! i)\<lparr>mk_radius := 0\<rparr> = (mm_store s1 ! i)\<lparr>mk_radius := 0\<rparr>"
      by blast
    have "fitToMarkers boundsZoom s = Returned (s1\<lparr>mm_store := st\<rparr>)"
      using True by (simp add: f u)
    then have "fitToMarkers boundsZoom s
        = Returned (s\<lparr>mm_map := Some (m\<lparr>lm_view := v, lm_zoom := min boundsZoom 15\<rparr>),
                      mm_store := st\<rparr>)"
      by (simp add: s1_def)
    moreover have "length st = length (mm_store s)" using l by (simp add: s1_def)
    moreover have "\<forall>i. (st ! i)\<lparr>mk_radius := 0\<rparr> = (mm_store s ! i)\<lparr>mk_radius := 0\<rparr>"
      using e by (simp add: s1_def)
    ultimately show ?thesis by blast
  next
    case False
    have "s1 = s\<lparr>mm_map := Some (m\<lparr>lm_view := v, lm_zoom := min boundsZoom 15\<rparr>),
                 mm_store := mm_store s\<rparr>"
      by (simp add: s1_def)
    with False have "fitToMarkers boundsZoom s
        = Returned (s\<lparr>mm_map := Some (m\<lparr>lm_view := v, lm_zoom := min boundsZoom 15\<rparr>),
                      mm_store := mm_store s\<rparr>)"
      by (simp add: f)
    then show ?thesis by blast
  qed
qed

lemma addStationMarkers_Returned:
  assumes d: "mm_data s = Some data" and m: "mm_map s = Some m"
    and dist: "distinct (map fst (stations data))"
    and layers: "set (lm_layers m) \<subseteq> snd ` set (mm_markers s)"
  shows "\<exists>v z st. addStationMarkers boundsZoom analyte s =
     Returned
       (s\<lparr>mm_currentAnalyte := analyte,
          mm_store := st,
          mm_map := Some \<lparr>lm_layers = [length (mm_store s) ..<
                                          length (mm_store s) + length (stations data)],
                          lm_view = v, lm_zoom = z\<rparr>,
          mm_markers := zip (map fst (stations data))
                          [length (mm_store s) ..<
                             length (mm_store s) + length (stations data)]\<rparr>)
     \<and> length st = length (mm_store s) + length (stations data)
     \<and> (\<forall>i. (st ! i)\<lparr>mk_radius := 0\<rparr>
            = ((mm_store s
                 @ map (\<lambda>(code, st). station_marker code st analyte (latest_for data code analyte))
                     (stations data)) ! i)\<lparr>mk_radius := 0\<rparr>)"
proof -
  define s0 where "s0 = s\<lparr>mm_currentAnalyte := analyte\<rparr>"
  define s1 where "s1 = s0\<lparr>mm_map := Some (m\<lparr>lm_layers := []\<rparr>), mm_markers := []\<rparr>"
  define s2 where "s2 = s1\<lparr>mm_store := mm_store s1
            @ map (\<lambda>(code, st). station_marker code st analyte (latest_for data code analyte))
                (stations data),
          mm_map := Some (m\<lparr>lm_layers := []\<rparr>\<lparr>lm_layers := lm_layers (m\<lparr>lm_layers := []\<rparr>)
            @ [length (mm_store s1) ..< length (mm_store s1) + length (stations data)]\<rparr>),
          mm_markers := mm_markers s1
            @ zip (map fst (stations data))
                [length (mm_store s1) ..< length (mm_store s1) + length (stations data)]\<rparr>"
  have d0: "mm_data s0 = Some data" and m0: "mm_map s0 = Some m"
    and l0: "set (lm_layers m) \<subseteq> snd ` set (mm_markers s0)"
    using d m layers by (simp_all add: s0_def)
  have c: "clearMarkers s0 = Returned s1"
    unfolding s1_def by (rule clearMarkers_Returned [OF m0 l0])
  have d1: "mm_data s1 = Some data" and m1: "mm_map s1 = Some (m\<lparr>lm_layers := []\<rparr>)"
    and k1: "fst ` set (stations data) \<inter> fst ` set (mm_markers s1) = {}"
    using d0 by (simp_all add: s1_def)
  have a: "forEach_out (\<lambda>(code, st). addStationMarker code st analyte) (stations data) s1
             = Returned s2"
    unfolding s2_def by (rule add_loop [OF d1 m1 dist k1 d1])
  have m2: "mm_map s2 = Some (m\<lparr>lm_layers :=
      [length (mm_store s) ..< length (mm_store s) + length (stations data)]\<rparr>)"
    by (simp add: s2_def s1_def s0_def)
  have st2: "mm_store s2 = mm_store s
      @ map (\<lambda>(code, st). station_marker code st analyte (latest_for data code analyte))
          (stations data)"
    by (simp add: s2_def s1_def s0_def)
  from fitToMarkers_Returned [OF m2, of boundsZoom] obtain v z st where
    f: "fitToMarkers boundsZoom s2 = Returned (s2\<lparr>mm_map := Some (m\<lparr>lm_layers :=
      [length (mm_store s) ..< length (mm_store s) + length (stations data)]\<rparr>
        \<lparr>lm_view := v, lm_zoom := z\<rparr>), mm_store := st\<rparr>)"
    and l: "length st = length (mm_store s2)"
    and e: "\<forall>i. (st ! i)\<lparr>mk_radius := 0\<rparr> = (mm_store s2 ! i)\<lparr>mk_radius := 0\<rparr>"
    by (elim exE conjE) (rule that)
  have "addStationMarkers boundsZoom analyte s = fitToMarkers boundsZoom s2"
    using d0 by (simp add: addStationMarkers_def Let_def s0_def [symmetric] c a)
  also note f
  also have "s2\<lparr>mm_map := Some (m\<lparr>lm_layers :=
      [length (mm_store s) ..< length (mm_store s) + length (stations data)]\<rparr>
        \<lparr>lm_view := v, lm_zoom := z\<rparr>), mm_store := st\<rparr>
    = s\<lparr>mm_currentAnalyte := analyte,
          mm_store := st,
          mm_map := Some \<lparr>lm_layers = [length (mm_store s) ..<
                                          length (mm_store s) + length (stations data)],
                          lm_view = v, lm_zoom = z\<rparr>,
          mm_markers := zip (map fst (stations data))
                          [length (mm_store s) ..<
                             length (mm_store s) + length (stations data)]\<rparr>"
    by (simp add: s2_def s1_def s0_def)
  finally have r: "addStationMarkers boundsZoom analyte s =
     Returned
       (s\<lparr>mm_currentAnalyte := analyte,
          mm_store := st,
          mm_map := Some \<lparr>lm_layers = [length (mm_store s) ..<
                                          length (mm_store s) + length (stations data)],
                          lm_view = v, lm_zoom = z\<rparr>,
          mm_markers := zip (map fst (stations data))
                          [length (mm_store s) ..<
                             length (mm_store s) + length (stations data)]\<rparr>)" .
  have l': "length st = length (mm_store s) + length (stations data)"
    using l by (simp add: st2)
  from r l' e [unfolded st2] show ?thesis by (intro exI conjI)
qed

lemma station_marker_props:
  "mk_lat (station_marker code st analyte lv) = st_latitude st"
  "mk_lng (station_marker code st analyte lv) = st_longitude st"
  "mk_fillColor (station_marker code st analyte lv)
     = (case lv of None \<Rightarrow> ''#6c757d'' | Some l \<Rightarrow> status_color (lv_status l))"
  by (simp_all add: station_marker_def createStationMarker_def Let_def marker_color_spec
        status_color_def split: option.splits)

lemma same_but_radius:
  assumes "a\<lparr>mk_radius := 0\<rparr> = b\<lparr>mk_radius := 0\<rparr>"
  shows "mk_lat a = mk_lat b" and "mk_lng a = mk_lng b" and "mk_fillColor a = mk_fillColor b"
proof -
  from assms have "mk_lat (a\<lparr>mk_radius := 0\<rparr>) = mk_lat (b\<lparr>mk_radius := 0\<rparr>)"
    and "mk_lng (a\<lparr>mk_radius := 0\<rparr>) = mk_lng (b\<lparr>mk_radius := 0\<rparr>)"
    and "mk_fillColor (a\<lparr>mk_radius := 0\<rparr>) = mk_fillColor (b\<lparr>mk_radius := 0\<rparr>)"
    by (simp_all only:)
  then show "mk_lat a = mk_lat b" and "mk_lng a = mk_lng b" and "mk_fillColor a = mk_fillColor b"
    by simp_all
qed

text \<open>
  C7. With data loaded, a map, distinct station codes and only station markers on the
  map, \<open>addStationMarkers\<close> returns; afterwards \<open>this.markers\<close> has one entry per
  station, in the order of the data, the layers on the map are exactly these markers,
  each once, and the marker of a station stands at the station's position. Its colour
  is read from \<open>data.latestValues\<close>: #6c757d when no analyte is selected (\<open>null\<close> or the
  empty string), when \<open>latestValues\<close> has no entry for the station, or when that entry
  has none for the analyte; otherwise the colour of the status of that latest value,
  #28a745 for \<open>acceptable\<close>, #dc3545 for \<open>outside_range\<close>, #007bff for \<open>no_range\<close> and
  #6c757d for anything else. The colours of the markers, in the order of
  \<open>this.markers\<close>, are those of the stations in the order of the data.
\<close>

theorem addStationMarkers_colors:
  assumes "mm_data s = Some data" and "mm_map s = Some m"
    and "distinct (map fst (stations data))"
    and "set (lm_layers m) \<subseteq> snd ` set (mm_markers s)"
  shows "let colour = (\<lambda>code.
            case analyte of
              None \<Rightarrow> ''#6c757d''
            | Some a \<Rightarrow>
                if a = [] then ''#6c757d''
                else (case map_of (latestValues data) code of
                        None \<Rightarrow> ''#6c757d''
                      | Some lvs \<Rightarrow>
                          (case map_of lvs a of
                             None \<Rightarrow> ''#6c757d''
                           | Some lv \<Rightarrow>
                               if lv_status lv = ''acceptable'' then ''#28a745''
                               else if lv_status lv = ''outside_range'' then ''#dc3545''
                               else if lv_status lv = ''no_range'' then ''#007bff''
                               else ''#6c757d'')))
     in \<exists>s' m'. addStationMarkers boundsZoom analyte s = Returned s' \<and> mm_map s' = Some m'
     \<and> map fst (mm_markers s') = map fst (stations data)
     \<and> lm_layers m' = map snd (mm_markers s') \<and> distinct (lm_layers m')
     \<and> (\<forall>code station. (code, station) \<in> set (stations data) \<longrightarrow>
          (\<exists>ident. map_of (mm_markers s') code = Some ident \<and> ident < length (mm_store s')
             \<and> mk_lat (mm_store s' ! ident) = st_latitude station
             \<and> mk_lng (mm_store s' ! ident) = st_longitude station
             \<and> mk_fillColor (mm_store s' ! ident) = colour code))
     \<and> map (\<lambda>(code, ident). (code, mk_fillColor (mm_store s' ! ident))) (mm_markers s')
         = map (\<lambda>(code, station). (code, colour code)) (stations data)"
proof -
  define colour where "colour = (\<lambda>code.
            case analyte of
              None \<Rightarrow> ''#6c757d''
            | Some a \<Rightarrow>
                if a = [] then ''#6c757d''
                else (case map_of (latestValues data) code of
                        None \<Rightarrow> ''#6c757d''
                      | Some lvs \<Rightarrow>
                          (case map_of lvs a of
                             None \<Rightarrow> ''#6c757d''
                           | Some lv \<Rightarrow>
                               if lv_status lv = ''acceptable'' then ''#28a745''
                               else if lv_status lv = ''outside_range'' then ''#dc3545''
                               else if lv_status lv = ''no_range'' then ''#007bff''
                               else ''#6c757d'')))"
  have col: "(case latest_for data code analyte of
                None \<Rightarrow> ''#6c757d''
              | Some lv \<Rightarrow> status_color (lv_status lv)) = colour code" for code
    by (simp add: colour_def latest_for_def selected_def status_color_def split: option.splits)
  define n where "n = length (mm_store s)"
  define k where "k = length (stations data)"
  define f where "f = (\<lambda>(code, st). station_marker code st analyte (latest_for data code analyte))"
  from addStationMarkers_Returned [OF assms, of boundsZoom analyte]
  have "\<exists>v z st. addStationMarkers boundsZoom analyte s =
     Returned
       (s\<lparr>mm_currentAnalyte := analyte,
          mm_store := st,
          mm_map := Some \<lparr>lm_layers = [n ..< n + k], lm_view = v, lm_zoom = z\<rparr>,
          mm_markers := zip (map fst (stations data)) [n ..< n + k]\<rparr>)
    \<and> length st = n + k
    \<and> (\<forall>i. (st ! i)\<lparr>mk_radius := 0\<rparr>
                 = ((mm_store s @ map f (stations data)) ! i)\<lparr>mk_radius := 0\<rparr>)"
    unfolding n_def k_def f_def .
  then obtain v z st where
    r: "addStationMarkers boundsZoom analyte s =
     Returned
       (s\<lparr>mm_currentAnalyte := analyte,
          mm_store := st,
          mm_map := Some \<lparr>lm_layers = [n ..< n + k], lm_view = v, lm_zoom = z\<rparr>,
          mm_markers := zip (map fst (stations data)) [n ..< n + k]\<rparr>)"
    and len: "length st = n + k"
    and same: "\<forall>i. (st ! i)\<lparr>mk_radius := 0\<rparr>
                 = ((mm_store s @ map f (stations data)) ! i)\<lparr>mk_radius := 0\<rparr>"
    by (elim exE conjE) (rule that)
  define s' where "s' = s\<lparr>mm_currentAnalyte := analyte,
          mm_store := st,
          mm_map := Some \<lparr>lm_layers = [n ..< n + k], lm_view = v, lm_zoom = z\<rparr>,
          mm_markers := zip (map fst (stations data)) [n ..< n + k]\<rparr>"
  have store: "mm_store s' = st" and marks: "mm_markers s' = zip (map fst (stations data)) [n ..< n + k]"
    by (simp_all add: s'_def)
  have at: "mk_lat (st ! (n + i)) = st_latitude station
          \<and> mk_lng (st ! (n + i)) = st_longitude station
          \<and> mk_fillColor (st ! (n + i)) = colour code"
    if i: "i < k" and e: "stations data ! i = (code, station)" for i code station
  proof -
    have "(mm_store s @ map f (stations data)) ! (n + i) = f (stations data ! i)"
      using i by (simp add: n_def k_def nth_append)
    then have "(mm_store s @ map f (stations data)) ! (n + i)
        = station_marker code station analyte (latest_for data code analyte)"
      by (simp add: e f_def)
    with same have "(st ! (n + i))\<lparr>mk_radius := 0\<rparr>
        = (station_marker code station analyte (latest_for data code analyte))\<lparr>mk_radius := 0\<rparr>"
      by simp
    from same_but_radius [OF this] show ?thesis
      by (simp add: station_marker_props col)
  qed
  have 1: "addStationMarkers boundsZoom analyte s = Returned s'" by (simp add: r s'_def)
  have 2: "mm_map s' = Some \<lparr>lm_layers = [n ..< n + k], lm_view = v, lm_zoom = z\<rparr>"
    by (simp add: s'_def)
  have 3: "map fst (mm_markers s') = map fst (stations data)"
    by (simp add: s'_def k_def)
  have 4: "[n ..< n + k] = map snd (mm_markers s')"
    by (simp add: s'_def k_def)
  have 5: "distinct [n ..< n + k]" by simp
  have 6: "\<forall>code station. (code, station) \<in> set (stations data) \<longrightarrow>
          (\<exists>ident. map_of (mm_markers s') code = Some ident \<and> ident < length (mm_store s')
             \<and> mk_lat (mm_store s' ! ident) = st_latitude station
             \<and> mk_lng (mm_store s' ! ident) = st_longitude station
             \<and> mk_fillColor (mm_store s' ! ident) = colour code)"
  proof (intro allI impI)
    fix code station assume "(code, station) \<in> set (stations data)"
    then obtain i where i: "i < k" and e: "stations data ! i = (code, station)"
      unfolding k_def by (auto simp: in_set_conv_nth)
    have c: "map fst (stations data) ! i = code" using i e by (simp add: k_def)
    have "map_of (zip (map fst (stations data)) [n ..< n + k]) (map fst (stations data) ! i)
            = Some ([n ..< n + k] ! i)"
      by (rule map_of_zip_nth) (use i assms(3) in \<open>simp_all add: k_def\<close>)
    then have a: "map_of (mm_markers s') code = Some (n + i)"
      using i by (simp add: c marks)
    have b: "n + i < length (mm_store s')" using i by (simp add: store len)
    show "\<exists>ident. map_of (mm_markers s') code = Some ident \<and> ident < length (mm_store s')
             \<and> mk_lat (mm_store s' ! ident) = st_latitude station
             \<and> mk_lng (mm_store s' ! ident) = st_longitude station
             \<and> mk_fillColor (mm_store s' ! ident) = colour code"
      using a b at [OF i e] by (intro exI [of _ "n + i"]) (simp add: store)
  qed
  have 7: "map (\<lambda>(code, ident). (code, mk_fillColor (mm_store s' ! ident))) (mm_markers s')
         = map (\<lambda>(code, station). (code, colour code)) (stations data)"
  proof (rule nth_equalityI)
    show "length (map (\<lambda>(code, ident). (code, mk_fillColor (mm_store s' ! ident))) (mm_markers s'))
        = length (map (\<lambda>(code, station). (code, colour code)) (stations data))"
      by (simp add: marks k_def)
  next
    fix i
    assume "i < length (map (\<lambda>(code, ident). (code, mk_fillColor (mm_store s' ! ident)))
                          (mm_markers s'))"
    then have i: "i < k" by (simp add: marks k_def)
    obtain code station where e: "stations data ! i = (code, station)"
      by (cases "stations data ! i")
    have "mm_markers s' ! i = (code, n + i)"
      using i e by (simp add: marks k_def)
    then have "map (\<lambda>(code, ident). (code, mk_fillColor (mm_store s' ! ident))) (mm_markers s') ! i
        = (code, mk_fillColor (st ! (n + i)))"
      using i by (simp add: marks k_def store)
    also have "\<dots> = (code, colour code)" using at [OF i e] by simp
    also have "\<dots> = map (\<lambda>(code, station). (code, colour code)) (stations data) ! i"
      using i e by (simp add: k_def)
    finally show "map (\<lambda>(code, ident). (code, mk_fillColor (mm_store s' ! ident))) (mm_markers s') ! i
        = map (\<lambda>(code, station). (code, colour code)) (stations data) ! i" .
  qed
  from 1 2 3 4 5 6 7
  have "\<exists>s' m'. addStationMarkers boundsZoom analyte s = Returned s' \<and> mm_map s' = Some m'
     \<and> map fst (mm_markers s') = map fst (stations data)
     \<and> lm_layers m' = map snd (mm_markers s') \<and> distinct (lm_layers m')
     \<and> (\<forall>code station. (code, station) \<in> set (stations data) \<longrightarrow>
          (\<exists>ident. map_of (mm_markers s') code = Some ident \<and> ident < length (mm_store s')
             \<and> mk_lat (mm_store s' ! ident) = st_latitude station
             \<and> mk_lng (mm_store s' ! ident) = st_longitude station
             \<and> mk_fillColor (mm_store s' ! ident) = colour code))
     \<and> map (\<lambda>(code, ident). (code, mk_fillColor (mm_store s' ! ident))) (mm_markers s')
         = map (\<lambda>(code, station). (code, colour code)) (stations data)"
    by (intro exI [of _ s'] exI [of _ "\<lparr>lm_layers = [n ..< n + k], lm_view = v, lm_zoom = z\<rparr>"])
       simp
  then show ?thesis unfolding colour_def Let_def .
qed

theorem addStationMarkers_colors_witness:
  "mm_data four_ready = Some four_stations
   \<and> mm_map four_ready
       = Some \<lparr>lm_layers = [], lm_view = Center (3782 / 100) (- 12199 / 100), lm_zoom = 13\<rparr>
   \<and> distinct (map fst (stations four_stations))
   \<and> set (lm_layers \<lparr>lm_layers = [], lm_view = Center (3782 / 100) (- 12199 / 100),
                      lm_zoom = 13\<rparr>)
        \<subseteq> snd ` set (mm_markers four_ready)
   \<and> (\<exists>s'. addStationMarkers 14 (Some ''pH'') four_ready = Returned s'
         \<and> map (\<lambda>(code, ident). (code, mk_fillColor (mm_store s' ! ident))) (mm_markers s')
             = [(''SRA100'', ''#28a745''), (''SRA120'', ''#dc3545''),
                (''SRA141'', ''#6c757d''), (''SRA160'', ''#6c757d'')])
   \<and> (\<exists>s'. addStationMarkers 14 (Some ''Turbidity'') four_ready = Returned s'
         \<and> map (\<lambda>(code, ident). (code, mk_fillColor (mm_store s' ! ident))) (mm_markers s')
             = [(''SRA100'', ''#007bff''), (''SRA120'', ''#6c757d''),
                (''SRA141'', ''#6c757d''), (''SRA160'', ''#6c757d'')])
   \<and> (\<exists>s'. addStationMarkers 14 None four_ready = Returned s'
         \<and> map (\<lambda>(code, ident). (code, mk_fillColor (mm_store s' ! ident))) (mm_markers s')
             = [(''SRA100'', ''#6c757d''), (''SRA120'', ''#6c757d''),
                (''SRA141'', ''#6c757d''), (''SRA160'', ''#6c757d'')])"
proof -
  have h1: "mm_data four_ready = Some four_stations"
    by (simp add: four_ready_def setData_def)
  have h2: "mm_map four_ready
      = Some \<lparr>lm_layers = [], lm_view = Center (3782 / 100) (- 12199 / 100), lm_zoom = 13\<rparr>"
    by (simp add: four_ready_def setData_def initMap_def)
  have h3: "distinct (map fst (stations four_stations))"
    by (simp add: four_stations_def)
  have h4: "set (lm_layers \<lparr>lm_layers = [], lm_view = Center (3782 / 100) (- 12199 / 100),
                      lm_zoom = 13\<rparr>)
        \<subseteq> snd ` set (mm_markers four_ready)"
    by simp
  note w = addStationMarkers_colors [OF h1 h2 h3 h4, where boundsZoom = 14, unfolded Let_def]
  from w [where analyte = "Some ''pH''"]
  have a: "\<exists>s'. addStationMarkers 14 (Some ''pH'') four_ready = Returned s'
         \<and> map (\<lambda>(code, ident). (code, mk_fillColor (mm_store s' ! ident))) (mm_markers s')
             = [(''SRA100'', ''#28a745''), (''SRA120'', ''#dc3545''),
                (''SRA141'', ''#6c757d''), (''SRA160'', ''#6c757d'')]"
    by (elim exE conjE) (rule exI, rule conjI, assumption, simp add: four_stations_def)
  from w [where analyte = "Some ''Turbidity''"]
  have b: "\<exists>s'. addStationMarkers 14 (Some ''Turbidity'') four_ready = Returned s'
         \<and> map (\<lambda>(code, ident). (code, mk_fillColor (mm_store s' ! ident))) (mm_markers s')
             = [(''SRA100'', ''#007bff''), (''SRA120'', ''#6c757d''),
                (''SRA141'', ''#6c757d''), (''SRA160'', ''#6c757d'')]"
    by (elim exE conjE) (rule exI, rule conjI, assumption, simp add: four_stations_def)
  from w [where analyte = None]
  have c: "\<exists>s'. addStationMarkers 14 None four_ready = Returned s'
         \<and> map (\<lambda>(code, ident). (code, mk_fillColor (mm_store s' ! ident))) (mm_markers s')
             = [(''SRA100'', ''#6c757d''), (''SRA120'', ''#6c757d''),
                (''SRA141'', ''#6c757d''), (''SRA160'', ''#6c757d'')]"
    by (elim exE conjE) (rule exI, rule conjI, assumption, simp add: four_stations_def)
  from h1 h2 h3 h4 a b c show ?thesis by (intro conjI)
qed

lemma map_drawn_gray:
  "mm_markers map_drawn = [(''SRA100'', 0)] \<and> map mk_fillColor (mm_store map_drawn) = [''#6c757d'']"
  by code_simp

lemma map_drawn_red:
  "map mk_fillColor (mm_store (state_of (updateMarkerColors (Some ''pH'') map_drawn)))
     = [''#dc3545'']"
  by code_simp

theorem updateMarkerColors_frame_witness:
  "mm_markers (state_of (updateMarkerColors (Some ''pH'') map_drawn)) = [(''SRA100'', 0)]
   \<and> mm_map (state_of (updateMarkerColors (Some ''pH'') map_drawn)) = mm_map map_drawn
   \<and> map blank (mm_store (state_of (updateMarkerColors (Some ''pH'') map_drawn)))
       = map blank (mm_store map_drawn)
   \<and> map mk_fillColor (mm_store map_drawn) = [''#6c757d'']
   \<and> map mk_fillColor (mm_store (state_of (updateMarkerColors (Some ''pH'') map_drawn)))
       = [''#dc3545'']"
  using updateMarkerColors_frame [of "Some ''pH''" map_drawn] map_drawn_gray map_drawn_red
  by simp

end
